theory Spec2Isabelle
  imports Main "HOL-Library.Word"
begin

section \<open>JavaScript values used by the client\<close>

text \<open>
  A thrown value is an \<open>Error\<close> with its message, or some other value
  (\<open>error instanceof Error\<close> is false for it). \<open>str_includes s sub\<close> is
  \<open>s.includes(sub)\<close>; \<open>toStringRadix r n\<close> is \<open>n.toString(r)\<close> for a non-negative
  integer; \<open>show_nat\<close> is the decimal rendering used by template strings.
\<close>

datatype thrown = Error string | NonError

definition digit_char :: "nat \<Rightarrow> char" where
  "digit_char d = (''0123456789abcdefghijklmnopqrstuvwxyz'') ! d"

function toStringRadix :: "nat \<Rightarrow> nat \<Rightarrow> string" where
  "toStringRadix radix n =
     (if radix < 2 \<or> n < radix then [digit_char n]
      else toStringRadix radix (n div radix) @ [digit_char (n mod radix)])"
  by pat_completeness auto
termination
  by (relation "measure (\<lambda>(radix, n). n)") auto

declare toStringRadix.simps [simp del]

definition show_nat :: "nat \<Rightarrow> string" where
  "show_nat n = toStringRadix 10 n"

fun str_includes :: "string \<Rightarrow> string \<Rightarrow> bool" where
  "str_includes [] sub = (sub = [])"
| "str_includes (c # cs) sub = (take (length sub) (c # cs) = sub \<or> str_includes cs sub)"

fun is429Error :: "thrown \<Rightarrow> bool" where
  "is429Error (Error message) =
     (str_includes message ''429'' \<or> str_includes message ''Too many requests''
      \<or> str_includes message ''Too Many Requests'')"
| "is429Error NonError = False"

fun errMsg :: "thrown \<Rightarrow> string" where
  "errMsg (Error message) = message"
| "errMsg NonError = ''Unknown error''"

section \<open>Endpoint health tracking (resilient-connection.ts)\<close>

text \<open>
  The module keeps a process-wide \<open>Map<string, EndpointHealth>\<close>. It is modelled as a
  partial map from endpoint URL to a record; every function that mutates it returns the
  updated map. \<open>Date.now()\<close> is passed in as the argument \<open>now\<close> (milliseconds).
\<close>

record EndpointHealth =
  disabledUntil :: int
  failCount :: nat

type_synonym health_map = "string \<rightharpoonup> EndpointHealth"

definition COOLDOWN_MS :: int where
  "COOLDOWN_MS = 2000"

definition isEndpointAvailable :: "int \<Rightarrow> health_map \<Rightarrow> string \<Rightarrow> bool \<times> health_map" where
  "isEndpointAvailable now m url =
     (case m url of
        None \<Rightarrow> (True, m)
      | Some health \<Rightarrow>
          if now \<ge> disabledUntil health then (True, m(url := None)) else (False, m))"

definition markEndpointDisabled :: "int \<Rightarrow> health_map \<Rightarrow> string \<Rightarrow> health_map" where
  "markEndpointDisabled now m url =
     (let existing = (case m url of
                        None \<Rightarrow> \<lparr>disabledUntil = 0, failCount = 0\<rparr>
                      | Some h \<Rightarrow> h);
          existing1 = existing\<lparr>failCount := failCount existing + 1\<rparr>;
          existing2 = existing1\<lparr>disabledUntil := now + COOLDOWN_MS\<rparr>
      in m(url \<mapsto> existing2))"

definition markEndpointHealthy :: "health_map \<Rightarrow> string \<Rightarrow> health_map" where
  "markEndpointHealthy m url = (if m url \<noteq> None then m(url := None) else m)"

text \<open>The length of the interval during which \<open>url\<close> stays disabled, measured from \<open>now\<close>.\<close>

definition disabledFor :: "int \<Rightarrow> health_map \<Rightarrow> string \<Rightarrow> int" where
  "disabledFor now m url = (case m url of None \<Rightarrow> 0 | Some h \<Rightarrow> disabledUntil h - now)"

section \<open>Endpoint rotation (resilient-connection.ts)\<close>

text \<open>
  \<open>executeWithRotation\<close> and \<open>tryEndpointWithRetry\<close> are async functions and the health
  map is shared by all calls. Several calls can be in flight at once (the semaphore admits
  three, and callers start calls together with \<open>Promise.all\<close>); JavaScript runs the code of
  one call without interruption from one \<open>await\<close> to the next, and there the calls
  interleave. The model is a transition system. A configuration holds the health map, the
  clock (\<open>Date.now()\<close>, milliseconds), the free permits of the semaphore, the state of
  every call (calls are numbered) and a log. An event is what one call does between two
  awaits. When a request settles, the part of the reaction that runs inside
  \<open>tryEndpointWithRetry\<close> touches no shared state, so it is taken together with the part
  that runs in \<open>executeWithRotation\<close>. The rate limiter only delays the begin of a call
  and is not modelled.

  \<open>getShortestCooldownMs\<close>; the accumulator \<open>None\<close> stands for \<open>Infinity\<close>.
\<close>

fun shortest_loop :: "int \<Rightarrow> health_map \<Rightarrow> string list \<Rightarrow> int option \<Rightarrow> int" where
  "shortest_loop now m [] shortestWait = (case shortestWait of None \<Rightarrow> 0 | Some w \<Rightarrow> w)"
| "shortest_loop now m (url # rest) shortestWait =
     (case m url of
        None \<Rightarrow> 0
      | Some h \<Rightarrow>
          if now \<ge> disabledUntil h then 0
          else (let remaining = disabledUntil h - now
                in shortest_loop now m rest
                     (case shortestWait of
                        None \<Rightarrow> Some remaining
                      | Some w \<Rightarrow> if remaining < w then Some remaining else Some w)))"

definition getShortestCooldownMs :: "int \<Rightarrow> health_map \<Rightarrow> string list \<Rightarrow> int" where
  "getShortestCooldownMs now m endpoints = shortest_loop now m endpoints None"

text \<open>
  The three errors \<open>executeWithRotation\<close> throws itself: "All RPC endpoints failed" with
  the collected (endpoint, message) pairs, "All RPC endpoints are in cooldown", and
  "RPC failed after cooldown wait" with the message of the underlying error.
\<close>

datatype rotation_error =
    AllEndpointsFailed "(string \<times> string) list"
  | AllEndpointsInCooldown
  | FailedAfterCooldownWait string

text \<open>
  Where a call waits. \<open>Idle\<close>: it has not yet passed the rate limiter and the semaphore.
  \<open>MainRequest endpoint attempt rest errors\<close>: it awaits \<open>operation(connection)\<close> in
  \<open>tryEndpointWithRetry\<close>, called from the main loop for \<open>endpoint\<close>; \<open>rest\<close> are the
  endpoints the loop has not reached and \<open>errors\<close> is the local array. \<open>MainBackoff\<close>: it
  awaits the \<open>setTimeout\<close> between two attempts on the same endpoint; the last component
  is the earliest time the timer fires, \<open>2^attempt * 500\<close> ms after the failed attempt
  (the random jitter and the lateness of timers only add to it). \<open>CooldownWait\<close>: it
  awaits \<open>setTimeout(waitMs + 100)\<close> because every endpoint was in cooldown.
  \<open>RetryRequest\<close> and \<open>RetryBackoff\<close>: the two awaits of \<open>tryEndpointWithRetry\<close> again, in
  the single retry after that wait. \<open>Finished\<close>: the call has returned (\<open>Inr\<close>) or thrown
  (\<open>Inl\<close>).
\<close>

datatype 'a call_state =
    Idle
  | MainRequest string nat "string list" "(string \<times> string) list"
  | MainBackoff string nat "string list" "(string \<times> string) list" int
  | CooldownWait int
  | RetryRequest string nat
  | RetryBackoff string nat int
  | Finished "rotation_error + 'a"

text \<open>
  The log. \<open>Sent tid url t selected\<close>: call \<open>tid\<close> sends a request to \<open>url\<close> at time
  \<open>t\<close>; \<open>selected\<close> tells whether this is the first attempt, made right after
  \<open>isEndpointAvailable\<close> accepted the endpoint, or a later attempt of
  \<open>tryEndpointWithRetry\<close>. \<open>Got tid url t reply\<close>: the request settles at time \<open>t\<close>, with a
  result, with a rate-limit error, or with another error.
\<close>

datatype reply = Succeeded | Failed | Limited

datatype log_entry = Sent nat string int bool | Got nat string int reply

record 'a config =
  health :: health_map
  clock :: int
  permits :: nat
  running :: "nat \<Rightarrow> 'a call_state"
  history :: "log_entry list"

definition reply_of :: "thrown + 'a \<Rightarrow> reply" where
  "reply_of r = (case r of Inr v \<Rightarrow> Succeeded | Inl e \<Rightarrow> if is429Error e then Limited else Failed)"

definition set_call :: "nat \<Rightarrow> 'a call_state \<Rightarrow> 'a config \<Rightarrow> 'a config" where
  "set_call tid st c = c\<lparr>running := (running c)(tid := st)\<rparr>"

definition record_entry :: "log_entry \<Rightarrow> 'a config \<Rightarrow> 'a config" where
  "record_entry x c = c\<lparr>history := history c @ [x]\<rparr>"

text \<open>The call returns or throws; the \<open>finally\<close> block releases the permit.\<close>

definition finish :: "nat \<Rightarrow> rotation_error + 'a \<Rightarrow> 'a config \<Rightarrow> 'a config" where
  "finish tid res c = (set_call tid (Finished res) c)\<lparr>permits := permits c + 1\<rparr>"

text \<open>
  The main loop of \<open>executeWithRotation\<close> from some endpoint on, with its local variables
  \<open>triedAny\<close> and \<open>errors\<close>, up to the next await. An endpoint in cooldown is skipped; the
  first available one is sent the first attempt of \<open>tryEndpointWithRetry\<close> (with
  \<open>maxRetries = 2\<close> the loop of that function always makes its first attempt). After the
  last endpoint the call throws, or waits for the shortest cooldown if it tried none.
\<close>

fun main_loop ::
  "string list \<Rightarrow> nat \<Rightarrow> string list \<Rightarrow> bool \<Rightarrow> (string \<times> string) list \<Rightarrow> 'a config \<Rightarrow> 'a config" where
  "main_loop networkEndpoints tid [] triedAny errors c =
     (if \<not> triedAny then
        (let waitMs = getShortestCooldownMs (clock c) (health c) networkEndpoints
         in if waitMs > 0 \<and> waitMs \<le> COOLDOWN_MS
            then set_call tid (CooldownWait (clock c + (waitMs + 100))) c
            else finish tid (Inl AllEndpointsInCooldown) c)
      else finish tid (Inl (AllEndpointsFailed errors)) c)"
| "main_loop networkEndpoints tid (endpoint # rest) triedAny errors c =
     (case isEndpointAvailable (clock c) (health c) endpoint of
        (False, m) \<Rightarrow> main_loop networkEndpoints tid rest triedAny errors (c\<lparr>health := m\<rparr>)
      | (True, m) \<Rightarrow>
          set_call tid (MainRequest endpoint 1 rest errors)
            (record_entry (Sent tid endpoint (clock c) True) (c\<lparr>health := m\<rparr>)))"

text \<open>The loop of the single retry after the wait: the first available endpoint is tried.\<close>

fun retry_loop :: "nat \<Rightarrow> string list \<Rightarrow> 'a config \<Rightarrow> 'a config" where
  "retry_loop tid [] c = finish tid (Inl AllEndpointsInCooldown) c"
| "retry_loop tid (endpoint # rest) c =
     (case isEndpointAvailable (clock c) (health c) endpoint of
        (False, m) \<Rightarrow> retry_loop tid rest (c\<lparr>health := m\<rparr>)
      | (True, m) \<Rightarrow>
          set_call tid (RetryRequest endpoint 1)
            (record_entry (Sent tid endpoint (clock c) True) (c\<lparr>health := m\<rparr>)))"

text \<open>
  The request of the main loop settles. A result: \<open>markEndpointHealthy\<close> and return. A
  rate-limit error: \<open>tryEndpointWithRetry\<close> throws it again at once, the \<open>catch\<close> of the
  loop collects it and calls \<open>markEndpointDisabled\<close>, and the loop goes on. Another error:
  a second attempt on the same endpoint after the backoff if this was the first attempt,
  otherwise the \<open>catch\<close> collects it and the loop goes on.
\<close>

definition answer_main ::
  "string list \<Rightarrow> nat \<Rightarrow> string \<Rightarrow> nat \<Rightarrow> string list \<Rightarrow> (string \<times> string) list
     \<Rightarrow> thrown + 'a \<Rightarrow> 'a config \<Rightarrow> 'a config" where
  "answer_main networkEndpoints tid endpoint attempt rest errors r c =
     (let c1 = record_entry (Got tid endpoint (clock c) (reply_of r)) c
      in case r of
           Inr result \<Rightarrow>
             finish tid (Inr result) (c1\<lparr>health := markEndpointHealthy (health c1) endpoint\<rparr>)
         | Inl error \<Rightarrow>
             if is429Error error then
               main_loop networkEndpoints tid rest True (errors @ [(endpoint, errMsg error)])
                 (c1\<lparr>health := markEndpointDisabled (clock c1) (health c1) endpoint\<rparr>)
             else if attempt < 2 then
               set_call tid (MainBackoff endpoint attempt rest errors (clock c1 + 2 ^ attempt * 500)) c1
             else
               main_loop networkEndpoints tid rest True (errors @ [(endpoint, errMsg error)]) c1)"

text \<open>
  The request of the retry settles. Here the \<open>catch\<close> throws "RPC failed after cooldown
  wait" for every error, after \<open>markEndpointDisabled\<close> for a rate-limit error: no other
  endpoint is tried.
\<close>

definition answer_retry ::
  "nat \<Rightarrow> string \<Rightarrow> nat \<Rightarrow> thrown + 'a \<Rightarrow> 'a config \<Rightarrow> 'a config" where
  "answer_retry tid endpoint attempt r c =
     (let c1 = record_entry (Got tid endpoint (clock c) (reply_of r)) c
      in case r of
           Inr result \<Rightarrow>
             finish tid (Inr result) (c1\<lparr>health := markEndpointHealthy (health c1) endpoint\<rparr>)
         | Inl error \<Rightarrow>
             if is429Error error then
               finish tid (Inl (FailedAfterCooldownWait (errMsg error)))
                 (c1\<lparr>health := markEndpointDisabled (clock c1) (health c1) endpoint\<rparr>)
             else if attempt < 2 then
               set_call tid (RetryBackoff endpoint attempt (clock c1 + 2 ^ attempt * 500)) c1
             else finish tid (Inl (FailedAfterCooldownWait (errMsg error))) c1)"

text \<open>
  The events. \<open>Begin t tid preferNonPrimary\<close>: call \<open>tid\<close> has passed the rate limiter,
  takes a permit of the semaphore and enters the main loop. \<open>Answer t tid r\<close>: the request
  that call \<open>tid\<close> awaits settles with \<open>r\<close>. \<open>Wake t tid\<close>: the timer that call \<open>tid\<close>
  awaits fires; after a backoff the next attempt is sent to the same endpoint, and
  \<open>isEndpointAvailable\<close> is not asked again. \<open>t\<close> is the time of the event.
\<close>

datatype 'a event = Begin int nat bool | Answer int nat "thrown + 'a" | Wake int nat

fun ev_time :: "'a event \<Rightarrow> int" where
  "ev_time (Begin t tid p) = t"
| "ev_time (Answer t tid r) = t"
| "ev_time (Wake t tid) = t"

fun ev_call :: "'a event \<Rightarrow> nat" where
  "ev_call (Begin t tid p) = tid"
| "ev_call (Answer t tid r) = tid"
| "ev_call (Wake t tid) = tid"

text \<open>Whether the event can happen to a call in the given state, with \<open>n\<close> free permits.\<close>

fun enabled :: "'a event \<Rightarrow> 'a call_state \<Rightarrow> nat \<Rightarrow> bool" where
  "enabled (Begin t tid p) Idle n = (0 < n)"
| "enabled (Answer t tid r) (MainRequest endpoint attempt rest errors) n = True"
| "enabled (Answer t tid r) (RetryRequest endpoint attempt) n = True"
| "enabled (Wake t tid) (MainBackoff endpoint attempt rest errors due) n = (due \<le> t)"
| "enabled (Wake t tid) (RetryBackoff endpoint attempt due) n = (due \<le> t)"
| "enabled (Wake t tid) (CooldownWait due) n = (due \<le> t)"
| "enabled ev st n = False"

fun fire :: "string list \<Rightarrow> 'a event \<Rightarrow> 'a call_state \<Rightarrow> 'a config \<Rightarrow> 'a config" where
  "fire networkEndpoints (Begin t tid p) Idle c =
     main_loop networkEndpoints tid (if p then rev networkEndpoints else networkEndpoints) False []
       (c\<lparr>permits := permits c - 1\<rparr>)"
| "fire networkEndpoints (Answer t tid r) (MainRequest endpoint attempt rest errors) c =
     answer_main networkEndpoints tid endpoint attempt rest errors r c"
| "fire networkEndpoints (Answer t tid r) (RetryRequest endpoint attempt) c =
     answer_retry tid endpoint attempt r c"
| "fire networkEndpoints (Wake t tid) (MainBackoff endpoint attempt rest errors due) c =
     set_call tid (MainRequest endpoint (attempt + 1) rest errors)
       (record_entry (Sent tid endpoint (clock c) False) c)"
| "fire networkEndpoints (Wake t tid) (RetryBackoff endpoint attempt due) c =
     set_call tid (RetryRequest endpoint (attempt + 1))
       (record_entry (Sent tid endpoint (clock c) False) c)"
| "fire networkEndpoints (Wake t tid) (CooldownWait due) c = retry_loop tid networkEndpoints c"
| "fire networkEndpoints ev st c = c"

text \<open>
  One event: time does not go back, and an event that cannot happen leaves the
  configuration as it is. A run is a sequence of events.
\<close>

definition step :: "string list \<Rightarrow> 'a event \<Rightarrow> 'a config \<Rightarrow> 'a config" where
  "step networkEndpoints ev c =
     (if clock c \<le> ev_time ev \<and> enabled ev (running c (ev_call ev)) (permits c)
      then fire networkEndpoints ev (running c (ev_call ev)) (c\<lparr>clock := ev_time ev\<rparr>)
      else c)"

fun run :: "string list \<Rightarrow> 'a event list \<Rightarrow> 'a config \<Rightarrow> 'a config" where
  "run networkEndpoints [] c = c"
| "run networkEndpoints (ev # evs) c = run networkEndpoints evs (step networkEndpoints ev c)"

text \<open>The start: no health record, no call begun, \<open>n\<close> permits (the source has 3).\<close>

definition initial :: "nat \<Rightarrow> int \<Rightarrow> 'a config" where
  "initial n t0 = \<lparr>health = Map.empty, clock = t0, permits = n, running = (\<lambda>tid. Idle), history = []\<rparr>"

text \<open>
  The cooldown discipline as the specification states it, on a log: after a rate-limit
  answer of an endpoint at time \<open>t\<close>, no request is sent to that endpoint before
  \<open>t + COOLDOWN_MS\<close>.
\<close>

fun sent_before :: "string \<Rightarrow> int \<Rightarrow> log_entry list \<Rightarrow> bool" where
  "sent_before url d [] = False"
| "sent_before url d (Sent tid u t selected # rest) = ((u = url \<and> t < d) \<or> sent_before url d rest)"
| "sent_before url d (Got tid u t r # rest) = sent_before url d rest"

fun strict_cooldown :: "log_entry list \<Rightarrow> bool" where
  "strict_cooldown [] = True"
| "strict_cooldown (Sent tid u t selected # rest) = strict_cooldown rest"
| "strict_cooldown (Got tid u t r # rest) =
     ((r \<noteq> Limited \<or> \<not> sent_before u (t + COOLDOWN_MS) rest) \<and> strict_cooldown rest)"

text \<open>
  The discipline that the code keeps with calls in flight together: after a rate-limit
  answer of an endpoint at time \<open>t\<close>, no call selects that endpoint before
  \<open>t + COOLDOWN_MS\<close>, unless a request to it has succeeded in the meantime.
\<close>

fun selected_before :: "string \<Rightarrow> int \<Rightarrow> log_entry list \<Rightarrow> bool" where
  "selected_before url d [] = False"
| "selected_before url d (Sent tid u t selected # rest) =
     ((selected \<and> u = url \<and> t < d) \<or> selected_before url d rest)"
| "selected_before url d (Got tid u t r # rest) =
     (if u = url \<and> r = Succeeded then False else selected_before url d rest)"

fun guarded_cooldown :: "log_entry list \<Rightarrow> bool" where
  "guarded_cooldown [] = True"
| "guarded_cooldown (Sent tid u t selected # rest) = guarded_cooldown rest"
| "guarded_cooldown (Got tid u t r # rest) =
     ((r \<noteq> Limited \<or> \<not> selected_before u (t + COOLDOWN_MS) rest) \<and> guarded_cooldown rest)"

text \<open>
  For the proofs: the deadlines \<open>t + COOLDOWN_MS\<close> of the rate-limit answers of an
  endpoint in a log, all of them, and those not followed by a success of the endpoint.
\<close>

fun succeeded_in :: "string \<Rightarrow> log_entry list \<Rightarrow> bool" where
  "succeeded_in url [] = False"
| "succeeded_in url (Sent tid u t selected # rest) = succeeded_in url rest"
| "succeeded_in url (Got tid u t r # rest) = ((u = url \<and> r = Succeeded) \<or> succeeded_in url rest)"

fun all_deadlines :: "string \<Rightarrow> log_entry list \<Rightarrow> int list" where
  "all_deadlines url [] = []"
| "all_deadlines url (Sent tid u t selected # rest) = all_deadlines url rest"
| "all_deadlines url (Got tid u t r # rest) =
     (if u = url \<and> r = Limited then [t + COOLDOWN_MS] else []) @ all_deadlines url rest"

fun open_deadlines :: "string \<Rightarrow> log_entry list \<Rightarrow> int list" where
  "open_deadlines url [] = []"
| "open_deadlines url (Sent tid u t selected # rest) = open_deadlines url rest"
| "open_deadlines url (Got tid u t r # rest) =
     (if u = url \<and> r = Limited \<and> \<not> succeeded_in url rest then [t + COOLDOWN_MS] else [])
     @ open_deadlines url rest"


text \<open>
  Runs with one call at a time: the first call is rate limited on A and served by B, the
  second call, 500 ms later, skips A. In \<open>cooldown_run\<close> both endpoints are then rate
  limited for a third call, and a fourth call waits for the cooldown and is rate limited
  again in its retry.
\<close>

definition rotating_run :: "nat event list" where
  "rotating_run =
     [Begin 0 0 False,
      Answer 50 0 (Inl (Error ''429 Too Many Requests'')),
      Answer 100 0 (Inr 7),
      Begin 600 1 False,
      Answer 650 1 (Inr 8)]"

definition cooldown_run :: "nat event list" where
  "cooldown_run =
     [Begin 0 0 False,
      Answer 50 0 (Inl (Error ''429 Too Many Requests'')),
      Answer 100 0 (Inl (Error ''429 Too Many Requests'')),
      Begin 200 1 False,
      Wake 2150 1,
      Answer 2200 1 (Inl (Error ''429 Too Many Requests''))]"

text \<open>
  The invariant of the runs: every open deadline lies at most \<open>COOLDOWN_MS\<close> ahead of the
  clock and is either past or covered by the health record of its endpoint.
\<close>

definition holds_until :: "health_map \<Rightarrow> string \<Rightarrow> int \<Rightarrow> bool" where
  "holds_until m url d = (case m url of None \<Rightarrow> False | Some h \<Rightarrow> d \<le> disabledUntil h)"

definition covered :: "'a config \<Rightarrow> bool" where
  "covered c =
     (\<forall>url. \<forall>d \<in> set (open_deadlines url (history c)).
        d \<le> clock c + COOLDOWN_MS \<and> (d \<le> clock c \<or> holds_until (health c) url d))"

definition sound :: "'a config \<Rightarrow> bool" where
  "sound c = (guarded_cooldown (history c) \<and> covered c)"










section \<open>Transaction confirmation (ws-confirmation.ts)\<close>

text \<open>
  \<open>getSignatureStatus\<close> answers with \<open>{value: null}\<close> or with a status object, whose
  \<open>err\<close> is \<open>null\<close> or an error object (kept as its JSON text) and whose
  \<open>confirmationStatus\<close> may be absent. The answers of the successive polls are an oracle:
  \<open>poll env n\<close> is what the \<open>n\<close>-th call of \<open>executeWithRotation\<close> yields (a thrown error
  or the status), \<open>poll_latency env n\<close> how long it takes.
\<close>

record sig_status =
  err :: "string option"
  confirmationStatus :: "string option"

record confirm_env =
  poll :: "nat \<Rightarrow> thrown + sig_status option"
  poll_latency :: "nat \<Rightarrow> nat"

text \<open>
  The module state: the set \<open>confirmedSignatures\<close>, the pending \<open>setTimeout\<close> callbacks
  that delete an entry (deadline and signature), the clock, and the number of network
  calls made so far.
\<close>

record confirm_state =
  confirmedSignatures :: "string list"
  timers :: "(int \<times> string) list"
  time :: int
  polls :: nat

record WsConfirmationResult =
  confirmed :: bool
  confirmMode :: string
  durationMs :: int
  wsRotations :: nat
  error :: "string option"

definition isSignatureConfirmed :: "string \<Rightarrow> confirm_state \<Rightarrow> bool" where
  "isSignatureConfirmed signature s = (signature \<in> set (confirmedSignatures s))"

definition markSignatureConfirmed :: "string \<Rightarrow> confirm_state \<Rightarrow> confirm_state" where
  "markSignatureConfirmed signature s =
     s\<lparr>confirmedSignatures := List.insert signature (confirmedSignatures s),
       timers := timers s @ [(time s + 5 * 60 * 1000, signature)]\<rparr>"

text \<open>
  An \<open>await\<close> that lasts \<open>d\<close> ms: the clock advances and the timers that are due run,
  each deleting its signature from the set.
\<close>

definition elapse :: "int \<Rightarrow> confirm_state \<Rightarrow> confirm_state" where
  "elapse d s =
     (let t = time s + d;
          due = map snd (filter (\<lambda>(deadline, sg). deadline \<le> t) (timers s))
      in s\<lparr>time := t,
           confirmedSignatures := filter (\<lambda>sg. sg \<notin> set due) (confirmedSignatures s),
           timers := filter (\<lambda>(deadline, sg). \<not> deadline \<le> t) (timers s)\<rparr>)"

fun show_int :: "int \<Rightarrow> string" where
  "show_int i = (if i < 0 then CHR ''-'' # show_nat (nat (- i)) else show_nat (nat i))"

text \<open>The body of the \<open>try\<close> block of one poll: it returns normally or throws.\<close>

definition poll_outcome :: "string \<Rightarrow> thrown + sig_status option \<Rightarrow> thrown + bool" where
  "poll_outcome commitment r =
     (case r of
        Inl e \<Rightarrow> Inl e
      | Inr None \<Rightarrow> Inr False
      | Inr (Some st) \<Rightarrow>
          (case err st of
             Some j \<Rightarrow> Inl (Error (''Transaction failed: '' @ j))
           | None \<Rightarrow>
               Inr (confirmationStatus st = Some commitment
                    \<or> confirmationStatus st = Some ''finalized''
                    \<or> (commitment = ''confirmed'' \<and> confirmationStatus st = Some ''confirmed''))))"

definition pollInterval :: int where
  "pollInterval = 1000"

text \<open>
  \<open>confirmViaHttpPolling\<close>: the loop \<open>while (Date.now() - startTime < timeoutMs)\<close>. The
  result is \<open>Inr durationMs\<close>, or \<open>Inl message\<close> for the one error the function throws
  itself, after the loop. An error thrown inside the \<open>try\<close> block, by the network call or
  by the \<open>throw\<close> for a failed transaction, is caught by the \<open>catch\<close> of the same block.
\<close>

function confirmViaHttpPolling_loop ::
  "confirm_env \<Rightarrow> string \<Rightarrow> string \<Rightarrow> int \<Rightarrow> int \<Rightarrow> confirm_state \<Rightarrow> (string + int) \<times> confirm_state" where
  "confirmViaHttpPolling_loop env signature commitment timeoutMs startTime s =
     (if time s - startTime < timeoutMs then
        (if isSignatureConfirmed signature s then (Inr (time s - startTime), s)
         else
           (let n = polls s;
                s1 = elapse (int (poll_latency env n)) (s\<lparr>polls := n + 1\<rparr>)
            in case poll_outcome commitment (poll env n) of
                 Inr True \<Rightarrow> (Inr (time s1 - startTime), s1)
               | Inr False \<Rightarrow>
                   confirmViaHttpPolling_loop env signature commitment timeoutMs startTime
                     (elapse pollInterval s1)
               | Inl pollError \<Rightarrow>
                   if is429Error pollError then
                     confirmViaHttpPolling_loop env signature commitment timeoutMs startTime
                       (elapse (pollInterval * 2) s1)
                   else
                     confirmViaHttpPolling_loop env signature commitment timeoutMs startTime
                       (elapse pollInterval s1)))
      else (Inl (''HTTP confirmation timeout after '' @ show_int timeoutMs @ ''ms''), s))"
  by pat_completeness auto
termination
  by (relation "measure (\<lambda>(env, signature, commitment, timeoutMs, startTime, s).
                   nat (startTime + timeoutMs - time s))")
     (auto simp: elapse_def Let_def pollInterval_def)

definition confirmViaHttpPolling ::
  "confirm_env \<Rightarrow> string \<Rightarrow> string \<Rightarrow> int \<Rightarrow> confirm_state \<Rightarrow> (string + int) \<times> confirm_state" where
  "confirmViaHttpPolling env signature commitment timeoutMs s =
     confirmViaHttpPolling_loop env signature commitment timeoutMs (time s) s"

text \<open>
  \<open>confirmTransactionWsFirst\<close>; \<open>httpTimeoutMs\<close> is the option of that name, \<open>None\<close> when
  the caller leaves it out (default 60000).
\<close>

definition confirmTransactionWsFirst ::
  "confirm_env \<Rightarrow> string \<Rightarrow> string \<Rightarrow> int option \<Rightarrow> confirm_state
     \<Rightarrow> WsConfirmationResult \<times> confirm_state" where
  "confirmTransactionWsFirst env signature commitment httpTimeoutMsOpt s =
     (let startTime = time s;
          httpTimeoutMs = (case httpTimeoutMsOpt of None \<Rightarrow> 60000 | Some t \<Rightarrow> t)
      in if isSignatureConfirmed signature s then
           (\<lparr>confirmed = True, confirmMode = ''ws'', durationMs = 0, wsRotations = 0, error = None\<rparr>, s)
         else
           (case confirmViaHttpPolling env signature commitment httpTimeoutMs s of
              (Inr d, s1) \<Rightarrow>
                (\<lparr>confirmed = True, confirmMode = ''http_fallback'', durationMs = d,
                  wsRotations = 0, error = None\<rparr>,
                 markSignatureConfirmed signature s1)
            | (Inl errorMsg, s1) \<Rightarrow>
                (\<lparr>confirmed = False, confirmMode = ''http_fallback'', durationMs = time s1 - startTime,
                  wsRotations = 0, error = Some errorMsg\<rparr>,
                 s1)))"

text \<open>Sample networks for the confirmation loop.\<close>

definition fresh_confirm_state :: confirm_state where
  "fresh_confirm_state = \<lparr>confirmedSignatures = [], timers = [], time = 0, polls = 0\<rparr>"

definition env_landed :: confirm_env where
  "env_landed = \<lparr>poll = (\<lambda>n. Inr (Some \<lparr>err = None, confirmationStatus = Some ''confirmed''\<rparr>)),
                  poll_latency = (\<lambda>n. 300)\<rparr>"

definition env_failed_on_chain :: confirm_env where
  "env_failed_on_chain =
     \<lparr>poll = (\<lambda>n. Inr (Some \<lparr>err = Some ''{\"InstructionError\":[0,\"Custom\"]}'',
                               confirmationStatus = Some ''confirmed''\<rparr>)),
      poll_latency = (\<lambda>n. 300)\<rparr>"

definition env_never_lands :: confirm_env where
  "env_never_lands = \<lparr>poll = (\<lambda>n. Inr None), poll_latency = (\<lambda>n. 300)\<rparr>"

section \<open>Buffers and hex strings\<close>

text \<open>
  A \<open>Buffer\<close> or \<open>Uint8Array\<close> is a list of bytes. \<open>buf_slice data a b\<close> is
  \<open>data.slice(a, b)\<close> for \<open>0 \<le> a \<le> b\<close>: it is cut at the end of the data.
  \<open>replace_first s pat rep\<close> is \<open>s.replace(pat, rep)\<close> for a string pattern: only the first
  occurrence is replaced. \<open>Buffer_from_hex\<close> is \<open>Buffer.from(s, 'hex')\<close>: pairs of hex digits
  are decoded until the first pair that is not two hex digits; a trailing single character
  is dropped.
\<close>

type_synonym byte = "8 word"

definition buf_slice :: "byte list \<Rightarrow> nat \<Rightarrow> nat \<Rightarrow> byte list" where
  "buf_slice data start stop = take (stop - start) (drop start data)"

fun replace_first :: "string \<Rightarrow> string \<Rightarrow> string \<Rightarrow> string" where
  "replace_first [] pat rep = (if pat = [] then rep else [])"
| "replace_first (c # cs) pat rep =
     (if take (length pat) (c # cs) = pat then rep @ drop (length pat) (c # cs)
      else c # replace_first cs pat rep)"

definition hex_val :: "char \<Rightarrow> nat option" where
  "hex_val c =
     (let n = of_char c :: nat
      in if 48 \<le> n \<and> n \<le> 57 then Some (n - 48)
         else if 97 \<le> n \<and> n \<le> 102 then Some (n - 87)
         else if 65 \<le> n \<and> n \<le> 70 then Some (n - 55)
         else None)"

fun Buffer_from_hex :: "string \<Rightarrow> byte list" where
  "Buffer_from_hex (a # b # rest) =
     (case (hex_val a, hex_val b) of
        (Some x, Some y) \<Rightarrow> of_nat (16 * x + y) # Buffer_from_hex rest
      | _ \<Rightarrow> [])"
| "Buffer_from_hex _ = []"

text \<open>
  \<open>buf.readBigUInt64LE(0)\<close>: a \<open>RangeError\<close> when the buffer has fewer than 8 bytes,
  otherwise the little-endian value of its first 8 bytes.
\<close>

definition le_value :: "byte list \<Rightarrow> nat" where
  "le_value bs = foldr (\<lambda>b acc. unat b + 256 * acc) bs 0"

definition readBigUInt64LE :: "byte list \<Rightarrow> thrown + nat" where
  "readBigUInt64LE buf =
     (if length buf < 8 then Inl (Error ''RangeError: Attempt to access memory outside buffer bounds'')
      else Inr (le_value (take 8 buf)))"

section \<open>Root acceptance (protocol-constants.ts, root-acceptance.ts)\<close>

definition CURRENT_ROOT_OFFSET :: nat where "CURRENT_ROOT_OFFSET = 688"
definition ROOT_HISTORY_OFFSET :: nat where "ROOT_HISTORY_OFFSET = 720"
definition ROOT_SIZE :: nat where "ROOT_SIZE = 32"
definition STATE_ROOT_HISTORY_SIZE :: nat where "STATE_ROOT_HISTORY_SIZE = 256"
definition NUM_SHARDS :: nat where "NUM_SHARDS = 20"
definition SHARD_CAPACITY :: nat where "SHARD_CAPACITY = 128"
definition SHARD_ENTRIES_OFFSET :: nat where "SHARD_ENTRIES_OFFSET = 16"
definition ROOT_ENTRY_SIZE :: nat where "ROOT_ENTRY_SIZE = 40"

datatype RootSource = state_history | sharded_ring | legacy_ring | not_found

record RootAcceptanceResult =
  found :: bool
  source :: RootSource
  shardIndex :: "nat option"

record PoolConfig =
  poolId :: string
  programId :: string
  statePda :: string
  vaultPda :: string
  vkPda :: string
  metadataPda :: string
  shardPdas :: "string list"

text \<open>
  The chain as seen through \<open>executeWithRotation\<close>: an account read throws, or yields
  \<open>null\<close> (\<open>None\<close>) or the account's data. \<open>isPublicKey\<close> tells whether \<open>new PublicKey(s)\<close>
  accepts the string (it throws otherwise). Every function returns, next to its result,
  the list of reads it issued.
\<close>

record chain_env =
  isPublicKey :: "string \<Rightarrow> bool"
  getAccountInfo :: "string \<Rightarrow> thrown + byte list option"
  getMultipleAccountsInfo :: "string list \<Rightarrow> thrown + byte list option list"

datatype rpc_request = GetAccountInfo string | GetMultipleAccountsInfo "string list"

definition result_not_found :: RootAcceptanceResult where
  "result_not_found = \<lparr>found = False, source = not_found, shardIndex = None\<rparr>"

definition result_state_history :: RootAcceptanceResult where
  "result_state_history = \<lparr>found = True, source = state_history, shardIndex = None\<rparr>"

definition result_sharded_ring :: "nat \<Rightarrow> RootAcceptanceResult" where
  "result_sharded_ring k = \<lparr>found = True, source = sharded_ring, shardIndex = Some k\<rparr>"

text \<open>The loop over \<open>i = 0 .. STATE_ROOT_HISTORY_SIZE - 1\<close> of \<open>checkStateRootHistory\<close>.\<close>

fun history_scan :: "byte list \<Rightarrow> byte list \<Rightarrow> nat list \<Rightarrow> bool" where
  "history_scan data rootBuffer [] = False"
| "history_scan data rootBuffer (i # rest) =
     (let rootOffset = ROOT_HISTORY_OFFSET + i * ROOT_SIZE;
          historyRoot = buf_slice data rootOffset (rootOffset + ROOT_SIZE)
      in if list_all (\<lambda>b. b = 0) historyRoot then history_scan data rootBuffer rest
         else if historyRoot = rootBuffer then True
         else history_scan data rootBuffer rest)"

text \<open>
  \<open>checkStateRootHistory\<close>: its whole body is inside \<open>try\<close>, and the \<open>catch\<close> answers
  \<open>not_found\<close>.
\<close>

definition checkStateRootHistory ::
  "chain_env \<Rightarrow> PoolConfig \<Rightarrow> byte list \<Rightarrow> RootAcceptanceResult \<times> rpc_request list" where
  "checkStateRootHistory env poolConfig rootBuffer =
     (if \<not> isPublicKey env (statePda poolConfig) then (result_not_found, [])
      else
        (case getAccountInfo env (statePda poolConfig) of
           Inl e \<Rightarrow> (result_not_found, [GetAccountInfo (statePda poolConfig)])
         | Inr None \<Rightarrow> (result_not_found, [GetAccountInfo (statePda poolConfig)])
         | Inr (Some data) \<Rightarrow>
             (if buf_slice data CURRENT_ROOT_OFFSET (CURRENT_ROOT_OFFSET + ROOT_SIZE) = rootBuffer
              then result_state_history
              else if history_scan data rootBuffer [0..<STATE_ROOT_HISTORY_SIZE]
              then result_state_history
              else result_not_found,
              [GetAccountInfo (statePda poolConfig)])))"

text \<open>The loop over the entries of one shard; reading a slot may throw.\<close>

fun entries_scan :: "byte list \<Rightarrow> byte list \<Rightarrow> nat list \<Rightarrow> thrown + bool" where
  "entries_scan data rootBuffer [] = Inr False"
| "entries_scan data rootBuffer (entryIndex # rest) =
     (let entryOffset = SHARD_ENTRIES_OFFSET + entryIndex * ROOT_ENTRY_SIZE;
          entryRoot = buf_slice data entryOffset (entryOffset + ROOT_SIZE);
          slotBytes = buf_slice data (entryOffset + ROOT_SIZE) (entryOffset + ROOT_ENTRY_SIZE)
      in case readBigUInt64LE slotBytes of
           Inl e \<Rightarrow> Inl e
         | Inr slot \<Rightarrow>
             if slot = 0 then entries_scan data rootBuffer rest
             else if entryRoot = rootBuffer then Inr True
             else entries_scan data rootBuffer rest)"

text \<open>The loop over the fetched shard accounts, from index \<open>shardIdx\<close> on.\<close>

fun shards_scan :: "byte list \<Rightarrow> byte list option list \<Rightarrow> nat \<Rightarrow> thrown + nat option" where
  "shards_scan rootBuffer [] shardIdx = Inr None"
| "shards_scan rootBuffer (None # rest) shardIdx = shards_scan rootBuffer rest (shardIdx + 1)"
| "shards_scan rootBuffer (Some data # rest) shardIdx =
     (case entries_scan data rootBuffer [0..<SHARD_CAPACITY] of
        Inl e \<Rightarrow> Inl e
      | Inr True \<Rightarrow> Inr (Some shardIdx)
      | Inr False \<Rightarrow> shards_scan rootBuffer rest (shardIdx + 1))"

text \<open>\<open>checkShardedRootRing\<close> has no \<open>try\<close>: what throws inside it reaches its caller.\<close>

definition checkShardedRootRing ::
  "chain_env \<Rightarrow> PoolConfig \<Rightarrow> byte list \<Rightarrow> (thrown + RootAcceptanceResult) \<times> rpc_request list" where
  "checkShardedRootRing env poolConfig rootBuffer =
     (if shardPdas poolConfig = [] then (Inr result_not_found, [])
      else if \<not> list_all (isPublicKey env) (shardPdas poolConfig)
      then (Inl (Error ''Invalid public key input''), [])
      else
        (case getMultipleAccountsInfo env (shardPdas poolConfig) of
           Inl e \<Rightarrow> (Inl e, [GetMultipleAccountsInfo (shardPdas poolConfig)])
         | Inr shardInfos \<Rightarrow>
             (case shards_scan rootBuffer shardInfos 0 of
                Inl e \<Rightarrow> Inl e
              | Inr (Some k) \<Rightarrow> Inr (result_sharded_ring k)
              | Inr None \<Rightarrow> Inr result_not_found,
              [GetMultipleAccountsInfo (shardPdas poolConfig)])))"

text \<open>
  \<open>isAcceptedRoot\<close> is an async function: \<open>Inr\<close> is the value its promise resolves to,
  \<open>Inl\<close> would be a rejection. \<open>isAcceptedRoot_body\<close> is the content of its \<open>try\<close> block.
\<close>

definition isAcceptedRoot_body ::
  "chain_env \<Rightarrow> PoolConfig \<Rightarrow> string \<Rightarrow> (thrown + RootAcceptanceResult) \<times> rpc_request list" where
  "isAcceptedRoot_body env poolConfig rootHex =
     (let rootClean = replace_first rootHex ''0x'' '''';
          rootBuffer = Buffer_from_hex rootClean
      in if length rootBuffer \<noteq> 32 then (Inr result_not_found, [])
         else
           (case checkStateRootHistory env poolConfig rootBuffer of
              (historyResult, reads1) \<Rightarrow>
                if found historyResult then (Inr historyResult, reads1)
                else
                  (case checkShardedRootRing env poolConfig rootBuffer of
                     (Inl e, reads2) \<Rightarrow> (Inl e, reads1 @ reads2)
                   | (Inr shardedResult, reads2) \<Rightarrow>
                       if found shardedResult then (Inr shardedResult, reads1 @ reads2)
                       else (Inr result_not_found, reads1 @ reads2))))"

definition isAcceptedRoot ::
  "chain_env \<Rightarrow> PoolConfig \<Rightarrow> string \<Rightarrow> (thrown + RootAcceptanceResult) \<times> rpc_request list" where
  "isAcceptedRoot env poolConfig rootHex =
     (case isAcceptedRoot_body env poolConfig rootHex of
        (Inl caught, reads) \<Rightarrow> (Inr result_not_found, reads)
      | (Inr r, reads) \<Rightarrow> (Inr r, reads))"

text \<open>
  What the two tiers hold, read off the account layouts: the root is the current root or
  a non-zero slot of the history array; the root is in an entry of a shard whose sequence
  number is not zero.
\<close>

definition in_state_history :: "byte list \<Rightarrow> byte list \<Rightarrow> bool" where
  "in_state_history data root =
     (buf_slice data 688 720 = root
      \<or> list_ex (\<lambda>i. buf_slice data (720 + 32 * i) (720 + 32 * i + 32) = root
                      \<and> \<not> list_all (\<lambda>b. b = 0) (buf_slice data (720 + 32 * i) (720 + 32 * i + 32)))
           [0..<256])"

definition live_in_shard :: "byte list \<Rightarrow> byte list \<Rightarrow> bool" where
  "live_in_shard data root =
     list_ex (\<lambda>i. buf_slice data (16 + 40 * i) (16 + 40 * i + 32) = root
                   \<and> le_value (buf_slice data (16 + 40 * i + 32) (16 + 40 * i + 40)) \<noteq> 0)
       [0..<128]"

definition holds_root :: "byte list \<Rightarrow> byte list option \<Rightarrow> bool" where
  "holds_root root info = (case info of None \<Rightarrow> False | Some data \<Rightarrow> live_in_shard data root)"

text \<open>A fetched shard account has the size of its layout: 16 + 128 * 40 bytes.\<close>

definition shard_sized :: "byte list option \<Rightarrow> bool" where
  "shard_sized info = (case info of None \<Rightarrow> True | Some data \<Rightarrow> 5136 \<le> length data)"

text \<open>A sample pool: the current root of the state account, one allocated shard with one live entry, and a chain whose reads all fail.\<close>

definition demo_root :: "byte list" where
  "demo_root = replicate 31 0 @ [7]"

definition demo_root_hex :: string where
  "demo_root_hex = ''0x'' @ replicate 62 (CHR ''0'') @ ''07''"

definition demo_root2 :: "byte list" where
  "demo_root2 = replicate 31 0 @ [9]"

definition demo_root2_hex :: string where
  "demo_root2_hex = ''0x'' @ replicate 62 (CHR ''0'') @ ''09''"

definition demo_state_data :: "byte list" where
  "demo_state_data = replicate 688 0 @ demo_root @ replicate 8192 0"

definition demo_shard_data :: "byte list" where
  "demo_shard_data = replicate 16 0 @ demo_root2 @ [1, 0, 0, 0, 0, 0, 0, 0] @ replicate 5080 0"

definition demo_pool :: PoolConfig where
  "demo_pool = \<lparr>poolId = ''pool'', programId = ''program'', statePda = ''state'',
     vaultPda = ''vault'', vkPda = ''vk'', metadataPda = ''metadata'',
     shardPdas = [''shard0'', ''shard1'']\<rparr>"

definition demo_chain :: chain_env where
  "demo_chain = \<lparr>isPublicKey = (\<lambda>s. True),
     getAccountInfo = (\<lambda>key. Inr (Some demo_state_data)),
     getMultipleAccountsInfo = (\<lambda>keys. Inr [None, Some demo_shard_data])\<rparr>"

definition chain_down :: chain_env where
  "chain_down = \<lparr>isPublicKey = (\<lambda>s. True),
     getAccountInfo = (\<lambda>key. Inl (Error ''fetch failed'')),
     getMultipleAccountsInfo = (\<lambda>keys. Inl (Error ''fetch failed''))\<rparr>"

text \<open>The sample chain with a state account that cannot be read; the shards still answer.\<close>

definition state_down :: chain_env where
  "state_down = demo_chain\<lparr>getAccountInfo := (\<lambda>key. Inl (Error ''fetch failed''))\<rparr>"

section \<open>Field codec and proof serialization (sdk/serialization.ts)\<close>

text \<open>
  A \<open>BigInt\<close> is an \<open>int\<close>. \<open>js_rem\<close> is the \<open>%\<close> of JavaScript, whose result has the sign
  of the dividend. \<open>toString16\<close> is \<open>x.toString(16)\<close>, \<open>padStart\<close> is \<open>s.padStart(n, c)\<close> for
  a one-character filler. \<open>parseInt16\<close> is \<open>parseInt(s, 16)\<close>: leading white space, a sign
  and a \<open>0x\<close> prefix are skipped, then the longest run of hex digits is read; \<open>None\<close> is
  \<open>NaN\<close>. \<open>to_uint8\<close> is the conversion done when a number is stored into a
  \<open>Uint8Array\<close>: \<open>NaN\<close> becomes 0, any other value is taken modulo 256.
\<close>

definition js_rem :: "int \<Rightarrow> int \<Rightarrow> int" where
  "js_rem a b = sgn a * (\<bar>a\<bar> mod \<bar>b\<bar>)"

definition toString16 :: "int \<Rightarrow> string" where
  "toString16 x = (if x < 0 then CHR ''-'' # toStringRadix 16 (nat (- x)) else toStringRadix 16 (nat x))"

definition padStart :: "nat \<Rightarrow> char \<Rightarrow> string \<Rightarrow> string" where
  "padStart n c s = replicate (n - length s) c @ s"

definition is_space :: "char \<Rightarrow> bool" where
  "is_space c = (of_char c \<in> {9, 10, 11, 12, 13, 32 :: nat})"

definition hex_digits_value :: "string \<Rightarrow> nat" where
  "hex_digits_value ds = foldl (\<lambda>a c. 16 * a + (case hex_val c of None \<Rightarrow> 0 | Some d \<Rightarrow> d)) 0 ds"

definition parseInt16 :: "string \<Rightarrow> int option" where
  "parseInt16 s =
     (let s0 = dropWhile is_space s;
          negative = (take 1 s0 = ''-'');
          s1 = (if take 1 s0 = ''-'' \<or> take 1 s0 = ''+'' then drop 1 s0 else s0);
          s2 = (if take 2 s1 = ''0x'' \<or> take 2 s1 = ''0X'' then drop 2 s1 else s1);
          ds = takeWhile (\<lambda>c. hex_val c \<noteq> None) s2
      in if ds = [] then None
         else Some ((if negative then - 1 else 1) * int (hex_digits_value ds)))"

definition to_uint8 :: "int option \<Rightarrow> byte" where
  "to_uint8 v = (case v of None \<Rightarrow> 0 | Some i \<Rightarrow> of_int i)"

definition BN254_P :: int where
  "BN254_P = 21888242871839275222246405745257275088696311157297823662689037894645226208583"

text \<open>\<open>toBE32\<close>, on a value that is already a \<open>BigInt\<close>.\<close>

definition toBE32 :: "int \<Rightarrow> thrown + byte list" where
  "toBE32 bigInt =
     (if bigInt \<ge> BN254_P
      then Inl (Error (''Value '' @ show_int bigInt @ '' exceeds field modulus''))
      else
        (let hex = toString16 bigInt
         in if length hex > 64 then Inl (Error ''Value too large for 32 bytes'')
            else
              (let hex64 = padStart 64 (CHR ''0'') hex
               in Inr (map (\<lambda>i. to_uint8 (parseInt16 (take 2 (drop (i * 2) hex64)))) [0..<32]))))"

text \<open>
  \<open>target.set(src, offset)\<close> on typed arrays: a \<open>RangeError\<close> when the source does not
  fit, otherwise the bytes from \<open>offset\<close> on are overwritten. \<open>bind_err\<close> sequences two
  steps of which the first may throw.
\<close>

definition set_at :: "byte list \<Rightarrow> byte list \<Rightarrow> nat \<Rightarrow> thrown + byte list" where
  "set_at target src offset =
     (if offset + length src > length target then Inl (Error ''RangeError: offset is out of bounds'')
      else Inr (take offset target @ src @ drop (offset + length src) target))"

definition bind_err :: "'e + 'a \<Rightarrow> ('a \<Rightarrow> 'e + 'b) \<Rightarrow> 'e + 'b" where
  "bind_err m f = (case m of Inl e \<Rightarrow> Inl e | Inr v \<Rightarrow> f v)"

text \<open>
  A Groth16 proof as snarkjs gives it, each coordinate already converted by \<open>BigInt\<close>:
  \<open>pi_a = [a_x, a_y, ..]\<close>, \<open>pi_b = [[b_x0, b_x1], [b_y0, b_y1], ..]\<close>, \<open>pi_c = [c_x, c_y, ..]\<close>.
\<close>

record Groth16Proof =
  a_x :: int
  a_y :: int
  b_x0 :: int
  b_x1 :: int
  b_y0 :: int
  b_y1 :: int
  c_x :: int
  c_y :: int

definition serializeProof :: "Groth16Proof \<Rightarrow> thrown + byte list" where
  "serializeProof proof =
     (let aX = a_x proof;
          aY = js_rem (js_rem (BN254_P - a_y proof) BN254_P + BN254_P) BN254_P
      in
      bind_err (toBE32 aX) (\<lambda>e0.
      bind_err (set_at (replicate 64 0) e0 0) (\<lambda>proofA0.
      bind_err (toBE32 aY) (\<lambda>e1.
      bind_err (set_at proofA0 e1 32) (\<lambda>proofA.
      bind_err (toBE32 (b_x1 proof)) (\<lambda>e2.
      bind_err (set_at (replicate 128 0) e2 0) (\<lambda>proofB0.
      bind_err (toBE32 (b_x0 proof)) (\<lambda>e3.
      bind_err (set_at proofB0 e3 32) (\<lambda>proofB1.
      bind_err (toBE32 (b_y1 proof)) (\<lambda>e4.
      bind_err (set_at proofB1 e4 64) (\<lambda>proofB2.
      bind_err (toBE32 (b_y0 proof)) (\<lambda>e5.
      bind_err (set_at proofB2 e5 96) (\<lambda>proofB.
      bind_err (toBE32 (c_x proof)) (\<lambda>e6.
      bind_err (set_at (replicate 64 0) e6 0) (\<lambda>proofC0.
      bind_err (toBE32 (c_y proof)) (\<lambda>e7.
      bind_err (set_at proofC0 e7 32) (\<lambda>proofC.
      bind_err (set_at (replicate 256 0) proofA 0) (\<lambda>s0.
      bind_err (set_at s0 proofB 64) (\<lambda>s1.
      set_at s1 proofC 192)))))))))))))))))))"

text \<open>
  The fixed-width big-endian encoding, written as a specification: the last byte is the
  value modulo 256, the bytes before it encode the value divided by 256.
\<close>

fun be_bytes :: "nat \<Rightarrow> nat \<Rightarrow> byte list" where
  "be_bytes 0 n = []"
| "be_bytes (Suc k) n = be_bytes k (n div 256) @ [of_nat (n mod 256)]"

definition be32 :: "int \<Rightarrow> byte list" where
  "be32 x = be_bytes 32 (nat x)"

definition in_field :: "int \<Rightarrow> bool" where
  "in_field x = (0 \<le> x \<and> x < BN254_P)"

text \<open>The same digits, zero padded to a fixed width, most significant first.\<close>

fun hex_digits :: "nat \<Rightarrow> nat \<Rightarrow> string" where
  "hex_digits 0 n = []"
| "hex_digits (Suc k) n = hex_digits k (n div 16) @ [digit_char (n mod 16)]"

text \<open>Every coordinate of the proof is in range.\<close>

definition proof_in_range :: "Groth16Proof \<Rightarrow> bool" where
  "proof_in_range p =
     (in_field (a_x p) \<and> in_field (a_y p) \<and> in_field (b_x0 p) \<and> in_field (b_x1 p)
      \<and> in_field (b_y0 p) \<and> in_field (b_y1 p) \<and> in_field (c_x p) \<and> in_field (c_y p))"

definition demo_proof :: Groth16Proof where
  "demo_proof = \<lparr>a_x = 1, a_y = 2, b_x0 = 3, b_x1 = 4, b_y0 = 5, b_y1 = 6, c_x = 7, c_y = 0\<rparr>"

section \<open>Withdrawal instruction (withdrawal.ts)\<close>

text \<open>
  Public keys are kept as their base58 strings. The library and the missing modules are
  parameters: \<open>pk_valid s\<close> tells whether \<open>new PublicKey(s)\<close> accepts the string,
  \<open>pk_bytes\<close> is \<open>toBuffer()\<close>, \<open>findProgramAddressSync\<close> derives an address from seeds and a
  program id, \<open>sha256\<close> is \<open>crypto.subtle.digest('SHA-256', _)\<close> and \<open>getPoolConfig\<close> is the
  lookup of pool-config.ts, which throws for an unknown pool.
\<close>

record web3_env =
  pk_valid :: "string \<Rightarrow> bool"
  pk_bytes :: "string \<Rightarrow> byte list"
  findProgramAddressSync :: "byte list list \<Rightarrow> string \<Rightarrow> string"
  sha256 :: "byte list \<Rightarrow> byte list"
  getPoolConfig :: "string \<Rightarrow> thrown + PoolConfig"

record AccountMeta =
  pubkey :: string
  isSigner :: bool
  isWritable :: bool

record TransactionInstruction =
  ix_programId :: string
  ix_keys :: "AccountMeta list"
  ix_data :: "byte list"

definition SystemProgram_programId :: string where
  "SystemProgram_programId = ''11111111111111111111111111111111''"

text \<open>\<open>new PublicKey(s)\<close>; \<open>None\<close> stands for \<open>undefined\<close>, an index outside the array.\<close>

definition new_PublicKey :: "web3_env \<Rightarrow> string option \<Rightarrow> thrown + string" where
  "new_PublicKey env s =
     (case s of
        None \<Rightarrow> Inl (Error ''Invalid public key input'')
      | Some k \<Rightarrow> if pk_valid env k then Inr k else Inl (Error ''Invalid public key input''))"

text \<open>\<open>xs[i]\<close> for a number \<open>i\<close>: \<open>undefined\<close> outside the array.\<close>

definition js_index :: "'a list \<Rightarrow> int \<Rightarrow> 'a option" where
  "js_index xs i = (if 0 \<le> i \<and> i < int (length xs) then Some (xs ! nat i) else None)"

text \<open>\<open>new TextEncoder().encode(s)\<close> for a string of ASCII characters.\<close>

definition utf8_encode :: "string \<Rightarrow> byte list" where
  "utf8_encode s = map (\<lambda>c. of_nat (of_char c)) s"

text \<open>
  \<open>computeShardIndex\<close>: \<open>leafIndex % 2560\<close> with the remainder of JavaScript, then
  \<open>Math.floor(_ / 128)\<close>.
\<close>

definition computeShardIndex :: "int \<Rightarrow> int" where
  "computeShardIndex leafIndex =
     (let TOTAL_CAPACITY = 2560;
          SHARD_CAP = 128;
          normalizedIndex = js_rem leafIndex TOTAL_CAPACITY
      in normalizedIndex div SHARD_CAP)"

definition deriveNullifierPda :: "web3_env \<Rightarrow> byte list \<Rightarrow> PoolConfig \<Rightarrow> thrown + string" where
  "deriveNullifierPda env nullifierHash poolConfig =
     bind_err (new_PublicKey env (Some (programId poolConfig))) (\<lambda>programIdKey.
     bind_err (new_PublicKey env (Some (statePda poolConfig))) (\<lambda>stateKey.
     Inr (findProgramAddressSync env
            [utf8_encode ''nullifier'', pk_bytes env stateKey, nullifierHash] programIdKey)))"

text \<open>Little-endian bytes of fixed width; \<open>setBigUint64(0, v, true)\<close> stores \<open>v\<close> modulo \<open>2^64\<close>.\<close>

fun le_bytes :: "nat \<Rightarrow> nat \<Rightarrow> byte list" where
  "le_bytes 0 n = []"
| "le_bytes (Suc k) n = of_nat (n mod 256) # le_bytes k (n div 256)"

definition setBigUint64_LE :: "byte list \<Rightarrow> nat \<Rightarrow> int \<Rightarrow> thrown + byte list" where
  "setBigUint64_LE buffer offset v = set_at buffer (le_bytes 8 (nat (v mod 2 ^ 64))) offset"

text \<open>The part of a note that the builder reads.\<close>

record Note =
  note_poolId :: string
  note_leafIndex :: int

text \<open>The choice of the shard account from \<open>rootResult\<close> (\<open>None\<close> when the caller passes none).\<close>

definition targetShardPda ::
  "web3_env \<Rightarrow> PoolConfig \<Rightarrow> Note \<Rightarrow> RootAcceptanceResult option \<Rightarrow> thrown + string option" where
  "targetShardPda env poolConfig note rootResult =
     (let fallback =
            (let shardIdx = computeShardIndex (note_leafIndex note)
             in bind_err (new_PublicKey env (js_index (shardPdas poolConfig) shardIdx))
                  (\<lambda>key. Inr (Some key)))
      in case rootResult of
           None \<Rightarrow> fallback
         | Some r \<Rightarrow>
             (case shardIndex r of
                Some k \<Rightarrow>
                  if source r = sharded_ring
                  then bind_err (new_PublicKey env (js_index (shardPdas poolConfig) (int k)))
                         (\<lambda>key. Inr (Some key))
                  else if source r = state_history then Inr None
                  else fallback
              | None \<Rightarrow>
                  if source r = state_history then Inr None else fallback))"

definition buildWithdrawInstruction ::
  "web3_env \<Rightarrow> Note \<Rightarrow> string \<Rightarrow> string \<Rightarrow> int \<Rightarrow> byte list \<Rightarrow> byte list \<Rightarrow> byte list
     \<Rightarrow> RootAcceptanceResult option \<Rightarrow> thrown + TransactionInstruction" where
  "buildWithdrawInstruction env note recipient protocol fee proof nullifierHashBytes rootBytes rootResult =
     bind_err (getPoolConfig env (note_poolId note)) (\<lambda>poolConfig.
     bind_err (new_PublicKey env (Some (programId poolConfig))) (\<lambda>programIdKey.
     bind_err (new_PublicKey env (Some (statePda poolConfig))) (\<lambda>stateKey.
     bind_err (new_PublicKey env (Some (vaultPda poolConfig))) (\<lambda>vaultKey.
     bind_err (new_PublicKey env (Some (vkPda poolConfig))) (\<lambda>vkKey.
     bind_err (new_PublicKey env (Some (metadataPda poolConfig))) (\<lambda>metadataKey.
     bind_err (deriveNullifierPda env nullifierHashBytes poolConfig) (\<lambda>nullifierPda.
     (let preimage = ''global:withdraw_v2_clean'';
          encoded = utf8_encode preimage;
          hashBuffer = sha256 env encoded;
          discriminatorBytes = buf_slice hashBuffer 0 8;
          instructionData = replicate (8 + 32 + 4 + 256 + 32 + 8 + 8) (0 :: byte)
      in
      bind_err (set_at instructionData discriminatorBytes 0) (\<lambda>d0.
      bind_err (set_at d0 nullifierHashBytes 8) (\<lambda>d1.
      (let d2 = d1[40 := 0, 41 := 1, 42 := 0, 43 := 0]
       in
       bind_err (set_at d2 proof 44) (\<lambda>d3.
       bind_err (set_at d3 rootBytes 300) (\<lambda>d4.
       bind_err (setBigUint64_LE d4 332 fee) (\<lambda>d5.
       bind_err (setBigUint64_LE d5 340 0) (\<lambda>d6.
       bind_err (targetShardPda env poolConfig note rootResult) (\<lambda>shard.
       (let protocolAccountForTx = protocol;
            keys = [\<lparr>pubkey = stateKey, isSigner = False, isWritable = True\<rparr>,
                    \<lparr>pubkey = vkKey, isSigner = False, isWritable = False\<rparr>,
                    \<lparr>pubkey = nullifierPda, isSigner = False, isWritable = True\<rparr>,
                    \<lparr>pubkey = vaultKey, isSigner = False, isWritable = True\<rparr>,
                    \<lparr>pubkey = recipient, isSigner = False, isWritable = True\<rparr>,
                    \<lparr>pubkey = protocolAccountForTx, isSigner = False, isWritable = True\<rparr>,
                    \<lparr>pubkey = protocol, isSigner = True, isWritable = True\<rparr>,
                    \<lparr>pubkey = SystemProgram_programId, isSigner = False, isWritable = False\<rparr>,
                    \<lparr>pubkey = programIdKey, isSigner = False, isWritable = False\<rparr>,
                    \<lparr>pubkey = metadataKey, isSigner = False, isWritable = False\<rparr>];
            keys1 = (case shard of
                       None \<Rightarrow> keys
                     | Some key \<Rightarrow> keys @ [\<lparr>pubkey = key, isSigner = False, isWritable = False\<rparr>])
        in Inr \<lparr>ix_programId = programIdKey, ix_keys = keys1, ix_data = d6\<rparr>)))))))))))))))))"

text \<open>
  The payload and the fixed part of the account list, written as the layout says: the
  fields one after the other.
\<close>

definition withdraw_discriminator :: "web3_env \<Rightarrow> byte list" where
  "withdraw_discriminator env = take 8 (sha256 env (utf8_encode ''global:withdraw_v2_clean''))"

definition withdraw_payload ::
  "web3_env \<Rightarrow> byte list \<Rightarrow> byte list \<Rightarrow> byte list \<Rightarrow> int \<Rightarrow> byte list" where
  "withdraw_payload env nullifierHashBytes proof rootBytes fee =
     withdraw_discriminator env @ nullifierHashBytes @ le_bytes 4 256 @ proof @ rootBytes
       @ le_bytes 8 (nat fee) @ le_bytes 8 0"

definition fixed_accounts ::
  "web3_env \<Rightarrow> PoolConfig \<Rightarrow> byte list \<Rightarrow> string \<Rightarrow> string \<Rightarrow> AccountMeta list" where
  "fixed_accounts env cfg nullifierHashBytes recipient protocol =
     [\<lparr>pubkey = statePda cfg, isSigner = False, isWritable = True\<rparr>,
      \<lparr>pubkey = vkPda cfg, isSigner = False, isWritable = False\<rparr>,
      \<lparr>pubkey = findProgramAddressSync env
                  [utf8_encode ''nullifier'', pk_bytes env (statePda cfg), nullifierHashBytes]
                  (programId cfg),
       isSigner = False, isWritable = True\<rparr>,
      \<lparr>pubkey = vaultPda cfg, isSigner = False, isWritable = True\<rparr>,
      \<lparr>pubkey = recipient, isSigner = False, isWritable = True\<rparr>,
      \<lparr>pubkey = protocol, isSigner = False, isWritable = True\<rparr>,
      \<lparr>pubkey = protocol, isSigner = True, isWritable = True\<rparr>,
      \<lparr>pubkey = SystemProgram_programId, isSigner = False, isWritable = False\<rparr>,
      \<lparr>pubkey = programId cfg, isSigner = False, isWritable = False\<rparr>,
      \<lparr>pubkey = metadataPda cfg, isSigner = False, isWritable = False\<rparr>]"

definition shard_account :: "PoolConfig \<Rightarrow> nat \<Rightarrow> AccountMeta" where
  "shard_account cfg k = \<lparr>pubkey = shardPdas cfg ! k, isSigner = False, isWritable = False\<rparr>"

text \<open>The pool's own keys are valid and the byte arguments have the sizes of the layout.\<close>

definition withdraw_inputs_ok ::
  "web3_env \<Rightarrow> PoolConfig \<Rightarrow> int \<Rightarrow> byte list \<Rightarrow> byte list \<Rightarrow> byte list \<Rightarrow> bool" where
  "withdraw_inputs_ok env cfg fee proof nullifierHashBytes rootBytes =
     (pk_valid env (programId cfg) \<and> pk_valid env (statePda cfg) \<and> pk_valid env (vaultPda cfg)
      \<and> pk_valid env (vkPda cfg) \<and> pk_valid env (metadataPda cfg)
      \<and> length (sha256 env (utf8_encode ''global:withdraw_v2_clean'')) = 32
      \<and> length nullifierHashBytes = 32 \<and> length proof = 256 \<and> length rootBytes = 32
      \<and> 0 \<le> fee \<and> fee < 2 ^ 64)"

text \<open>A sample environment; its digest is a stand-in with the size of a SHA-256 digest.\<close>

definition demo_web3 :: web3_env where
  "demo_web3 = \<lparr>pk_valid = (\<lambda>s. True), pk_bytes = (\<lambda>s. replicate 32 1),
     findProgramAddressSync = (\<lambda>seeds program. ''nullifierPda''),
     sha256 = (\<lambda>bytes. replicate 32 7),
     getPoolConfig = (\<lambda>pid. if pid = ''pool'' then Inr demo_pool else Inl (Error ''Unknown pool''))\<rparr>"

definition demo_note :: Note where
  "demo_note = \<lparr>note_poolId = ''pool'', note_leafIndex = 133\<rparr>"

section \<open>Withdrawal witness (withdrawal.ts, sdk/poseidon.ts, sdk/serialization.ts)\<close>

unbundle bit_operations_syntax

text \<open>
  \<open>BigInt(s)\<close> for a string: white space around the literal is dropped, the empty string is
  \<open>0n\<close>, a \<open>0x\<close>, \<open>0o\<close> or \<open>0b\<close> prefix selects the radix and takes no sign, a decimal
  literal may carry one sign; anything else is a \<open>SyntaxError\<close>. \<open>digits_acc\<close> reads the
  digits from the left.
\<close>

definition digit_val :: "nat \<Rightarrow> char \<Rightarrow> nat option" where
  "digit_val radix c =
     (case hex_val c of None \<Rightarrow> None | Some d \<Rightarrow> if d < radix then Some d else None)"

fun digits_acc :: "nat \<Rightarrow> nat \<Rightarrow> string \<Rightarrow> nat option" where
  "digits_acc radix a [] = Some a"
| "digits_acc radix a (c # cs) =
     (case digit_val radix c of
        None \<Rightarrow> None
      | Some d \<Rightarrow> digits_acc radix (radix * a + d) cs)"

definition digits_value :: "nat \<Rightarrow> string \<Rightarrow> nat option" where
  "digits_value radix ds = (if ds = [] then None else digits_acc radix 0 ds)"

definition js_trim :: "string \<Rightarrow> string" where
  "js_trim s = rev (dropWhile is_space (rev (dropWhile is_space s)))"

definition BigInt_digits :: "string \<Rightarrow> int \<Rightarrow> nat \<Rightarrow> string \<Rightarrow> thrown + int" where
  "BigInt_digits s sign radix ds =
     (case digits_value radix ds of
        None \<Rightarrow> Inl (Error (''SyntaxError: Cannot convert '' @ s @ '' to a BigInt''))
      | Some n \<Rightarrow> Inr (sign * int n))"

definition BigInt :: "string \<Rightarrow> thrown + int" where
  "BigInt s =
     (let t = js_trim s
      in if t = [] then Inr 0
         else if take 2 t = ''0x'' \<or> take 2 t = ''0X'' then BigInt_digits s 1 16 (drop 2 t)
         else if take 2 t = ''0o'' \<or> take 2 t = ''0O'' then BigInt_digits s 1 8 (drop 2 t)
         else if take 2 t = ''0b'' \<or> take 2 t = ''0B'' then BigInt_digits s 1 2 (drop 2 t)
         else if take 1 t = ''-'' then BigInt_digits s (- 1) 10 (drop 1 t)
         else if take 1 t = ''+'' then BigInt_digits s 1 10 (drop 1 t)
         else BigInt_digits s 1 10 t)"

text \<open>\<open>s.toLowerCase()\<close> for a string of ASCII characters.\<close>

definition toLowerCase :: "string \<Rightarrow> string" where
  "toLowerCase s =
     map (\<lambda>c. if 65 \<le> (of_char c :: nat) \<and> (of_char c :: nat) \<le> 90
              then char_of ((of_char c :: nat) + 32) else c) s"

text \<open>
  \<open>byte_hex b\<close> is \<open>b.toString(16).padStart(2, '0')\<close>; \<open>bytes_hex\<close> joins these for every
  byte of an array, as the loop of \<open>bytesToFieldBE\<close> and the \<open>map\<close> and \<open>join\<close> of
  \<open>buildWithdrawWitness\<close> do.
\<close>

definition byte_hex :: "byte \<Rightarrow> string" where
  "byte_hex b = padStart 2 (CHR ''0'') (toStringRadix 16 (unat b))"

definition bytes_hex :: "byte list \<Rightarrow> string" where
  "bytes_hex bs = concat (map byte_hex bs)"

text \<open>\<open>bytesToFieldBE\<close> on a \<open>Uint8Array\<close>, and \<open>fieldToBytesBE\<close>.\<close>

definition bytesToFieldBE :: "byte list \<Rightarrow> thrown + int" where
  "bytesToFieldBE data =
     (if length data \<noteq> 32
      then Inl (Error (''Expected 32 bytes, got '' @ show_nat (length data)))
      else BigInt (''0x'' @ bytes_hex data))"

definition fieldToBytesBE :: "int \<Rightarrow> byte list" where
  "fieldToBytesBE fieldElement =
     (let hex = padStart 64 (CHR ''0'') (toString16 fieldElement)
      in map (\<lambda>i. to_uint8 (parseInt16 (take 2 (drop (i * 2) hex)))) [0..<32])"

text \<open>
  The Poseidon permutation comes from circomlibjs and is a parameter: \<open>poseidon1 x\<close> is
  \<open>poseidon.F.toObject(poseidon([x]))\<close> and \<open>poseidon2 x y\<close> is
  \<open>poseidon.F.toObject(poseidon([x, y]))\<close>.
\<close>

record poseidon_env =
  poseidon1 :: "int \<Rightarrow> int"
  poseidon2 :: "int \<Rightarrow> int \<Rightarrow> int"

definition poseidonHashSingle :: "poseidon_env \<Rightarrow> byte list \<Rightarrow> thrown + byte list" where
  "poseidonHashSingle env input =
     bind_err (bytesToFieldBE input) (\<lambda>inputField.
     Inr (fieldToBytesBE (poseidon1 env inputField)))"

text \<open>The pair is \<open>{ commitment, nullifierHash }\<close>.\<close>

definition computeCommitmentFromBigInts :: "poseidon_env \<Rightarrow> int \<Rightarrow> int \<Rightarrow> byte list \<times> byte list" where
  "computeCommitmentFromBigInts env nullifierBigInt secretBigInt =
     (fieldToBytesBE (poseidon2 env nullifierBigInt secretBigInt),
      fieldToBytesBE (poseidon1 env nullifierBigInt))"

definition addressToBE32Parts :: "byte list \<Rightarrow> thrown + int \<times> int" where
  "addressToBE32Parts address =
     (if length address \<noteq> 32 then Inl (Error ''Address must be 32 bytes'')
      else
        bind_err (set_at (replicate 32 0) (buf_slice address 0 16) 16) (\<lambda>highBytes.
        bind_err (set_at (replicate 32 0) (buf_slice address 16 32) 16) (\<lambda>lowBytes.
        bind_err (BigInt (''0x'' @ bytes_hex highBytes)) (\<lambda>high.
        bind_err (BigInt (''0x'' @ bytes_hex lowBytes)) (\<lambda>low.
        Inr (high, low))))))"

text \<open>
  The fields of a stored note that \<open>buildWithdrawWitness\<close> reads, added to the two above.
  The stored commitment is read with \<open>?.\<close>, so it may be \<open>undefined\<close> (\<open>None\<close>).
\<close>

record StoredNote = Note +
  note_commitment :: "string option"
  note_nullifierSecret :: string
  note_noteSecret :: string
  note_rootAfter :: string
  note_siblings :: "string list"

record WithdrawWitness =
  w_nullifier :: string
  w_secret :: string
  w_pathElements :: "string list"
  w_pathIndices :: "int list"
  w_root :: string
  w_nullifierHash :: string
  w_recipientHigh :: string
  w_recipientLow :: string
  w_protocolHigh :: string
  w_protocolLow :: string
  w_fee :: string
  w_refund :: string

definition BN254_FIELD_MODULUS :: int where
  "BN254_FIELD_MODULUS = 21888242871839275222246405745257275088548364400416034343698204186575808495617"

text \<open>
  The console: \<open>console_log\<close> keeps the label of the call (the object printed with it is left
  out), \<open>console_error\<close> keeps the message (without the warning sign that opens the
  first one) and the values printed after it.
\<close>

datatype console_line = console_log string | console_error string "string option list"

text \<open>\<open>xs.map(f)\<close> for an \<open>f\<close> that may throw: the first throw ends the call.\<close>

fun map_err :: "('a \<Rightarrow> 'e + 'b) \<Rightarrow> 'a list \<Rightarrow> 'e + 'b list" where
  "map_err f [] = Inr []"
| "map_err f (x # xs) = bind_err (f x) (\<lambda>y. bind_err (map_err f xs) (\<lambda>ys. Inr (y # ys)))"

definition pathElement :: "string \<Rightarrow> thrown + string" where
  "pathElement s =
     (let hex = replace_first s ''0x'' ''''
      in bind_err (BigInt (''0x'' @ hex)) (\<lambda>v.
         Inr (show_int (js_rem v BN254_FIELD_MODULUS))))"

text \<open>
  The loop over the 20 levels: \<open>pathIndices.push(idx & 1); idx >>= 1\<close>. On the integers the
  two operators are those of the two's complement representation.
\<close>

fun pathIndices_loop :: "nat \<Rightarrow> int \<Rightarrow> int list" where
  "pathIndices_loop 0 idx = []"
| "pathIndices_loop (Suc k) idx = (idx AND 1) # pathIndices_loop k (drop_bit 1 idx)"

text \<open>
  \<open>buildWithdrawWitness\<close>. A \<open>PublicKey\<close> is given by its \<open>toBytes()\<close>;
  \<open>PublicKey.default\<close> is 32 zero bytes. The result is the returned witness or the value
  thrown, together with the lines written to the console.
\<close>

definition PublicKey_default :: "byte list" where
  "PublicKey_default = replicate 32 0"

definition buildWithdrawWitness ::
  "poseidon_env \<Rightarrow> StoredNote \<Rightarrow> byte list \<Rightarrow> byte list \<Rightarrow> int \<Rightarrow> int
     \<Rightarrow> (thrown + WithdrawWitness) \<times> console_line list" where
  "buildWithdrawWitness env note recipient protocol fee refund =
     (let log0 = [console_log ''[buildWithdrawWitness] Processing note:'']
      in case BigInt (note_nullifierSecret note) of
           Inl e \<Rightarrow> (Inl e, log0)
         | Inr nullifier \<Rightarrow>
       (case BigInt (note_noteSecret note) of
           Inl e \<Rightarrow> (Inl e, log0)
         | Inr secret \<Rightarrow>
         (let computedCommitmentBytes = fst (computeCommitmentFromBigInts env nullifier secret);
              computedCommitmentHex = ''0x'' @ bytes_hex computedCommitmentBytes;
              storedCommitment = note_commitment note;
              commitmentMatches =
                (Some (toLowerCase computedCommitmentHex) = map_option toLowerCase storedCommitment);
              log1 = log0 @ [console_log ''[buildWithdrawWitness] Commitment verification:''];
              log2 =
                (if \<not> commitmentMatches
                 then log1 @
                   [console_error ''[buildWithdrawWitness] COMMITMENT MISMATCH - This note was likely created before the encoding fix and is UNRECOVERABLE'' [],
                    console_error ''[buildWithdrawWitness] Stored commitment (on-chain):'' [storedCommitment],
                    console_error ''[buildWithdrawWitness] Computed commitment (circuit):'' [Some computedCommitmentHex]]
                 else log1)
          in
          (bind_err (poseidonHashSingle env (fieldToBytesBE nullifier)) (\<lambda>nullifierHashBytes.
           bind_err (bytesToFieldBE nullifierHashBytes) (\<lambda>nullifierHash.
           (let rootHex = replace_first (note_rootAfter note) ''0x'' ''''
            in
            bind_err (if rootHex \<noteq> [] then BigInt (''0x'' @ rootHex) else Inr 0) (\<lambda>rootBigInt.
            bind_err (map_err pathElement (note_siblings note)) (\<lambda>pathElements.
            (let pathIndices = pathIndices_loop 20 (note_leafIndex note)
             in
             bind_err (addressToBE32Parts recipient) (\<lambda>(recipientHigh, recipientLow).
             (let protocolForProof = (if fee = 0 then PublicKey_default else protocol)
              in
              bind_err (addressToBE32Parts protocolForProof) (\<lambda>(protocolHigh, protocolLow).
              Inr \<lparr>w_nullifier = show_int nullifier,
                   w_secret = show_int secret,
                   w_pathElements = pathElements,
                   w_pathIndices = pathIndices,
                   w_root = show_int rootBigInt,
                   w_nullifierHash = show_int nullifierHash,
                   w_recipientHigh = show_int recipientHigh,
                   w_recipientLow = show_int recipientLow,
                   w_protocolHigh = show_int protocolHigh,
                   w_protocolLow = show_int protocolLow,
                   w_fee = show_int fee,
                   w_refund = show_int refund\<rparr>))))))))),
           log2))))"

text \<open>
  What the claims are stated with. \<open>commitment_matches\<close> is the comparison that the
  builder logs; \<open>console_errors\<close> keeps the \<open>console.error\<close> lines; \<open>paths_parse\<close> says
  that the \<open>BigInt\<close> conversions of the note's root and siblings succeed; \<open>be_value\<close> is
  the big-endian value of a byte array.
\<close>

definition computed_commitment_hex :: "poseidon_env \<Rightarrow> int \<Rightarrow> int \<Rightarrow> string" where
  "computed_commitment_hex env n s = ''0x'' @ bytes_hex (fieldToBytesBE (poseidon2 env n s))"

definition commitment_matches :: "poseidon_env \<Rightarrow> int \<Rightarrow> int \<Rightarrow> string option \<Rightarrow> bool" where
  "commitment_matches env n s stored =
     (Some (toLowerCase (computed_commitment_hex env n s)) = map_option toLowerCase stored)"

fun is_console_error :: "console_line \<Rightarrow> bool" where
  "is_console_error (console_error m vs) = True"
| "is_console_error (console_log m) = False"

definition console_errors :: "console_line list \<Rightarrow> console_line list" where
  "console_errors ls = filter is_console_error ls"

definition parses :: "string \<Rightarrow> bool" where
  "parses s = (case BigInt s of Inl e \<Rightarrow> False | Inr v \<Rightarrow> True)"

definition paths_parse :: "StoredNote \<Rightarrow> bool" where
  "paths_parse note =
     ((replace_first (note_rootAfter note) ''0x'' '''' = []
         \<or> parses (''0x'' @ replace_first (note_rootAfter note) ''0x'' ''''))
      \<and> list_all (\<lambda>s. parses (''0x'' @ replace_first s ''0x'' '''')) (note_siblings note))"

definition be_value :: "byte list \<Rightarrow> nat" where
  "be_value bs = foldl (\<lambda>acc b. 256 * acc + unat b) 0 bs"

text \<open>
  A stand-in for the permutation and a note whose stored commitment was corrupted: the
  secrets 5 and 7 give the commitment 12 under the stand-in, the note stores 0.
\<close>

definition toy_poseidon :: poseidon_env where
  "toy_poseidon = \<lparr>poseidon1 = (\<lambda>x. x + 1), poseidon2 = (\<lambda>x y. x + y)\<rparr>"

definition corrupted_note :: StoredNote where
  "corrupted_note =
     \<lparr>note_poolId = ''pool'', note_leafIndex = 5,
      note_commitment = Some (''0x'' @ replicate 64 (CHR ''0'')),
      note_nullifierSecret = ''5'', note_noteSecret = ''7'',
      note_rootAfter = ''0x10'', note_siblings = [''0x02'', ''0x0B'']\<rparr>"

definition sound_note :: StoredNote where
  "sound_note = corrupted_note\<lparr>note_commitment := Some (''0x'' @ replicate 62 (CHR ''0'') @ ''0C'')\<rparr>"

definition demo_recipient :: "byte list" where
  "demo_recipient = replicate 31 0 @ [9]"

definition demo_protocol :: "byte list" where
  "demo_protocol = replicate 15 0 @ [1] @ replicate 15 0 @ [4]"

text \<open>The witness that the builder returns for these inputs and the fee 1000.\<close>

definition toy_witness :: WithdrawWitness where
  "toy_witness =
     \<lparr>w_nullifier = ''5'', w_secret = ''7'', w_pathElements = [''2'', ''11''],
      w_pathIndices = [1, 0, 1, 0, 0, 0, 0, 0, 0, 0, 0, 0, 0, 0, 0, 0, 0, 0, 0, 0],
      w_root = ''16'', w_nullifierHash = ''6'',
      w_recipientHigh = ''0'', w_recipientLow = ''9'',
      w_protocolHigh = ''1'', w_protocolLow = ''4'',
      w_fee = ''1000'', w_refund = ''0''\<rparr>"

section \<open>Batch withdrawal (components/WithdrawBar.tsx)\<close>

text \<open>
  The responses of the protocol service (protocol-client.ts), with the fields that
  \<open>handleWithdraw\<close> reads, and the data prepared for one note.
\<close>

datatype withdraw_status = status_success | status_failed | status_duplicate

record ProtocolWithdrawResponse =
  r_signature :: string
  r_status :: withdraw_status
  r_error :: "string option"

record ProtocolHealthResponse =
  h_status :: string
  h_protocol :: string

record ProtocolSubmissionData =
  sub_poolId :: string
  sub_instruction :: TransactionInstruction

text \<open>
  What the component calls: \<open>key_ok s\<close> tells whether \<open>new PublicKey(s)\<close> accepts the
  string, the other three are the functions of protocol-client.ts and withdrawal.ts, each of
  which returns or throws.
\<close>

record withdraw_env =
  key_ok :: "string \<Rightarrow> bool"
  checkProtocolHealth :: "thrown + ProtocolHealthResponse"
  prepareWithdrawalForProtocol :: "StoredNote \<Rightarrow> string \<Rightarrow> string \<Rightarrow> thrown + ProtocolSubmissionData"
  submitWithdrawalToProtocol :: "string \<Rightarrow> TransactionInstruction \<Rightarrow> thrown + ProtocolWithdrawResponse"

text \<open>
  The state that \<open>handleWithdraw\<close> changes: the React state \<open>error\<close>, \<open>successTxs\<close>,
  \<open>isWithdrawing\<close> and \<open>showProofOverlay\<close>, whether \<open>onClear\<close> was called, the calls of
  \<open>submitWithdrawalToProtocol\<close> in order, and the \<open>console.error\<close> lines (the thrown value
  printed after a message is left out). The progress text, the \<open>console.log\<close> lines and the
  delays between the items are not modelled.
\<close>

record withdraw_ui =
  ui_error :: "string option"
  ui_successTxs :: "string list"
  ui_isWithdrawing :: bool
  ui_showProofOverlay :: bool
  ui_cleared :: bool
  ui_submitted :: "(string \<times> TransactionInstruction) list"
  ui_console :: "console_line list"

definition log_error :: "string \<Rightarrow> string option list \<Rightarrow> withdraw_ui \<Rightarrow> withdraw_ui" where
  "log_error m vs ui = ui\<lparr>ui_console := ui_console ui @ [console_error m vs]\<rparr>"

text \<open>Phase 1: the health check and the address of the protocol; every failure is rethrown as one error.\<close>

definition phase1 :: "withdraw_env \<Rightarrow> withdraw_ui \<Rightarrow> (thrown + string) \<times> withdraw_ui" where
  "phase1 env ui =
     (let caught = (Inl (Error ''Cannot reach service. Please try again later.''),
                    log_error ''[Phase 1] Protocol health check failed:'' [] ui)
      in case checkProtocolHealth env of
           Inl e \<Rightarrow> caught
         | Inr h \<Rightarrow>
             if h_status h \<noteq> ''ok'' then caught
             else if key_ok env (h_protocol h) then (Inr (h_protocol h), ui)
             else caught)"

text \<open>
  Phase 2: the loop that prepares the notes, \<open>i\<close> counting from 0. What
  \<open>prepareWithdrawalForProtocol\<close> throws is logged and thrown again with a new message, which
  ends the loop.
\<close>

fun phase2 ::
  "withdraw_env \<Rightarrow> string \<Rightarrow> string \<Rightarrow> nat \<Rightarrow> StoredNote list \<Rightarrow> ProtocolSubmissionData list
     \<Rightarrow> withdraw_ui \<Rightarrow> (thrown + ProtocolSubmissionData list) \<times> withdraw_ui" where
  "phase2 env recipient protocol i [] preparedSubmissions ui = (Inr preparedSubmissions, ui)"
| "phase2 env recipient protocol i (note # rest) preparedSubmissions ui =
     (case prepareWithdrawalForProtocol env note recipient protocol of
        Inr submission \<Rightarrow>
          phase2 env recipient protocol (i + 1) rest (preparedSubmissions @ [submission]) ui
      | Inl proofErr \<Rightarrow>
          (Inl (Error (''Failed to generate proof for note '' @ show_nat (i + 1) @ '': '' @ errMsg proofErr)),
           log_error (''[Phase 2] Failed to generate proof '' @ show_nat (i + 1) @ '':'') [] ui))"

text \<open>
  Phase 3: the loop that submits the prepared items. A response other than \<open>success\<close> or
  \<open>duplicate\<close>, and anything thrown by the call, is logged and stored with \<open>setError\<close>; the
  loop goes on with the next item.
\<close>

fun phase3 ::
  "withdraw_env \<Rightarrow> nat \<Rightarrow> ProtocolSubmissionData list \<Rightarrow> string list \<Rightarrow> withdraw_ui
     \<Rightarrow> string list \<times> withdraw_ui" where
  "phase3 env i [] txSignatures ui = (txSignatures, ui)"
| "phase3 env i (submission # rest) txSignatures ui =
     (let ui1 = ui\<lparr>ui_submitted :=
                    ui_submitted ui @ [(sub_poolId submission, sub_instruction submission)]\<rparr>
      in case submitWithdrawalToProtocol env (sub_poolId submission) (sub_instruction submission) of
           Inr result \<Rightarrow>
             if r_status result = status_success \<or> r_status result = status_duplicate
             then phase3 env (i + 1) rest (txSignatures @ [r_signature result]) ui1
             else phase3 env (i + 1) rest txSignatures
                    ((log_error (''[Phase 3] Withdrawal '' @ show_nat (i + 1) @ '' failed:'')
                        [r_error result] ui1)
                     \<lparr>ui_error := Some (''Withdrawal '' @ show_nat (i + 1) @ '' failed: '' @
                         (case r_error result of
                            None \<Rightarrow> ''Unknown error''
                          | Some m \<Rightarrow> if m = [] then ''Unknown error'' else m))\<rparr>)
         | Inl submitErr \<Rightarrow>
             phase3 env (i + 1) rest txSignatures
               ((log_error (''[Phase 3] Submit error for withdrawal '' @ show_nat (i + 1) @ '':'') [] ui1)
                \<lparr>ui_error := Some (''Withdrawal '' @ show_nat (i + 1) @ '' submit failed: '' @
                    errMsg submitErr)\<rparr>))"

text \<open>The body of the outer \<open>try\<close>: it ends normally or with a thrown value.\<close>

definition withdraw_body ::
  "withdraw_env \<Rightarrow> string \<Rightarrow> StoredNote list \<Rightarrow> withdraw_ui \<Rightarrow> thrown option \<times> withdraw_ui" where
  "withdraw_body env recipient selectedNotes ui =
     (case phase1 env ui of
        (Inl e, ui1) \<Rightarrow> (Some e, ui1)
      | (Inr protocol, ui1) \<Rightarrow>
          (case phase2 env recipient protocol 0 selectedNotes [] ui1 of
             (Inl e, ui2) \<Rightarrow> (Some e, ui2)
           | (Inr preparedSubmissions, ui2) \<Rightarrow>
               (case phase3 env 0 preparedSubmissions [] ui2 of
                  (txSignatures, ui3) \<Rightarrow>
                    if length txSignatures > 0
                    then (None, ui3\<lparr>ui_successTxs := txSignatures, ui_cleared := True\<rparr>)
                    else (None, ui3\<lparr>ui_error := Some ''All withdrawals failed. Please try again.''\<rparr>))))"

definition handleWithdraw ::
  "withdraw_env \<Rightarrow> string \<Rightarrow> StoredNote list \<Rightarrow> withdraw_ui \<Rightarrow> withdraw_ui" where
  "handleWithdraw env effectiveRecipient selectedNotes ui =
     (if \<not> key_ok env effectiveRecipient then ui\<lparr>ui_error := Some ''Invalid recipient address''\<rparr>
      else
        (let notesWithMissingData =
               filter (\<lambda>n. note_rootAfter n = [] \<or> length (note_siblings n) = 0 \<or> note_leafIndex n < 0)
                 selectedNotes
         in if length notesWithMissingData > 0
            then ui\<lparr>ui_error := Some (show_nat (length notesWithMissingData) @
                   '' note(s) missing Merkle proof data. These notes may have been created before the update. Please deposit new notes.'')\<rparr>
            else
              (let ui0 = ui\<lparr>ui_error := None, ui_isWithdrawing := True, ui_showProofOverlay := True,
                            ui_successTxs := []\<rparr>;
                   ui1 = (case withdraw_body env effectiveRecipient selectedNotes ui0 of
                            (None, u) \<Rightarrow> u
                          | (Some e, u) \<Rightarrow>
                              (log_error ''Withdrawal batch error:'' [] u)
                              \<lparr>ui_error := Some (case e of Error m \<Rightarrow> m | NonError \<Rightarrow> ''Withdrawal failed'')\<rparr>)
               in ui1\<lparr>ui_showProofOverlay := False, ui_isWithdrawing := False\<rparr>)))"

text \<open>
  What the claims are stated with: a note carries the data that the component asks for; a
  response counts as a withdrawal when its status is \<open>success\<close> or \<open>duplicate\<close>;
  \<open>submit_outcomes\<close> are the outcomes of the submissions of the prepared items, taken one by
  one.
\<close>

definition has_merkle_data :: "StoredNote \<Rightarrow> bool" where
  "has_merkle_data n = (note_rootAfter n \<noteq> [] \<and> note_siblings n \<noteq> [] \<and> 0 \<le> note_leafIndex n)"

fun withdrawn :: "thrown + ProtocolWithdrawResponse \<Rightarrow> bool" where
  "withdrawn (Inr r) = (r_status r = status_success \<or> r_status r = status_duplicate)"
| "withdrawn (Inl e) = False"

fun signature_of :: "thrown + ProtocolWithdrawResponse \<Rightarrow> string list" where
  "signature_of (Inr r) =
     (if r_status r = status_success \<or> r_status r = status_duplicate then [r_signature r] else [])"
| "signature_of (Inl e) = []"

definition submit_outcomes ::
  "withdraw_env \<Rightarrow> ProtocolSubmissionData list \<Rightarrow> (thrown + ProtocolWithdrawResponse) list" where
  "submit_outcomes env subs =
     map (\<lambda>s. submitWithdrawalToProtocol env (sub_poolId s) (sub_instruction s)) subs"

definition submission_call :: "ProtocolSubmissionData \<Rightarrow> string \<times> TransactionInstruction" where
  "submission_call s = (sub_poolId s, sub_instruction s)"

text \<open>
  The message that Phase 3 stores with \<open>setError\<close> for the item at index \<open>i\<close>, if its
  submission fails, and the messages of a list of outcomes, in order.
\<close>

fun failure_message :: "nat \<Rightarrow> thrown + ProtocolWithdrawResponse \<Rightarrow> string list" where
  "failure_message i (Inl e) = [''Withdrawal '' @ show_nat (i + 1) @ '' submit failed: '' @ errMsg e]"
| "failure_message i (Inr r) =
     (if r_status r = status_success \<or> r_status r = status_duplicate then []
      else [''Withdrawal '' @ show_nat (i + 1) @ '' failed: '' @
            (case r_error r of None \<Rightarrow> ''Unknown error''
             | Some m \<Rightarrow> if m = [] then ''Unknown error'' else m)])"

fun failure_messages :: "nat \<Rightarrow> (thrown + ProtocolWithdrawResponse) list \<Rightarrow> string list" where
  "failure_messages i [] = []"
| "failure_messages i (out # outs) = failure_message i out @ failure_messages (i + 1) outs"

text \<open>
  Three notes of three pools and a service for them. \<open>demo_submit_fails\<close> prepares every
  note and fails on chain for the second one; \<open>demo_prepare_fails\<close> cannot prepare the
  second note.
\<close>

definition batch_note :: "string \<Rightarrow> StoredNote" where
  "batch_note pool = corrupted_note\<lparr>note_poolId := pool\<rparr>"

definition batch_notes :: "StoredNote list" where
  "batch_notes = [batch_note ''pool-1'', batch_note ''pool-2'', batch_note ''pool-3'']"

definition batch_submission :: "string \<Rightarrow> ProtocolSubmissionData" where
  "batch_submission pool =
     \<lparr>sub_poolId = pool,
      sub_instruction = \<lparr>ix_programId = ''program'', ix_keys = [], ix_data = []\<rparr>\<rparr>"

definition demo_submit_fails :: withdraw_env where
  "demo_submit_fails =
     \<lparr>key_ok = (\<lambda>s. True),
      checkProtocolHealth = Inr \<lparr>h_status = ''ok'', h_protocol = ''protocol-key''\<rparr>,
      prepareWithdrawalForProtocol = (\<lambda>n r p. Inr (batch_submission (note_poolId n))),
      submitWithdrawalToProtocol =
        (\<lambda>pool ix. if pool = ''pool-2''
                    then Inl (Error ''Transaction simulation failed: custom program error: 0x1771'')
                    else Inr \<lparr>r_signature = ''sig-'' @ pool, r_status = status_success, r_error = None\<rparr>)\<rparr>"

definition demo_prepare_fails :: withdraw_env where
  "demo_prepare_fails =
     demo_submit_fails
       \<lparr>prepareWithdrawalForProtocol :=
          (\<lambda>n r p. if note_poolId n = ''pool-2'' then Inl (Error ''Proof generation failed'')
                    else Inr (batch_submission (note_poolId n))),
        submitWithdrawalToProtocol :=
          (\<lambda>pool ix. Inr \<lparr>r_signature = ''sig-'' @ pool, r_status = status_success, r_error = None\<rparr>)\<rparr>"

definition idle_ui :: withdraw_ui where
  "idle_ui =
     \<lparr>ui_error = None, ui_successTxs = [], ui_isWithdrawing = False, ui_showProofOverlay = False,
      ui_cleared = False, ui_submitted = [], ui_console = []\<rparr>"

section \<open>Cooldown window\<close>

lemma markEndpointDisabled_lookup:
  "markEndpointDisabled now m url url =
     Some \<lparr>disabledUntil = now + COOLDOWN_MS,
           failCount = (case m url of None \<Rightarrow> 0 | Some h \<Rightarrow> failCount h) + 1\<rparr>"
  by (simp add: markEndpointDisabled_def Let_def split: option.split)

text \<open>
  C7 (as stated, refuted). The claim says that a second consecutive rate-limit response
  gives a disabled interval longer than the base window. On the code, an endpoint that is
  disabled at time 1000 and again at time 1500 (its second consecutive failure, the
  record still present) is disabled for exactly \<open>COOLDOWN_MS\<close> from the second failure:
  the interval is not longer than the base window, only \<open>failCount\<close> grows.
\<close>

theorem C7_cooldown_not_extended_counterexample:
  "\<not> (disabledFor 1500 (markEndpointDisabled 1500 (markEndpointDisabled 1000 Map.empty ''A'') ''A'') ''A''
        > disabledFor 1000 (markEndpointDisabled 1000 Map.empty ''A'') ''A'')"
  by (simp add: disabledFor_def markEndpointDisabled_lookup COOLDOWN_MS_def)

text \<open>
  C7 (amended). Every rate-limit response, the first or a repeated one, disables the
  endpoint for the same fixed window: after \<open>markEndpointDisabled\<close> at time \<open>now\<close> the
  endpoint is disabled until \<open>now + 2000\<close> whatever record was there before; a repeated
  failure only increments \<open>failCount\<close>.
\<close>

theorem C7_cooldown_fixed_window:
  "disabledFor now (markEndpointDisabled now m url) url = 2000
   \<and> (case markEndpointDisabled now m url url of
        None \<Rightarrow> False
      | Some h \<Rightarrow> disabledUntil h = now + 2000
                 \<and> failCount h = (case m url of None \<Rightarrow> 0 | Some h0 \<Rightarrow> failCount h0) + 1)"
  by (simp add: disabledFor_def markEndpointDisabled_lookup COOLDOWN_MS_def)


section \<open>Properties of the endpoint rotation\<close>

lemma succeeded_in_snoc_sent [simp]:
  "succeeded_in url (xs @ [Sent tid u t sel]) = succeeded_in url xs"
  by (induction url xs rule: succeeded_in.induct) simp_all

lemma succeeded_in_snoc_got [simp]:
  "succeeded_in url (xs @ [Got tid u t r]) = (succeeded_in url xs \<or> (u = url \<and> r = Succeeded))"
  by (induction url xs rule: succeeded_in.induct) auto

lemma selected_before_snoc_got [simp]:
  "selected_before url d (xs @ [Got tid u t r]) = selected_before url d xs"
  by (induction url d xs rule: selected_before.induct) simp_all

lemma selected_before_snoc_sent [simp]:
  "selected_before url d (xs @ [Sent tid u t sel]) =
     (selected_before url d xs \<or> (\<not> succeeded_in url xs \<and> sel \<and> u = url \<and> t < d))"
  by (induction url d xs rule: selected_before.induct) auto

lemma open_deadlines_snoc_sent [simp]:
  "open_deadlines url (xs @ [Sent tid u t sel]) = open_deadlines url xs"
  by (induction url xs rule: open_deadlines.induct) simp_all


lemma guarded_snoc_got [simp]:
  "guarded_cooldown (xs @ [Got tid u t r]) = guarded_cooldown xs"
  by (induction xs rule: guarded_cooldown.induct) simp_all







lemma sound_set_call [simp]: "sound (set_call tid st c) = sound c"
  by (simp add: sound_def covered_def set_call_def)

lemma sound_permits [simp]: "sound (c\<lparr>permits := n\<rparr>) = sound c"
  by (simp add: sound_def covered_def)

lemma sound_finish [simp]: "sound (finish tid res c) = sound c"
  by (simp add: finish_def)



















lemma sent_before_snoc_got [simp]:
  "sent_before url d (xs @ [Got tid u t r]) = sent_before url d xs"
  by (induction url d xs rule: sent_before.induct) simp_all

lemma sent_before_snoc_sent [simp]:
  "sent_before url d (xs @ [Sent tid u t sel]) = (sent_before url d xs \<or> (u = url \<and> t < d))"
  by (induction url d xs rule: sent_before.induct) auto

lemma all_deadlines_snoc_sent [simp]:
  "all_deadlines url (xs @ [Sent tid u t sel]) = all_deadlines url xs"
  by (induction url xs rule: all_deadlines.induct) simp_all


lemma strict_snoc_got [simp]:
  "strict_cooldown (xs @ [Got tid u t r]) = strict_cooldown xs"
  by (induction xs rule: strict_cooldown.induct) simp_all
































lemma rotating_history:
  "history (run [''A'', ''B''] rotating_run (initial 1 0)) =
     [Sent 0 ''A'' 0 True, Got 0 ''A'' 50 Limited,
      Sent 0 ''B'' 50 True, Got 0 ''B'' 100 Succeeded,
      Sent 1 ''B'' 600 True, Got 1 ''B'' 650 Succeeded]"
  by (simp add: rotating_run_def initial_def step_def answer_main_def answer_retry_def
      set_call_def record_entry_def finish_def reply_of_def isEndpointAvailable_def
      markEndpointDisabled_def markEndpointHealthy_def COOLDOWN_MS_def Let_def)

lemma cooldown_history:
  "history (run [''A'', ''B''] cooldown_run (initial 1 0)) =
     [Sent 0 ''A'' 0 True, Got 0 ''A'' 50 Limited,
      Sent 0 ''B'' 50 True, Got 0 ''B'' 100 Limited,
      Sent 1 ''A'' 2150 True, Got 1 ''A'' 2200 Limited]
   \<and> running (run [''A'', ''B''] cooldown_run (initial 1 0)) 1
       = Finished (Inl (FailedAfterCooldownWait ''429 Too Many Requests''))"
  by (simp add: cooldown_run_def initial_def step_def answer_main_def answer_retry_def
      set_call_def record_entry_def finish_def reply_of_def isEndpointAvailable_def
      markEndpointDisabled_def markEndpointHealthy_def COOLDOWN_MS_def Let_def
      getShortestCooldownMs_def)












section \<open>Properties of the confirmation tracker\<close>

lemma poll_loop_timers:
  "confirmViaHttpPolling_loop env sg c timeoutMs startTime s = (r, s') \<Longrightarrow>
   set (timers s') \<subseteq> set (timers s) \<and> time s \<le> time s'"
proof (induction env sg c timeoutMs startTime s rule: confirmViaHttpPolling_loop.induct)
  case (1 env signature commitment timeoutMs startTime s)
  let ?s1 = "elapse (int (poll_latency env (polls s))) (s\<lparr>polls := polls s + 1\<rparr>)"
  have e: "set (timers (elapse d x)) \<subseteq> set (timers x)" for d x
    by (auto simp: elapse_def Let_def)
  have t: "0 \<le> d \<Longrightarrow> time x \<le> time (elapse d x)" for d x
    by (auto simp: elapse_def Let_def)
  have s1: "set (timers ?s1) \<subseteq> set (timers s) \<and> time s \<le> time ?s1"
    by (auto simp: elapse_def Let_def)
  show ?case
  proof (cases "time s - startTime < timeoutMs \<and> \<not> isSignatureConfirmed signature s")
    case False
    with "1.prems" show ?thesis by (auto split: if_splits)
  next
    case True
    show ?thesis
    proof (cases "poll_outcome commitment (poll env (polls s))")
      case (Inr b)
      show ?thesis
      proof (cases b)
        case True
        with \<open>time s - startTime < timeoutMs \<and> \<not> isSignatureConfirmed signature s\<close> Inr "1.prems"
        have "s' = ?s1" by (simp add: Let_def)
        with s1 show ?thesis by simp
      next
        case False
        then have bf: "b = False" by simp
        from False True Inr "1.prems"
        have rec: "confirmViaHttpPolling_loop env signature commitment timeoutMs startTime
                (elapse pollInterval ?s1) = (r, s')" by (simp add: Let_def)
        have "set (timers s') \<subseteq> set (timers (elapse pollInterval ?s1))
              \<and> time (elapse pollInterval ?s1) \<le> time s'"
          using "1.IH"(3)[OF _ _ refl refl Inr bf rec] True by simp
        moreover have "time ?s1 \<le> time (elapse pollInterval ?s1)"
          by (rule t) (simp add: pollInterval_def)
        ultimately show ?thesis using s1 e[of pollInterval ?s1] by auto
      qed
    next
      case (Inl pe)
      show ?thesis
      proof (cases "is429Error pe")
        case lim: True
        with True Inl "1.prems"
        have rec: "confirmViaHttpPolling_loop env signature commitment timeoutMs startTime
                (elapse (pollInterval * 2) ?s1) = (r, s')" by (simp add: Let_def)
        have "set (timers s') \<subseteq> set (timers (elapse (pollInterval * 2) ?s1))
              \<and> time (elapse (pollInterval * 2) ?s1) \<le> time s'"
          using "1.IH"(1)[OF _ _ refl refl Inl lim rec] True by simp
        moreover have "time ?s1 \<le> time (elapse (pollInterval * 2) ?s1)"
          by (rule t) (simp add: pollInterval_def)
        ultimately show ?thesis using s1 e[of "pollInterval * 2" ?s1] by auto
      next
        case nolim: False
        with True Inl "1.prems"
        have rec: "confirmViaHttpPolling_loop env signature commitment timeoutMs startTime
                (elapse pollInterval ?s1) = (r, s')" by (simp add: Let_def)
        have "set (timers s') \<subseteq> set (timers (elapse pollInterval ?s1))
              \<and> time (elapse pollInterval ?s1) \<le> time s'"
          using "1.IH"(2)[OF _ _ refl refl Inl nolim rec] True by simp
        moreover have "time ?s1 \<le> time (elapse pollInterval ?s1)"
          by (rule t) (simp add: pollInterval_def)
        ultimately show ?thesis using s1 e[of pollInterval ?s1] by auto
      qed
    qed
  qed
qed

lemma poll_loop_error_is_timeout:
  "confirmViaHttpPolling_loop env sg c timeoutMs startTime s = (Inl m, s') \<Longrightarrow>
   m = ''HTTP confirmation timeout after '' @ show_int timeoutMs @ ''ms''"
proof (induction env sg c timeoutMs startTime s rule: confirmViaHttpPolling_loop.induct)
  case (1 env signature commitment timeoutMs startTime s)
  let ?s1 = "elapse (int (poll_latency env (polls s))) (s\<lparr>polls := polls s + 1\<rparr>)"
  show ?case
  proof (cases "time s - startTime < timeoutMs \<and> \<not> isSignatureConfirmed signature s")
    case False
    with "1.prems" show ?thesis by (auto split: if_splits)
  next
    case True
    show ?thesis
    proof (cases "poll_outcome commitment (poll env (polls s))")
      case (Inr b)
      show ?thesis
      proof (cases b)
        case True
        with \<open>time s - startTime < timeoutMs \<and> \<not> isSignatureConfirmed signature s\<close> Inr "1.prems"
        show ?thesis by (simp add: Let_def)
      next
        case False
        then have bf: "b = False" by simp
        from False True Inr "1.prems"
        have rec: "confirmViaHttpPolling_loop env signature commitment timeoutMs startTime
                (elapse pollInterval ?s1) = (Inl m, s')" by (simp add: Let_def)
        show ?thesis using "1.IH"(3)[OF _ _ refl refl Inr bf rec] True by simp
      qed
    next
      case (Inl pe)
      show ?thesis
      proof (cases "is429Error pe")
        case lim: True
        with True Inl "1.prems"
        have rec: "confirmViaHttpPolling_loop env signature commitment timeoutMs startTime
                (elapse (pollInterval * 2) ?s1) = (Inl m, s')" by (simp add: Let_def)
        show ?thesis using "1.IH"(1)[OF _ _ refl refl Inl lim rec] True by simp
      next
        case nolim: False
        with True Inl "1.prems"
        have rec: "confirmViaHttpPolling_loop env signature commitment timeoutMs startTime
                (elapse pollInterval ?s1) = (Inl m, s')" by (simp add: Let_def)
        show ?thesis using "1.IH"(2)[OF _ _ refl refl Inl nolim rec] True by simp
      qed
    qed
  qed
qed

lemma confirm_short_circuit:
  "isSignatureConfirmed signature s \<Longrightarrow>
   confirmTransactionWsFirst env signature commitment opt s =
     (\<lparr>confirmed = True, confirmMode = ''ws'', durationMs = 0, wsRotations = 0, error = None\<rparr>, s)"
  by (simp add: confirmTransactionWsFirst_def)

lemma confirm_success_recorded:
  assumes "confirmTransactionWsFirst env signature commitment opt s = (r, s1)" "confirmed r"
  shows "isSignatureConfirmed signature s1"
proof (cases "isSignatureConfirmed signature s")
  case True
  with assms show ?thesis by (simp add: confirmTransactionWsFirst_def)
next
  case False
  with assms show ?thesis
    by (auto simp: confirmTransactionWsFirst_def Let_def markSignatureConfirmed_def
          isSignatureConfirmed_def split: prod.splits sum.splits)
qed

lemma confirm_success_within_ttl:
  assumes "confirmTransactionWsFirst env signature commitment opt s = (r, s1)" "confirmed r"
    "\<not> isSignatureConfirmed signature s" "signature \<notin> snd ` set (timers s)"
    "0 \<le> d" "d < 5 * 60 * 1000"
  shows "isSignatureConfirmed signature (elapse d s1)"
proof -
  let ?t = "case opt of None \<Rightarrow> 60000 | Some t \<Rightarrow> t"
  obtain x s0 where p: "confirmViaHttpPolling env signature commitment ?t s = (x, s0)"
    by (cases "confirmViaHttpPolling env signature commitment ?t s")
  from assms(1,2,3) p obtain dur where "x = Inr dur" and s1: "s1 = markSignatureConfirmed signature s0"
    by (cases x) (auto simp: confirmTransactionWsFirst_def Let_def)
  have "set (timers s0) \<subseteq> set (timers s)"
    using poll_loop_timers[OF p[unfolded confirmViaHttpPolling_def]] by simp
  with assms(4) have no: "signature \<notin> snd ` set (timers s0)" by auto
  show ?thesis
    using no assms(5,6)
    by (auto simp: s1 markSignatureConfirmed_def elapse_def Let_def isSignatureConfirmed_def)
qed

text \<open>
  C8. A confirm call for a signature that is in \<open>confirmedSignatures\<close> returns the
  confirmed result immediately and leaves the state, and so the count of network calls,
  unchanged. A confirm call that succeeds records the signature, so a second confirm
  right after it, whatever the network would answer, is confirmed and polls nothing;
  when the first call had to poll, the entry stays for the 5 minutes of its timer.
\<close>

theorem C8_confirm_idempotent_short_circuit:
  "(isSignatureConfirmed signature s \<longrightarrow>
      confirmTransactionWsFirst env signature commitment opt s =
        (\<lparr>confirmed = True, confirmMode = ''ws'', durationMs = 0, wsRotations = 0, error = None\<rparr>, s))
   \<and> (confirmed (fst (confirmTransactionWsFirst env signature commitment opt s)) \<longrightarrow>
        (let s1 = snd (confirmTransactionWsFirst env signature commitment opt s)
         in isSignatureConfirmed signature s1
            \<and> confirmed (fst (confirmTransactionWsFirst env2 signature commitment2 opt2 s1))
            \<and> polls (snd (confirmTransactionWsFirst env2 signature commitment2 opt2 s1)) = polls s1))
   \<and> (confirmed (fst (confirmTransactionWsFirst env signature commitment opt s))
        \<and> \<not> isSignatureConfirmed signature s \<and> signature \<notin> snd ` set (timers s)
        \<and> 0 \<le> d \<and> d < 5 * 60 * 1000 \<longrightarrow>
        isSignatureConfirmed signature (elapse d (snd (confirmTransactionWsFirst env signature commitment opt s))))"
proof -
  obtain r s1 where c: "confirmTransactionWsFirst env signature commitment opt s = (r, s1)"
    by (cases "confirmTransactionWsFirst env signature commitment opt s")
  show ?thesis
    using confirm_short_circuit[of signature s env commitment opt]
      confirm_success_recorded[OF c]
      confirm_short_circuit[of signature s1 env2 commitment2 opt2]
      confirm_success_within_ttl[OF c, of d]
    by (auto simp: c Let_def)
qed

lemma landed_run:
  "confirmTransactionWsFirst env_landed ''sig'' ''confirmed'' None fresh_confirm_state
   = (\<lparr>confirmed = True, confirmMode = ''http_fallback'', durationMs = 300, wsRotations = 0, error = None\<rparr>,
      \<lparr>confirmedSignatures = [''sig''], timers = [(300300, ''sig'')], time = 300, polls = 1\<rparr>)"
  unfolding confirmTransactionWsFirst_def confirmViaHttpPolling_def
  by (subst confirmViaHttpPolling_loop.simps)
     (simp add: fresh_confirm_state_def isSignatureConfirmed_def env_landed_def poll_outcome_def
        elapse_def markSignatureConfirmed_def Let_def del: confirmViaHttpPolling_loop.simps)

theorem C8_confirm_idempotent_short_circuit_witness:
  "confirmed (fst (confirmTransactionWsFirst env_landed ''sig'' ''confirmed'' None fresh_confirm_state))
   \<and> \<not> isSignatureConfirmed ''sig'' fresh_confirm_state
   \<and> polls (snd (confirmTransactionWsFirst env_landed ''sig'' ''confirmed'' None fresh_confirm_state)) = 1
   \<and> isSignatureConfirmed ''sig'' (snd (confirmTransactionWsFirst env_landed ''sig'' ''confirmed'' None fresh_confirm_state))
   \<and> confirmTransactionWsFirst env_never_lands ''sig'' ''confirmed'' None
         (snd (confirmTransactionWsFirst env_landed ''sig'' ''confirmed'' None fresh_confirm_state))
       = (\<lparr>confirmed = True, confirmMode = ''ws'', durationMs = 0, wsRotations = 0, error = None\<rparr>,
          snd (confirmTransactionWsFirst env_landed ''sig'' ''confirmed'' None fresh_confirm_state))
   \<and> isSignatureConfirmed ''sig''
         (elapse 299999 (snd (confirmTransactionWsFirst env_landed ''sig'' ''confirmed'' None fresh_confirm_state)))"
proof -
  let ?c = "confirmTransactionWsFirst env_landed ''sig'' ''confirmed'' None fresh_confirm_state"
  have h1: "confirmed (fst ?c)" by (simp add: landed_run)
  have h2: "\<not> isSignatureConfirmed ''sig'' fresh_confirm_state"
    by (simp add: isSignatureConfirmed_def fresh_confirm_state_def)
  have h3: "''sig'' \<notin> snd ` set (timers fresh_confirm_state)"
    by (simp add: fresh_confirm_state_def)
  have h4: "polls (snd ?c) = 1" by (simp add: landed_run)
  note t = C8_confirm_idempotent_short_circuit[of "''sig''" fresh_confirm_state env_landed
      "''confirmed''" None env_never_lands "''confirmed''" None 299999]
  have a: "isSignatureConfirmed ''sig'' (snd ?c)"
    using t h1 by (simp add: Let_def)
  from C8_confirm_idempotent_short_circuit[of "''sig''" "snd ?c" env_never_lands "''confirmed''" None] a
  have b: "confirmTransactionWsFirst env_never_lands ''sig'' ''confirmed'' None (snd ?c)
       = (\<lparr>confirmed = True, confirmMode = ''ws'', durationMs = 0, wsRotations = 0, error = None\<rparr>, snd ?c)"
    by blast
  have c: "isSignatureConfirmed ''sig'' (elapse 299999 (snd ?c))"
    using t h1 h2 h3 by simp
  show ?thesis using h1 h2 h4 a b c by blast
qed

lemma failed_step:
  "t - st < tm \<Longrightarrow>
   confirmViaHttpPolling_loop env_failed_on_chain sg ''confirmed'' tm st
     \<lparr>confirmedSignatures = [], timers = [], time = t, polls = n\<rparr>
   = confirmViaHttpPolling_loop env_failed_on_chain sg ''confirmed'' tm st
     \<lparr>confirmedSignatures = [], timers = [], time = t + 1300, polls = n + 1\<rparr>"
  by (subst confirmViaHttpPolling_loop.simps)
     (simp add: isSignatureConfirmed_def env_failed_on_chain_def poll_outcome_def elapse_def
        pollInterval_def Let_def add.commute del: confirmViaHttpPolling_loop.simps)

lemma never_step:
  "t - st < tm \<Longrightarrow>
   confirmViaHttpPolling_loop env_never_lands sg ''confirmed'' tm st
     \<lparr>confirmedSignatures = [], timers = [], time = t, polls = n\<rparr>
   = confirmViaHttpPolling_loop env_never_lands sg ''confirmed'' tm st
     \<lparr>confirmedSignatures = [], timers = [], time = t + 1300, polls = n + 1\<rparr>"
  by (subst confirmViaHttpPolling_loop.simps)
     (simp add: isSignatureConfirmed_def env_never_lands_def poll_outcome_def elapse_def
        pollInterval_def Let_def add.commute del: confirmViaHttpPolling_loop.simps)

lemma loop_stop:
  "\<not> time s0 - st < tm \<Longrightarrow>
   confirmViaHttpPolling_loop env sg c tm st s0
   = (Inl (''HTTP confirmation timeout after '' @ show_int tm @ ''ms''), s0)"
  by (subst confirmViaHttpPolling_loop.simps) (simp del: confirmViaHttpPolling_loop.simps show_int.simps)

lemma show_60000: "show_int 60000 = ''60000''"
  by (simp add: show_nat_def digit_char_def toStringRadix.simps)

lemma failed_run:
  "confirmViaHttpPolling_loop env_failed_on_chain sg ''confirmed'' 60000 0
     \<lparr>confirmedSignatures = [], timers = [], time = 0, polls = 0\<rparr>
   = (Inl ''HTTP confirmation timeout after 60000ms'',
      \<lparr>confirmedSignatures = [], timers = [], time = 61100, polls = 47\<rparr>)"
  by (simp add: failed_step loop_stop show_60000 del: confirmViaHttpPolling_loop.simps show_int.simps)

lemma never_run:
  "confirmViaHttpPolling_loop env_never_lands sg ''confirmed'' 60000 0
     \<lparr>confirmedSignatures = [], timers = [], time = 0, polls = 0\<rparr>
   = (Inl ''HTTP confirmation timeout after 60000ms'',
      \<lparr>confirmedSignatures = [], timers = [], time = 61100, polls = 47\<rparr>)"
  by (simp add: never_step loop_stop show_60000 del: confirmViaHttpPolling_loop.simps show_int.simps)

text \<open>
  C9 (the code at the failing input). The transaction failed on chain: every poll
  reports a status whose \<open>err\<close> is set. The \<open>throw\<close> for it sits inside the \<open>try\<close>
  block of the polling loop and is caught by that block's own \<open>catch\<close>, so polling goes
  on until the timeout: the caller gets the timeout result after 47 polls and 61 seconds,
  the very result it gets for a transaction that never lands. No error that
  \<open>confirmViaHttpPolling\<close> throws ever carries the on-chain failure.
\<close>

theorem C9_on_chain_failure_reported_as_timeout:
  "fst (confirmTransactionWsFirst env_failed_on_chain ''sig'' ''confirmed'' None fresh_confirm_state)
     = \<lparr>confirmed = False, confirmMode = ''http_fallback'', durationMs = 61100, wsRotations = 0,
        error = Some ''HTTP confirmation timeout after 60000ms''\<rparr>
   \<and> polls (snd (confirmTransactionWsFirst env_failed_on_chain ''sig'' ''confirmed'' None fresh_confirm_state)) = 47
   \<and> fst (confirmTransactionWsFirst env_never_lands ''sig'' ''confirmed'' None fresh_confirm_state)
     = fst (confirmTransactionWsFirst env_failed_on_chain ''sig'' ''confirmed'' None fresh_confirm_state)
   \<and> poll_outcome ''confirmed'' (poll env_failed_on_chain 0)
     = Inl (Error ''Transaction failed: {\"InstructionError\":[0,\"Custom\"]}'')"
  by (simp add: confirmTransactionWsFirst_def confirmViaHttpPolling_def fresh_confirm_state_def
        isSignatureConfirmed_def failed_run never_run
        del: confirmViaHttpPolling_loop.simps)
     (simp add: env_failed_on_chain_def poll_outcome_def)

section \<open>Properties of the root acceptance check\<close>

lemma history_scan_iff:
  "history_scan data root idxs =
     list_ex (\<lambda>i. buf_slice data (720 + 32 * i) (720 + 32 * i + 32) = root
                   \<and> \<not> list_all (\<lambda>b. b = 0) (buf_slice data (720 + 32 * i) (720 + 32 * i + 32))) idxs"
  by (induction idxs)
     (auto simp: Let_def ROOT_HISTORY_OFFSET_def ROOT_SIZE_def mult.commute)

lemma checkStateRootHistory_hit:
  assumes "isPublicKey env (statePda cfg)" "getAccountInfo env (statePda cfg) = Inr (Some data)"
  shows "checkStateRootHistory env cfg root =
           (if in_state_history data root then result_state_history else result_not_found,
            [GetAccountInfo (statePda cfg)])"
  using assms
  by (simp add: checkStateRootHistory_def in_state_history_def history_scan_iff
        CURRENT_ROOT_OFFSET_def ROOT_SIZE_def STATE_ROOT_HISTORY_SIZE_def)

lemma slot_readable:
  assumes "16 + 40 * i + 40 \<le> length data"
  shows "readBigUInt64LE (buf_slice data (16 + 40 * i + 32) (16 + 40 * i + 40))
           = Inr (le_value (buf_slice data (16 + 40 * i + 32) (16 + 40 * i + 40)))"
  using assms by (simp add: readBigUInt64LE_def buf_slice_def)

lemma entries_scan_ok:
  "(\<forall>i\<in>set idxs. 16 + 40 * i + 40 \<le> length data) \<Longrightarrow>
   entries_scan data root idxs =
     Inr (list_ex (\<lambda>i. buf_slice data (16 + 40 * i) (16 + 40 * i + 32) = root
                        \<and> le_value (buf_slice data (16 + 40 * i + 32) (16 + 40 * i + 40)) \<noteq> 0) idxs)"
proof (induction idxs)
  case Nil
  then show ?case by simp
next
  case (Cons i idxs)
  have r: "readBigUInt64LE (buf_slice data (16 + i * 40 + 32) (16 + i * 40 + 40))
           = Inr (le_value (buf_slice data (16 + 40 * i + 32) (16 + 40 * i + 40)))"
    using slot_readable[of i data] Cons.prems by (simp add: mult.commute)
  show ?case
    using Cons r
    by (auto simp: Let_def SHARD_ENTRIES_OFFSET_def ROOT_ENTRY_SIZE_def ROOT_SIZE_def mult.commute)
qed

lemma entries_scan_sized:
  assumes "5136 \<le> length data"
  shows "entries_scan data root [0..<SHARD_CAPACITY] = Inr (live_in_shard data root)"
proof -
  have "\<forall>i\<in>set [0..<SHARD_CAPACITY]. 16 + 40 * i + 40 \<le> length data"
    using assms by (auto simp: SHARD_CAPACITY_def)
  from entries_scan_ok[OF this] show ?thesis
    by (simp add: live_in_shard_def SHARD_CAPACITY_def)
qed

lemma shards_scan_first:
  "list_all shard_sized infos \<Longrightarrow> k < length infos \<Longrightarrow> holds_root root (infos ! k) \<Longrightarrow>
   (\<forall>j<k. \<not> holds_root root (infos ! j)) \<Longrightarrow>
   shards_scan root infos n = Inr (Some (n + k))"
proof (induction infos arbitrary: k n)
  case Nil
  then show ?case by simp
next
  case (Cons info infos)
  show ?case
  proof (cases k)
    case 0
    with Cons.prems obtain data where d: "info = Some data" "live_in_shard data root" "5136 \<le> length data"
      by (cases info) (auto simp: holds_root_def shard_sized_def)
    then show ?thesis using 0 by (simp add: entries_scan_sized)
  next
    case (Suc k')
    have a: "list_all shard_sized infos" "k' < length infos" "holds_root root (infos ! k')"
      using Cons.prems Suc by auto
    have b: "\<forall>j<k'. \<not> holds_root root (infos ! j)"
      using Cons.prems(4) Suc by auto
    have c: "\<not> holds_root root info" using Cons.prems(4) Suc by auto
    have rec: "shards_scan root infos (n + 1) = Inr (Some (n + 1 + k'))"
      using Cons.IH[OF a b] .
    show ?thesis
    proof (cases info)
      case None
      with rec Suc show ?thesis by simp
    next
      case (Some data)
      with c Cons.prems(1) have "\<not> live_in_shard data root" "5136 \<le> length data"
        by (auto simp: holds_root_def shard_sized_def)
      with rec Suc Some show ?thesis by (simp add: entries_scan_sized)
    qed
  qed
qed

lemma shards_scan_none:
  "list_all shard_sized infos \<Longrightarrow> \<not> list_ex (holds_root root) infos \<Longrightarrow>
   shards_scan root infos n = Inr None"
proof (induction infos arbitrary: n)
  case Nil
  then show ?case by simp
next
  case (Cons info infos)
  then have rec: "shards_scan root infos (n + 1) = Inr None" by simp
  show ?case
  proof (cases info)
    case None
    with rec show ?thesis by simp
  next
    case (Some data)
    with Cons.prems have "\<not> live_in_shard data root" "5136 \<le> length data"
      by (auto simp: holds_root_def shard_sized_def)
    with rec Some show ?thesis by (simp add: entries_scan_sized)
  qed
qed

text \<open>
  C2. For a root that decodes to 32 bytes and a pool whose state account is read: when
  the root is the current root or a non-zero slot of the history array, the answer is
  \<open>state_history\<close> and the only read issued is the one of the state account, no shard
  account is read. Otherwise, with shard accounts of the layout's size, the answer is
  \<open>sharded_ring\<close> with the index \<open>k\<close> of the shard that holds the root in an entry with a
  non-zero sequence number (the first such shard, should several hold it), and
  \<open>not_found\<close> when no shard holds it or no shard is configured.
\<close>

theorem C2_root_tiers_in_order:
  assumes "rootBuffer = Buffer_from_hex (replace_first rootHex ''0x'' '''')"
    and "length rootBuffer = 32"
    and "isPublicKey env (statePda cfg)"
    and "getAccountInfo env (statePda cfg) = Inr (Some stateData)"
  shows
    "(in_state_history stateData rootBuffer \<longrightarrow>
        isAcceptedRoot env cfg rootHex = (Inr result_state_history, [GetAccountInfo (statePda cfg)]))
     \<and> (\<not> in_state_history stateData rootBuffer \<and> shardPdas cfg = [] \<longrightarrow>
        isAcceptedRoot env cfg rootHex = (Inr result_not_found, [GetAccountInfo (statePda cfg)]))
     \<and> (\<not> in_state_history stateData rootBuffer \<and> shardPdas cfg \<noteq> []
        \<and> list_all (isPublicKey env) (shardPdas cfg)
        \<and> getMultipleAccountsInfo env (shardPdas cfg) = Inr shardInfos
        \<and> list_all shard_sized shardInfos \<longrightarrow>
          (k < length shardInfos \<and> holds_root rootBuffer (shardInfos ! k)
           \<and> (\<forall>j<k. \<not> holds_root rootBuffer (shardInfos ! j)) \<longrightarrow>
             isAcceptedRoot env cfg rootHex =
               (Inr (result_sharded_ring k),
                [GetAccountInfo (statePda cfg), GetMultipleAccountsInfo (shardPdas cfg)]))
          \<and> (\<not> list_ex (holds_root rootBuffer) shardInfos \<longrightarrow>
             isAcceptedRoot env cfg rootHex =
               (Inr result_not_found,
                [GetAccountInfo (statePda cfg), GetMultipleAccountsInfo (shardPdas cfg)])))"
proof -
  note h = checkStateRootHistory_hit[OF assms(3,4), of rootBuffer]
  have a: "in_state_history stateData rootBuffer \<Longrightarrow>
        isAcceptedRoot env cfg rootHex = (Inr result_state_history, [GetAccountInfo (statePda cfg)])"
    using assms(1,2) h
    by (simp add: isAcceptedRoot_def isAcceptedRoot_body_def Let_def result_state_history_def)
  have b: "\<not> in_state_history stateData rootBuffer \<Longrightarrow> shardPdas cfg = [] \<Longrightarrow>
        isAcceptedRoot env cfg rootHex = (Inr result_not_found, [GetAccountInfo (statePda cfg)])"
    using assms(1,2) h
    by (simp add: isAcceptedRoot_def isAcceptedRoot_body_def Let_def result_not_found_def
          checkShardedRootRing_def)
  have c: "isAcceptedRoot env cfg rootHex =
               (Inr (result_sharded_ring k),
                [GetAccountInfo (statePda cfg), GetMultipleAccountsInfo (shardPdas cfg)])"
    if "\<not> in_state_history stateData rootBuffer" "shardPdas cfg \<noteq> []"
       "list_all (isPublicKey env) (shardPdas cfg)"
       "getMultipleAccountsInfo env (shardPdas cfg) = Inr shardInfos"
       "list_all shard_sized shardInfos" "k < length shardInfos"
       "holds_root rootBuffer (shardInfos ! k)" "\<forall>j<k. \<not> holds_root rootBuffer (shardInfos ! j)"
  proof -
    have "shards_scan rootBuffer shardInfos 0 = Inr (Some k)"
      using shards_scan_first[OF that(5,6,7,8), of 0] by simp
    then show ?thesis
      using assms(1,2) h that(1,2,3,4)
      by (simp add: isAcceptedRoot_def isAcceptedRoot_body_def Let_def result_not_found_def
          checkShardedRootRing_def result_sharded_ring_def)
  qed
  have d: "isAcceptedRoot env cfg rootHex =
               (Inr result_not_found,
                [GetAccountInfo (statePda cfg), GetMultipleAccountsInfo (shardPdas cfg)])"
    if "\<not> in_state_history stateData rootBuffer" "shardPdas cfg \<noteq> []"
       "list_all (isPublicKey env) (shardPdas cfg)"
       "getMultipleAccountsInfo env (shardPdas cfg) = Inr shardInfos"
       "list_all shard_sized shardInfos" "\<not> list_ex (holds_root rootBuffer) shardInfos"
  proof -
    have "shards_scan rootBuffer shardInfos 0 = Inr None"
      using shards_scan_none[OF that(5,6)] .
    then show ?thesis
      using assms(1,2) h that(1,2,3,4)
      by (simp add: isAcceptedRoot_def isAcceptedRoot_body_def Let_def result_not_found_def
          checkShardedRootRing_def)
  qed
  show ?thesis using a b c d by blast
qed

lemma hex_val_simps: "hex_val (CHR ''0'') = Some 0" "hex_val (CHR ''7'') = Some 7" "hex_val (CHR ''9'') = Some 9"
  by (simp_all add: hex_val_def)

lemma Buffer_from_hex_zeros:
  "Buffer_from_hex (replicate (2 * n) (CHR ''0'') @ s) = replicate n 0 @ Buffer_from_hex s"
  by (induction n) (simp_all add: hex_val_simps)

lemma demo_root_decoded: "Buffer_from_hex (replace_first demo_root_hex ''0x'' '''') = demo_root"
proof -
  have "replace_first demo_root_hex ''0x'' '''' = replicate (2 * 31) (CHR ''0'') @ ''07''"
    by (simp add: demo_root_hex_def)
  then show ?thesis
    by (simp only: Buffer_from_hex_zeros) (simp add: demo_root_def hex_val_simps)
qed

lemma demo_root2_decoded: "Buffer_from_hex (replace_first demo_root2_hex ''0x'' '''') = demo_root2"
proof -
  have "replace_first demo_root2_hex ''0x'' '''' = replicate (2 * 31) (CHR ''0'') @ ''09''"
    by (simp add: demo_root2_hex_def)
  then show ?thesis
    by (simp only: Buffer_from_hex_zeros) (simp add: demo_root2_def hex_val_simps)
qed

lemma demo_root_in_history: "in_state_history demo_state_data demo_root"
  by (simp add: in_state_history_def buf_slice_def demo_state_data_def demo_root_def)

lemma demo_root2_not_in_history: "\<not> in_state_history demo_state_data demo_root2"
  by (auto simp: in_state_history_def buf_slice_def demo_state_data_def demo_root_def demo_root2_def
        list_ex_iff list_all_iff dest: in_set_takeD)

lemma demo_root2_in_shard: "holds_root demo_root2 (Some demo_shard_data)"
proof -
  have "buf_slice demo_shard_data (16 + 40 * 0) (16 + 40 * 0 + 32) = demo_root2
        \<and> le_value (buf_slice demo_shard_data (16 + 40 * 0 + 32) (16 + 40 * 0 + 40)) \<noteq> 0"
    by (simp add: buf_slice_def demo_shard_data_def demo_root2_def le_value_def)
  moreover have "(0::nat) \<in> set [0..<128]" by simp
  ultimately show ?thesis
    unfolding holds_root_def live_in_shard_def list_ex_iff option.case by blast
qed

theorem C2_root_tiers_in_order_witness:
  "isAcceptedRoot demo_chain demo_pool demo_root_hex
     = (Inr result_state_history, [GetAccountInfo ''state''])
   \<and> isAcceptedRoot demo_chain demo_pool demo_root2_hex
     = (Inr (result_sharded_ring 1),
        [GetAccountInfo ''state'', GetMultipleAccountsInfo [''shard0'', ''shard1'']])"
proof -
  have k: "isPublicKey demo_chain (statePda demo_pool)"
    by (simp add: demo_chain_def)
  have g: "getAccountInfo demo_chain (statePda demo_pool) = Inr (Some demo_state_data)"
    by (simp add: demo_chain_def)
  have l1: "length demo_root = 32" and l2: "length demo_root2 = 32"
    by (simp_all add: demo_root_def demo_root2_def)
  have s: "shardPdas demo_pool \<noteq> []" "list_all (isPublicKey demo_chain) (shardPdas demo_pool)"
    "getMultipleAccountsInfo demo_chain (shardPdas demo_pool) = Inr [None, Some demo_shard_data]"
    "list_all shard_sized [None, Some demo_shard_data]"
    by (simp_all add: demo_pool_def demo_chain_def shard_sized_def demo_shard_data_def demo_root2_def)
  have f: "(1::nat) < length [None, Some demo_shard_data]"
    "holds_root demo_root2 ([None, Some demo_shard_data] ! 1)"
    "\<forall>j<(1::nat). \<not> holds_root demo_root2 ([None, Some demo_shard_data] ! j)"
    using demo_root2_in_shard by (simp_all add: holds_root_def)
  have a: "isAcceptedRoot demo_chain demo_pool demo_root_hex
     = (Inr result_state_history, [GetAccountInfo (statePda demo_pool)])"
    using C2_root_tiers_in_order[OF demo_root_decoded[symmetric] l1 k g] demo_root_in_history
    by blast
  have b: "isAcceptedRoot demo_chain demo_pool demo_root2_hex
     = (Inr (result_sharded_ring 1),
        [GetAccountInfo (statePda demo_pool), GetMultipleAccountsInfo (shardPdas demo_pool)])"
    using C2_root_tiers_in_order[OF demo_root2_decoded[symmetric] l2 k g,
        where shardInfos = "[None, Some demo_shard_data]" and k = 1]
      demo_root2_not_in_history s f
    by blast
  show ?thesis using a b by (simp add: demo_pool_def)
qed

lemma demo_shards_scan:
  "shards_scan demo_root2 [None, Some demo_shard_data] 0 = Inr (Some 1)"
proof -
  have s: "list_all shard_sized [None, Some demo_shard_data]"
    by (simp add: shard_sized_def demo_shard_data_def demo_root2_def)
  have f: "(1::nat) < length [None, Some demo_shard_data]"
    "holds_root demo_root2 ([None, Some demo_shard_data] ! 1)"
    "\<forall>j<(1::nat). \<not> holds_root demo_root2 ([None, Some demo_shard_data] ! j)"
    using demo_root2_in_shard by (simp_all add: holds_root_def)
  from shards_scan_first[OF s f, of 0] show ?thesis by simp
qed

lemma state_down_sharded:
  "checkShardedRootRing state_down demo_pool demo_root2 =
     (Inr (result_sharded_ring 1), [GetMultipleAccountsInfo [''shard0'', ''shard1'']])"
  by (simp add: checkShardedRootRing_def state_down_def demo_chain_def demo_pool_def
      demo_shards_scan del: shards_scan.simps)

text \<open>
  C10, as the specification states it, fails on the code. With \<open>state_down\<close> the read of
  the state account throws. \<open>checkStateRootHistory\<close> catches the error and answers
  \<open>not_found\<close> for its tier only; \<open>isAcceptedRoot\<close> goes on with the shards, finds the
  root in shard 1 and returns \<open>{found: true, source: sharded_ring}\<close>, not \<open>not_found\<close>.
\<close>

theorem C10_state_read_failure_counterexample:
  "getAccountInfo state_down (statePda demo_pool) = Inl (Error ''fetch failed'')
   \<and> isAcceptedRoot state_down demo_pool demo_root2_hex
       = (Inr (result_sharded_ring 1),
          [GetAccountInfo ''state'', GetMultipleAccountsInfo [''shard0'', ''shard1'']])"
proof -
  have g: "getAccountInfo state_down (statePda demo_pool) = Inl (Error ''fetch failed'')"
    by (simp add: state_down_def)
  have h: "checkStateRootHistory state_down demo_pool demo_root2
           = (result_not_found, [GetAccountInfo ''state''])"
    by (simp add: checkStateRootHistory_def state_down_def demo_chain_def demo_pool_def)
  have l: "length demo_root2 = 32" by (simp add: demo_root2_def)
  have "isAcceptedRoot state_down demo_pool demo_root2_hex
       = (Inr (result_sharded_ring 1),
          [GetAccountInfo ''state'', GetMultipleAccountsInfo [''shard0'', ''shard1'']])"
    by (simp add: isAcceptedRoot_def isAcceptedRoot_body_def Let_def demo_root2_decoded l h
        state_down_sharded result_not_found_def result_sharded_ring_def)
  with g show ?thesis by simp
qed

text \<open>
  C10, amended. The promise of \<open>isAcceptedRoot\<close> always resolves, it never rejects. A
  root that does not decode to 32 bytes gives \<open>not_found\<close> without any read; whatever is
  thrown inside the body is turned into \<open>not_found\<close>; a failed read of the shard accounts
  gives \<open>not_found\<close> when the state tier did not find the root; with both reads failing
  the answer is \<open>not_found\<close>. A failed read of the state account is not reported as such:
  it makes the state tier answer \<open>not_found\<close>, the shard tier is still consulted, and the
  call returns what the shard tier finds (\<open>sharded_ring\<close> when a shard holds the root),
  \<open>not_found\<close> only when the shard tier finds nothing or throws.
\<close>

theorem C10_isAcceptedRoot_never_rejects:
  "(\<exists>r reads. isAcceptedRoot env cfg rootHex = (Inr r, reads))
   \<and> (length (Buffer_from_hex (replace_first rootHex ''0x'' '''')) \<noteq> 32 \<longrightarrow>
        isAcceptedRoot env cfg rootHex = (Inr result_not_found, []))
   \<and> (getAccountInfo env (statePda cfg) = Inl e1 \<longrightarrow>
        fst (checkStateRootHistory env cfg rootBuffer) = result_not_found)
   \<and> (isl (fst (isAcceptedRoot_body env cfg rootHex)) \<longrightarrow>
        fst (isAcceptedRoot env cfg rootHex) = Inr result_not_found)
   \<and> (getAccountInfo env (statePda cfg) = Inl e1
        \<and> getMultipleAccountsInfo env (shardPdas cfg) = Inl e2 \<longrightarrow>
        fst (isAcceptedRoot env cfg rootHex) = Inr result_not_found)
   \<and> (getAccountInfo env (statePda cfg) = Inl e1
        \<and> length (Buffer_from_hex (replace_first rootHex ''0x'' '''')) = 32 \<longrightarrow>
        fst (isAcceptedRoot env cfg rootHex) =
          Inr (case fst (checkShardedRootRing env cfg
                           (Buffer_from_hex (replace_first rootHex ''0x'' ''''))) of
                 Inl e \<Rightarrow> result_not_found
               | Inr r \<Rightarrow> if found r then r else result_not_found))
   \<and> (getMultipleAccountsInfo env (shardPdas cfg) = Inl e2
        \<and> \<not> found (fst (checkStateRootHistory env cfg
                            (Buffer_from_hex (replace_first rootHex ''0x'' '''')))) \<longrightarrow>
        fst (isAcceptedRoot env cfg rootHex) = Inr result_not_found)"
proof -
  have 1: "\<exists>r reads. isAcceptedRoot env cfg rootHex = (Inr r, reads)"
    by (cases "isAcceptedRoot_body env cfg rootHex")
       (auto simp: isAcceptedRoot_def split: sum.splits)
  have 2: "length (Buffer_from_hex (replace_first rootHex ''0x'' '''')) \<noteq> 32 \<Longrightarrow>
        isAcceptedRoot env cfg rootHex = (Inr result_not_found, [])"
    by (simp add: isAcceptedRoot_def isAcceptedRoot_body_def Let_def)
  have 3: "getAccountInfo env (statePda cfg) = Inl e1 \<Longrightarrow>
        fst (checkStateRootHistory env cfg rootBuffer) = result_not_found"
    by (simp add: checkStateRootHistory_def)
  have 4: "isl (fst (isAcceptedRoot_body env cfg rootHex)) \<Longrightarrow>
        fst (isAcceptedRoot env cfg rootHex) = Inr result_not_found"
    by (cases "isAcceptedRoot_body env cfg rootHex")
       (auto simp: isAcceptedRoot_def split: sum.splits)
  have 5: "fst (isAcceptedRoot env cfg rootHex) = Inr result_not_found"
    if "getAccountInfo env (statePda cfg) = Inl e1"
       "getMultipleAccountsInfo env (shardPdas cfg) = Inl e2"
    using that
    by (auto simp: isAcceptedRoot_def isAcceptedRoot_body_def Let_def checkStateRootHistory_def
          checkShardedRootRing_def result_not_found_def split: sum.splits prod.splits)
  have 6: "fst (isAcceptedRoot env cfg rootHex) =
          Inr (case fst (checkShardedRootRing env cfg
                           (Buffer_from_hex (replace_first rootHex ''0x'' ''''))) of
                 Inl e \<Rightarrow> result_not_found
               | Inr r \<Rightarrow> if found r then r else result_not_found)"
    if "getAccountInfo env (statePda cfg) = Inl e1"
       "length (Buffer_from_hex (replace_first rootHex ''0x'' '''')) = 32"
    using that
    by (auto simp: isAcceptedRoot_def isAcceptedRoot_body_def Let_def checkStateRootHistory_def
          result_not_found_def split: sum.splits prod.splits)
  have 7: "fst (isAcceptedRoot env cfg rootHex) = Inr result_not_found"
    if "getMultipleAccountsInfo env (shardPdas cfg) = Inl e2"
       "\<not> found (fst (checkStateRootHistory env cfg
                         (Buffer_from_hex (replace_first rootHex ''0x'' ''''))))"
    using that
    by (auto simp: isAcceptedRoot_def isAcceptedRoot_body_def Let_def
          checkShardedRootRing_def result_not_found_def split: sum.splits prod.splits)
  show ?thesis using 1 2 3 4 5 6 7 by blast
qed

theorem C10_isAcceptedRoot_never_rejects_witness:
  "length (Buffer_from_hex (replace_first ''0x1234'' ''0x'' '''')) \<noteq> 32
   \<and> isAcceptedRoot chain_down demo_pool ''0x1234'' = (Inr result_not_found, [])
   \<and> getAccountInfo chain_down (statePda demo_pool) = Inl (Error ''fetch failed'')
   \<and> getMultipleAccountsInfo chain_down (shardPdas demo_pool) = Inl (Error ''fetch failed'')
   \<and> isl (fst (isAcceptedRoot_body chain_down demo_pool demo_root_hex))
   \<and> fst (isAcceptedRoot chain_down demo_pool demo_root_hex) = Inr result_not_found
   \<and> getAccountInfo state_down (statePda demo_pool) = Inl (Error ''fetch failed'')
   \<and> length (Buffer_from_hex (replace_first demo_root2_hex ''0x'' '''')) = 32
   \<and> fst (isAcceptedRoot state_down demo_pool demo_root2_hex) = Inr (result_sharded_ring 1)
   \<and> \<not> found (fst (checkStateRootHistory chain_down demo_pool
                       (Buffer_from_hex (replace_first demo_root_hex ''0x'' ''''))))"
proof -
  have h1: "length (Buffer_from_hex (replace_first ''0x1234'' ''0x'' '''')) \<noteq> 32"
    by (simp add: hex_val_def)
  have h2: "getAccountInfo chain_down (statePda demo_pool) = Inl (Error ''fetch failed'')"
    "getMultipleAccountsInfo chain_down (shardPdas demo_pool) = Inl (Error ''fetch failed'')"
    by (simp_all add: chain_down_def)
  have h3: "isl (fst (isAcceptedRoot_body chain_down demo_pool demo_root_hex))"
    by (simp add: isAcceptedRoot_body_def Let_def demo_root_decoded demo_root_def
          checkStateRootHistory_def checkShardedRootRing_def chain_down_def demo_pool_def
          result_not_found_def)
  have h4: "getAccountInfo state_down (statePda demo_pool) = Inl (Error ''fetch failed'')"
    by (simp add: state_down_def)
  have h5: "length (Buffer_from_hex (replace_first demo_root2_hex ''0x'' '''')) = 32"
    by (simp add: demo_root2_decoded demo_root2_def)
  have h6: "\<not> found (fst (checkStateRootHistory chain_down demo_pool
                       (Buffer_from_hex (replace_first demo_root_hex ''0x'' ''''))))"
    by (simp add: checkStateRootHistory_def chain_down_def result_not_found_def)
  have a: "isAcceptedRoot chain_down demo_pool ''0x1234'' = (Inr result_not_found, [])"
    using C10_isAcceptedRoot_never_rejects[of chain_down demo_pool "''0x1234''"] h1 by blast
  have b: "fst (isAcceptedRoot chain_down demo_pool demo_root_hex) = Inr result_not_found"
    using C10_isAcceptedRoot_never_rejects[of chain_down demo_pool demo_root_hex
        "Error ''fetch failed''" demo_root "Error ''fetch failed''"] h2 h6 by blast
  have "fst (isAcceptedRoot state_down demo_pool demo_root2_hex) =
          Inr (case fst (checkShardedRootRing state_down demo_pool
                           (Buffer_from_hex (replace_first demo_root2_hex ''0x'' ''''))) of
                 Inl e \<Rightarrow> result_not_found
               | Inr r \<Rightarrow> if found r then r else result_not_found)"
    using C10_isAcceptedRoot_never_rejects[of state_down demo_pool demo_root2_hex
        "Error ''fetch failed''" demo_root2 "Error ''fetch failed''"] h4 h5 by blast
  then have c: "fst (isAcceptedRoot state_down demo_pool demo_root2_hex) = Inr (result_sharded_ring 1)"
    by (simp add: demo_root2_decoded state_down_sharded result_sharded_ring_def)
  show ?thesis using h1 h2 h3 h4 h5 h6 a b c by blast
qed

section \<open>Properties of the field codec\<close>

lemma upt_16: "[0..<16] = [0, 1, 2, 3, 4, 5, 6, 7, 8, 9, 10, 11, 12, 13, 14, 15 :: nat]"
  by code_simp

lemma digit_cases:
  assumes "d < 16"
  obtains "d = 0" | "d = 1" | "d = 2" | "d = 3" | "d = 4" | "d = 5" | "d = 6" | "d = 7"
    | "d = 8" | "d = 9" | "d = 10" | "d = 11" | "d = 12" | "d = 13" | "d = 14" | "d = (15::nat)"
proof -
  from assms have "d \<in> set [0..<16]" by simp
  then have "d \<in> set [0, 1, 2, 3, 4, 5, 6, 7, 8, 9, 10, 11, 12, 13, 14, 15 :: nat]"
    by (simp only: upt_16)
  then show ?thesis using that by auto
qed

lemma hex_val_digit_char: "d < 16 \<Longrightarrow> hex_val (digit_char d) = Some d"
  by (erule digit_cases) (simp_all add: digit_char_def hex_val_def)

lemma digit_char_plain:
  "d < 16 \<Longrightarrow> \<not> is_space (digit_char d) \<and> digit_char d \<noteq> CHR ''-'' \<and> digit_char d \<noteq> CHR ''+''
     \<and> digit_char d \<noteq> CHR ''x'' \<and> digit_char d \<noteq> CHR ''X''"
  by (erule digit_cases) (simp_all add: digit_char_def is_space_def)

lemma parseInt16_pair:
  assumes "a < 16" "b < 16"
  shows "parseInt16 [digit_char a, digit_char b] = Some (int (16 * a + b))"
  using digit_char_plain[OF assms(1)] digit_char_plain[OF assms(2)]
    hex_val_digit_char[OF assms(1)] hex_val_digit_char[OF assms(2)]
  by (simp add: parseInt16_def Let_def hex_digits_value_def)

lemma length_hex_digits [simp]: "length (hex_digits k n) = k"
  by (induction k arbitrary: n) simp_all

lemma hex_digits_zero: "hex_digits k 0 = replicate k (CHR ''0'')"
  by (induction k) (simp_all add: digit_char_def replicate_append_same)

lemma hex_digits_small: "n < 16 \<Longrightarrow> hex_digits (Suc k) n = replicate k (CHR ''0'') @ [digit_char n]"
  by (simp add: hex_digits_zero)

lemma toStringRadix16_length: "n < 16 ^ Suc k \<Longrightarrow> length (toStringRadix 16 n) \<le> Suc k"
proof (induction k arbitrary: n)
  case 0
  then show ?case by (subst toStringRadix.simps) (simp del: toStringRadix.simps)
next
  case (Suc k)
  show ?case
  proof (cases "n < 16")
    case True
    then show ?thesis by (subst toStringRadix.simps) (simp del: toStringRadix.simps)
  next
    case False
    have "n div 16 < 16 ^ Suc k" using Suc.prems by (simp add: less_mult_imp_div_less)
    from Suc.IH[OF this] False show ?thesis by (subst toStringRadix.simps) (simp del: toStringRadix.simps)
  qed
qed

lemma padStart_toStringRadix16:
  "n < 16 ^ Suc k \<Longrightarrow> padStart (Suc k) (CHR ''0'') (toStringRadix 16 n) = hex_digits (Suc k) n"
proof (induction k arbitrary: n)
  case 0
  then show ?case by (subst toStringRadix.simps) (simp add: padStart_def del: toStringRadix.simps)
next
  case (Suc k)
  show ?case
  proof (cases "n < 16")
    case True
    then show ?thesis
      by (subst toStringRadix.simps) (simp add: padStart_def hex_digits_zero replicate_append_same del: toStringRadix.simps)
  next
    case False
    have lt: "n div 16 < 16 ^ Suc k" using Suc.prems by (simp add: less_mult_imp_div_less)
    have "padStart (Suc (Suc k)) (CHR ''0'') (toStringRadix 16 (n div 16) @ [digit_char (n mod 16)])
          = padStart (Suc k) (CHR ''0'') (toStringRadix 16 (n div 16)) @ [digit_char (n mod 16)]"
      by (simp add: padStart_def)
    with Suc.IH[OF lt] False show ?thesis
      by (subst toStringRadix.simps) (simp del: toStringRadix.simps)
  qed
qed

lemma hex_digits_pairs:
  "map (\<lambda>i. to_uint8 (parseInt16 (take 2 (drop (i * 2) (hex_digits (2 * m) n))))) [0..<m]
   = be_bytes m n"
proof (induction m arbitrary: n)
  case 0
  then show ?case by simp
next
  case (Suc m)
  let ?s = "hex_digits (2 * m) (n div 256)"
  let ?c1 = "digit_char (n div 16 mod 16)" and ?c2 = "digit_char (n mod 16)"
  have "n div 256 = n div (16 * 16)" by simp
  also have "\<dots> = n div 16 div 16" by (rule div_mult2_eq)
  finally have dd: "n div 16 div 16 = n div 256" by simp
  have hd: "hex_digits (2 * Suc m) n = ?s @ [?c1, ?c2]"
    by (simp add: dd)
  have old: "take 2 (drop (i * 2) (?s @ [?c1, ?c2])) = take 2 (drop (i * 2) ?s)" if "i < m" for i
    using that by simp
  have new: "take 2 (drop (m * 2) (?s @ [?c1, ?c2])) = [?c1, ?c2]"
    by simp
  have byte: "to_uint8 (parseInt16 [?c1, ?c2]) = of_nat (n mod 256)"
  proof -
    have "16 * (n div 16 mod 16) + n mod 16 = n mod 256"
      using mod_mult2_eq[of n 16 16] by simp
    then show ?thesis
      by (simp add: parseInt16_pair to_uint8_def del: of_nat_add of_nat_mult)
  qed
  define F where "F = (\<lambda>i. to_uint8 (parseInt16 (take 2 (drop (i * 2) (?s @ [?c1, ?c2])))))"
  have "map F [0..<m] = map (\<lambda>i. to_uint8 (parseInt16 (take 2 (drop (i * 2) ?s)))) [0..<m]"
    unfolding F_def using old by (intro map_cong) auto
  then have 1: "map F [0..<m] = be_bytes m (n div 256)"
    using Suc.IH[of "n div 256"] by simp
  have 2: "F m = of_nat (n mod 256)"
    unfolding F_def new using byte .
  have "map (\<lambda>i. to_uint8 (parseInt16 (take 2 (drop (i * 2) (hex_digits (2 * Suc m) n))))) [0..<Suc m]
        = map F [0..<Suc m]"
    unfolding F_def hd ..
  also have "\<dots> = map F [0..<m] @ [F m]" by simp
  also have "\<dots> = be_bytes (Suc m) n" using 1 2 by simp
  finally show ?case .
qed

lemma BN254_P_lt: "BN254_P < 16 ^ 64"
  by (simp add: BN254_P_def)

lemma toBE32_in_field:
  assumes "in_field x"
  shows "toBE32 x = Inr (be32 x)"
proof -
  from assms have x: "0 \<le> x" "x < BN254_P" by (simp_all add: in_field_def)
  then have n: "nat x < 16 ^ Suc 63" using BN254_P_lt by (simp add: nat_less_iff)
  have ts: "toString16 x = toStringRadix 16 (nat x)" using x by (simp add: toString16_def)
  have len: "\<not> length (toString16 x) > 64"
    using toStringRadix16_length[OF n] ts by simp
  have pad: "padStart 64 (CHR ''0'') (toString16 x) = hex_digits (2 * 32) (nat x)"
    using padStart_toStringRadix16[OF n] ts by simp
  have bytes: "map (\<lambda>i. to_uint8 (parseInt16 (take 2 (drop (i * 2) (hex_digits (2 * 32) (nat x))))))
          [0..<32] = be_bytes 32 (nat x)"
    by (rule hex_digits_pairs)
  show ?thesis
    using x len
    by (simp only: toBE32_def Let_def pad bytes be32_def) simp
qed

lemma length_be_bytes [simp]: "length (be_bytes k n) = k"
  by (induction k arbitrary: n) simp_all

lemma length_be32 [simp]: "length (be32 x) = 32"
  by (simp add: be32_def del: be_bytes.simps)

lemma negate_in_field:
  assumes "in_field y"
  shows "js_rem (js_rem (BN254_P - y) BN254_P + BN254_P) BN254_P = (- y) mod BN254_P"
    and "in_field ((- y) mod BN254_P)"
proof -
  have p: "0 < BN254_P" by (simp add: BN254_P_def)
  from assms have y: "0 \<le> y" "y < BN254_P" by (simp_all add: in_field_def)
  have a: "js_rem (BN254_P - y) BN254_P = (BN254_P - y) mod BN254_P"
    using y p by (simp add: js_rem_def sgn_if)
  have b: "0 \<le> (BN254_P - y) mod BN254_P" using p by simp
  have b': "0 < (BN254_P - y) mod BN254_P + BN254_P" using b p by linarith
  have c: "js_rem ((BN254_P - y) mod BN254_P + BN254_P) BN254_P
           = ((BN254_P - y) mod BN254_P + BN254_P) mod BN254_P"
    using b' p unfolding js_rem_def by (simp only: sgn_if abs_of_pos) simp
  have d: "((BN254_P - y) mod BN254_P + BN254_P) mod BN254_P = (- y) mod BN254_P"
    by (metis add.commute diff_conv_add_uminus mod_add_self1 mod_add_self2 mod_mod_trivial uminus_add_conv_diff)
  show "js_rem (js_rem (BN254_P - y) BN254_P + BN254_P) BN254_P = (- y) mod BN254_P"
    using a c d by simp
  show "in_field ((- y) mod BN254_P)"
    using pos_mod_sign[OF p, of "- y"] pos_mod_bound[OF p, of "- y"] by (simp add: in_field_def)
qed

lemma point_pair:
  assumes "length u = 32" "length v = 32"
  shows "bind_err (set_at (replicate 64 0) u 0) (\<lambda>t. bind_err (set_at t v 32) f) = f (u @ v)"
  using assms by (simp add: set_at_def bind_err_def)

lemma point_quad:
  assumes "length u = 32" "length v = 32" "length w = 32" "length x = 32"
  shows "bind_err (set_at (replicate 128 0) u 0) (\<lambda>t0.
         bind_err (set_at t0 v 32) (\<lambda>t1.
         bind_err (set_at t1 w 64) (\<lambda>t2.
         bind_err (set_at t2 x 96) f)))
         = f (u @ v @ w @ x)"
  using assms by (simp add: set_at_def bind_err_def)

lemma assemble:
  assumes "length a = 64" "length b = 128" "length c = 64"
  shows "bind_err (set_at (replicate 256 0) a 0) (\<lambda>s0. bind_err (set_at s0 b 64) (\<lambda>s1. set_at s1 c 192))
         = Inr (a @ b @ c)"
  using assms by (simp add: set_at_def bind_err_def)

lemma bind_Inr: "bind_err (Inr v) f = f v"
  by (simp add: bind_err_def)

text \<open>
  C3. For a proof whose coordinates are all in \<open>[0, p)\<close>, \<open>serializeProof\<close> returns the
  256 bytes \<open>A @ B @ C\<close>: \<open>A\<close> (64 bytes) is the big-endian encoding of \<open>a_x\<close> followed
  by that of the negated \<open>a_y\<close>, computed with the double modulo and equal to \<open>- a_y mod p\<close>;
  \<open>B\<close> (128 bytes) holds the two pairs with the limbs swapped, \<open>b_x1, b_x0, b_y1, b_y0\<close>;
  \<open>C\<close> (64 bytes) is \<open>c_x, c_y\<close>.
\<close>

theorem C3_serializeProof_layout:
  assumes "proof_in_range p"
  shows "(let aY = js_rem (js_rem (BN254_P - a_y p) BN254_P + BN254_P) BN254_P;
              A = be32 (a_x p) @ be32 aY;
              B = be32 (b_x1 p) @ be32 (b_x0 p) @ be32 (b_y1 p) @ be32 (b_y0 p);
              C = be32 (c_x p) @ be32 (c_y p)
          in serializeProof p = Inr (A @ B @ C)
             \<and> length A = 64 \<and> length B = 128 \<and> length C = 64 \<and> length (A @ B @ C) = 256
             \<and> aY = (- a_y p) mod BN254_P \<and> in_field aY)"
proof -
  from assms have r: "in_field (a_x p)" "in_field (a_y p)" "in_field (b_x0 p)" "in_field (b_x1 p)"
    "in_field (b_y0 p)" "in_field (b_y1 p)" "in_field (c_x p)" "in_field (c_y p)"
    by (simp_all add: proof_in_range_def)
  let ?aY = "js_rem (js_rem (BN254_P - a_y p) BN254_P + BN254_P) BN254_P"
  have ay: "?aY = (- a_y p) mod BN254_P" "in_field ?aY"
    using negate_in_field[OF r(2)] by simp_all
  note enc = toBE32_in_field[OF r(1)] toBE32_in_field[OF ay(2)] toBE32_in_field[OF r(3)]
    toBE32_in_field[OF r(4)] toBE32_in_field[OF r(5)] toBE32_in_field[OF r(6)]
    toBE32_in_field[OF r(7)] toBE32_in_field[OF r(8)]
  have "serializeProof p =
      Inr ((be32 (a_x p) @ be32 ?aY)
           @ (be32 (b_x1 p) @ be32 (b_x0 p) @ be32 (b_y1 p) @ be32 (b_y0 p))
           @ (be32 (c_x p) @ be32 (c_y p)))"
    unfolding serializeProof_def Let_def enc bind_Inr
    by (simp add: point_pair point_quad assemble del: be_bytes.simps)
  then show ?thesis
    using ay by (simp add: Let_def del: be_bytes.simps)
qed

theorem C3_serializeProof_layout_witness:
  "proof_in_range demo_proof
   \<and> serializeProof demo_proof =
       Inr (be32 1 @ be32 (BN254_P - 2) @ be32 4 @ be32 3 @ be32 6 @ be32 5 @ be32 7 @ be32 0)"
proof -
  have h: "proof_in_range demo_proof"
    by (simp add: proof_in_range_def demo_proof_def in_field_def BN254_P_def)
  have m: "(- 2) mod BN254_P = BN254_P - 2"
    by (simp add: BN254_P_def)
  from C3_serializeProof_layout[OF h] m show ?thesis
    using h by (simp add: Let_def demo_proof_def del: be_bytes.simps)
qed

section \<open>Properties of the instruction builder\<close>

lemma set_at_tail:
  "length pre = off \<Longrightarrow> length src \<le> n \<Longrightarrow>
   set_at (pre @ replicate n 0) src off = Inr (pre @ src @ replicate (n - length src) 0)"
  by (simp add: set_at_def)

lemma length_le_bytes [simp]: "length (le_bytes k n) = k"
  by (induction k arbitrary: n) simp_all

lemma replicate_4: "replicate 4 x = [x, x, x, x]"
  by (simp add: numeral_eq_Suc)

lemma prefix_update:
  assumes "length pre = 40"
  shows "(pre @ replicate 308 (0::byte))[40 := 0, 41 := 1, 42 := 0, 43 := 0]
         = pre @ [0, 1, 0, 0] @ replicate 304 0"
proof -
  have "replicate 308 (0::byte) = replicate 4 0 @ replicate 304 0"
    by (simp add: replicate_add[symmetric])
  then have "replicate 308 (0::byte) = [0, 0, 0, 0] @ replicate 304 0"
    by (simp only: replicate_4)
  then show ?thesis using assms by (simp add: list_update_append)
qed

lemma le_bytes_256: "le_bytes 4 256 = [0, 1, 0, 0]"
  by code_simp

lemma payload_built:
  assumes "length disc = 8" "length nh = 32" "length prv = 256" "length rt = 32"
    "0 \<le> fee" "fee < 2 ^ 64"
  shows
    "bind_err (set_at (replicate (8 + 32 + 4 + 256 + 32 + 8 + 8) 0) disc 0) (\<lambda>d0.
     bind_err (set_at d0 nh 8) (\<lambda>d1.
     bind_err (set_at (d1[40 := 0, 41 := 1, 42 := 0, 43 := 0]) prv 44) (\<lambda>d3.
     bind_err (set_at d3 rt 300) (\<lambda>d4.
     bind_err (setBigUint64_LE d4 332 fee) (\<lambda>d5.
     bind_err (setBigUint64_LE d5 340 0) f)))))
     = f (disc @ nh @ le_bytes 4 256 @ prv @ rt @ le_bytes 8 (nat fee) @ le_bytes 8 0)"
proof -
  have s0: "set_at (replicate (8 + 32 + 4 + 256 + 32 + 8 + 8) 0) disc 0 = Inr (disc @ replicate 340 0)"
    using set_at_tail[of "[]" 0 disc 348] assms(1) by simp
  have s1: "set_at (disc @ replicate 340 0) nh 8 = Inr ((disc @ nh) @ replicate 308 0)"
    using set_at_tail[of disc 8 nh 340] assms(1,2) by simp
  have s2: "((disc @ nh) @ replicate 308 0)[40 := 0, 41 := 1, 42 := 0, 43 := 0]
            = (disc @ nh @ le_bytes 4 256) @ replicate 304 0"
    using prefix_update[of "disc @ nh"] assms(1,2) by (simp add: le_bytes_256)
  have s3: "set_at ((disc @ nh @ le_bytes 4 256) @ replicate 304 0) prv 44
            = Inr ((disc @ nh @ le_bytes 4 256 @ prv) @ replicate 48 0)"
    using set_at_tail[of "disc @ nh @ le_bytes 4 256" 44 prv 304] assms(1,2,3)
    by (simp del: le_bytes.simps)
  have s4: "set_at ((disc @ nh @ le_bytes 4 256 @ prv) @ replicate 48 0) rt 300
            = Inr ((disc @ nh @ le_bytes 4 256 @ prv @ rt) @ replicate 16 0)"
    using set_at_tail[of "disc @ nh @ le_bytes 4 256 @ prv" 300 rt 48] assms(1,2,3,4)
    by (simp del: le_bytes.simps)
  have fee: "fee mod 2 ^ 64 = fee" using assms(5,6) by simp
  have s5: "setBigUint64_LE ((disc @ nh @ le_bytes 4 256 @ prv @ rt) @ replicate 16 0) 332 fee
            = Inr ((disc @ nh @ le_bytes 4 256 @ prv @ rt @ le_bytes 8 (nat fee)) @ replicate 8 0)"
    unfolding setBigUint64_LE_def fee
    using set_at_tail[of "disc @ nh @ le_bytes 4 256 @ prv @ rt" 332 "le_bytes 8 (nat fee)" 16] assms(1,2,3,4)
    by (simp del: le_bytes.simps)
  have s6: "setBigUint64_LE ((disc @ nh @ le_bytes 4 256 @ prv @ rt @ le_bytes 8 (nat fee)) @ replicate 8 0) 340 0
            = Inr (disc @ nh @ le_bytes 4 256 @ prv @ rt @ le_bytes 8 (nat fee) @ le_bytes 8 0)"
    unfolding setBigUint64_LE_def
    using set_at_tail[of "disc @ nh @ le_bytes 4 256 @ prv @ rt @ le_bytes 8 (nat fee)" 340 "le_bytes 8 0" 8]
      assms(1,2,3,4)
    by (simp del: le_bytes.simps)
  show ?thesis
    by (simp only: s0 bind_Inr s1 s2 s3 s4 s5 s6)
qed

lemma new_PublicKey_valid: "pk_valid env k \<Longrightarrow> new_PublicKey env (Some k) = Inr k"
  by (simp add: new_PublicKey_def)

lemma js_index_in: "k < length xs \<Longrightarrow> js_index xs (int k) = Some (xs ! k)"
  by (simp add: js_index_def)

lemma built_with:
  assumes "getPoolConfig env (note_poolId note) = Inr cfg"
    and "withdraw_inputs_ok env cfg fee proof nullifierHashBytes rootBytes"
    and "targetShardPda env cfg note rootResult = Inr shard"
  shows "buildWithdrawInstruction env note recipient protocol fee proof nullifierHashBytes rootBytes rootResult
         = Inr \<lparr>ix_programId = programId cfg,
                ix_keys = fixed_accounts env cfg nullifierHashBytes recipient protocol
                  @ (case shard of None \<Rightarrow> []
                     | Some key \<Rightarrow> [\<lparr>pubkey = key, isSigner = False, isWritable = False\<rparr>]),
                ix_data = withdraw_payload env nullifierHashBytes proof rootBytes fee\<rparr>"
proof -
  from assms(2) have v: "pk_valid env (programId cfg)" "pk_valid env (statePda cfg)"
      "pk_valid env (vaultPda cfg)" "pk_valid env (vkPda cfg)" "pk_valid env (metadataPda cfg)"
    and l: "length (buf_slice (sha256 env (utf8_encode ''global:withdraw_v2_clean'')) 0 8) = 8"
      "length nullifierHashBytes = 32" "length proof = 256" "length rootBytes = 32"
      "0 \<le> fee" "fee < 2 ^ 64"
    by (simp_all add: withdraw_inputs_ok_def buf_slice_def)
  note k = v[THEN new_PublicKey_valid]
  have n: "deriveNullifierPda env nullifierHashBytes cfg
           = Inr (findProgramAddressSync env
                    [utf8_encode ''nullifier'', pk_bytes env (statePda cfg), nullifierHashBytes]
                    (programId cfg))"
    by (simp add: deriveNullifierPda_def k bind_Inr)
  show ?thesis
    unfolding buildWithdrawInstruction_def assms(1) bind_Inr k n
    by (simp only: Let_def payload_built[OF l] assms(3) bind_Inr)
       (cases shard; simp add: fixed_accounts_def withdraw_payload_def withdraw_discriminator_def
          buf_slice_def)
qed

lemma computeShardIndex_nonneg:
  "0 \<le> leafIndex \<Longrightarrow> computeShardIndex leafIndex = (leafIndex mod 2560) div 128"
  by (simp add: computeShardIndex_def js_rem_def Let_def sgn_if)

text \<open>
  C4. With a known pool whose keys are valid, a 32-byte nullifier hash, a 256-byte proof, a
  32-byte root and a fee that fits 64 bits, the instruction data is the discriminator
  (the first 8 bytes of the SHA-256 of \<open>global:withdraw_v2_clean\<close>), the nullifier hash,
  the 4-byte little-endian length 256, the proof, the root, the 8-byte little-endian fee
  and 8 zero bytes for the refund: 348 bytes. The account list is the ten fixed accounts,
  followed by the shard at \<open>shardIndex\<close> when the root was found in the sharded ring, by
  nothing when it was found in the state history, and by the shard
  \<open>floor((leafIndex mod 2560) / 128)\<close> when no tier matched.
\<close>

theorem C4_withdraw_instruction_layout:
  assumes "getPoolConfig env (note_poolId note) = Inr cfg"
    and "withdraw_inputs_ok env cfg fee proof nullifierHashBytes rootBytes"
  shows
    "(rootResult = Some r \<and> source r = sharded_ring \<and> shardIndex r = Some k
        \<and> k < length (shardPdas cfg) \<and> pk_valid env (shardPdas cfg ! k) \<longrightarrow>
      buildWithdrawInstruction env note recipient protocol fee proof nullifierHashBytes rootBytes rootResult
        = Inr \<lparr>ix_programId = programId cfg,
               ix_keys = fixed_accounts env cfg nullifierHashBytes recipient protocol @ [shard_account cfg k],
               ix_data = withdraw_payload env nullifierHashBytes proof rootBytes fee\<rparr>)
     \<and> (rootResult = Some r \<and> source r = state_history \<longrightarrow>
      buildWithdrawInstruction env note recipient protocol fee proof nullifierHashBytes rootBytes rootResult
        = Inr \<lparr>ix_programId = programId cfg,
               ix_keys = fixed_accounts env cfg nullifierHashBytes recipient protocol,
               ix_data = withdraw_payload env nullifierHashBytes proof rootBytes fee\<rparr>)
     \<and> ((rootResult = None \<or> map_option source rootResult = Some not_found)
        \<and> 0 \<le> note_leafIndex note
        \<and> j = nat ((note_leafIndex note mod 2560) div 128)
        \<and> j < length (shardPdas cfg) \<and> pk_valid env (shardPdas cfg ! j) \<longrightarrow>
      buildWithdrawInstruction env note recipient protocol fee proof nullifierHashBytes rootBytes rootResult
        = Inr \<lparr>ix_programId = programId cfg,
               ix_keys = fixed_accounts env cfg nullifierHashBytes recipient protocol @ [shard_account cfg j],
               ix_data = withdraw_payload env nullifierHashBytes proof rootBytes fee\<rparr>)
     \<and> length (withdraw_payload env nullifierHashBytes proof rootBytes fee) = 348
     \<and> length (withdraw_discriminator env) = 8
     \<and> length (fixed_accounts env cfg nullifierHashBytes recipient protocol) = 10
     \<and> le_bytes 4 256 = [0, 1, 0, 0]
     \<and> le_bytes 8 0 = replicate 8 0"
proof -
  have a: "targetShardPda env cfg note rootResult = Inr (Some (shardPdas cfg ! k))"
    if "rootResult = Some r" "source r = sharded_ring" "shardIndex r = Some k"
       "k < length (shardPdas cfg)" "pk_valid env (shardPdas cfg ! k)"
    using that by (simp add: targetShardPda_def Let_def js_index_in new_PublicKey_valid bind_Inr)
  have b: "targetShardPda env cfg note rootResult = Inr None"
    if "rootResult = Some r" "source r = state_history"
    using that by (simp add: targetShardPda_def Let_def split: option.splits)
  have c: "targetShardPda env cfg note rootResult = Inr (Some (shardPdas cfg ! j))"
    if "rootResult = None \<or> map_option source rootResult = Some not_found"
       "0 \<le> note_leafIndex note" "j = nat ((note_leafIndex note mod 2560) div 128)"
       "j < length (shardPdas cfg)" "pk_valid env (shardPdas cfg ! j)"
  proof -
    have i: "computeShardIndex (note_leafIndex note) = int j"
      using that(2,3) by (simp add: computeShardIndex_nonneg pos_imp_zdiv_nonneg_iff)
    show ?thesis
      using that(1,4,5)
      by (auto simp: targetShardPda_def Let_def i js_index_in new_PublicKey_valid bind_Inr
            split: option.splits)
  qed
  have len: "length (withdraw_payload env nullifierHashBytes proof rootBytes fee) = 348"
    "length (withdraw_discriminator env) = 8"
    using assms(2)
    by (simp_all add: withdraw_payload_def withdraw_discriminator_def withdraw_inputs_ok_def
          del: le_bytes.simps)
  have z: "le_bytes 8 0 = replicate 8 0" by code_simp
  show ?thesis
    using built_with[OF assms, of rootResult _ recipient protocol] a b c len z le_bytes_256
    by (auto simp: shard_account_def fixed_accounts_def)
qed

theorem C4_withdraw_instruction_layout_witness:
  "getPoolConfig demo_web3 (note_poolId demo_note) = Inr demo_pool
   \<and> withdraw_inputs_ok demo_web3 demo_pool 1000000 (replicate 256 2) (replicate 32 3) demo_root
   \<and> buildWithdrawInstruction demo_web3 demo_note ''recipient'' ''protocol'' 1000000
         (replicate 256 2) (replicate 32 3) demo_root (Some (result_sharded_ring 1))
       = Inr \<lparr>ix_programId = ''program'',
              ix_keys = fixed_accounts demo_web3 demo_pool (replicate 32 3) ''recipient'' ''protocol''
                          @ [shard_account demo_pool 1],
              ix_data = withdraw_payload demo_web3 (replicate 32 3) (replicate 256 2) demo_root 1000000\<rparr>
   \<and> buildWithdrawInstruction demo_web3 demo_note ''recipient'' ''protocol'' 1000000
         (replicate 256 2) (replicate 32 3) demo_root (Some result_state_history)
       = Inr \<lparr>ix_programId = ''program'',
              ix_keys = fixed_accounts demo_web3 demo_pool (replicate 32 3) ''recipient'' ''protocol'',
              ix_data = withdraw_payload demo_web3 (replicate 32 3) (replicate 256 2) demo_root 1000000\<rparr>
   \<and> buildWithdrawInstruction demo_web3 demo_note ''recipient'' ''protocol'' 1000000
         (replicate 256 2) (replicate 32 3) demo_root None
       = Inr \<lparr>ix_programId = ''program'',
              ix_keys = fixed_accounts demo_web3 demo_pool (replicate 32 3) ''recipient'' ''protocol''
                          @ [shard_account demo_pool 1],
              ix_data = withdraw_payload demo_web3 (replicate 32 3) (replicate 256 2) demo_root 1000000\<rparr>"
proof -
  have g: "getPoolConfig demo_web3 (note_poolId demo_note) = Inr demo_pool"
    by (simp add: demo_web3_def demo_note_def)
  have ok: "withdraw_inputs_ok demo_web3 demo_pool 1000000 (replicate 256 2) (replicate 32 3) demo_root"
    by (simp add: withdraw_inputs_ok_def demo_web3_def demo_root_def)
  have p: "programId demo_pool = ''program''" by (simp add: demo_pool_def)
  have s: "source (result_sharded_ring 1) = sharded_ring" "shardIndex (result_sharded_ring 1) = Some 1"
    "source result_state_history = state_history"
    "(1::nat) < length (shardPdas demo_pool)" "pk_valid demo_web3 (shardPdas demo_pool ! 1)"
    by (simp_all add: result_sharded_ring_def result_state_history_def demo_pool_def demo_web3_def)
  have f: "0 \<le> note_leafIndex demo_note" "(1::nat) = nat ((note_leafIndex demo_note mod 2560) div 128)"
    by (simp_all add: demo_note_def)
  note t = C4_withdraw_instruction_layout[OF g ok]
  have a: "buildWithdrawInstruction demo_web3 demo_note ''recipient'' ''protocol'' 1000000
         (replicate 256 2) (replicate 32 3) demo_root (Some (result_sharded_ring 1))
       = Inr \<lparr>ix_programId = ''program'',
              ix_keys = fixed_accounts demo_web3 demo_pool (replicate 32 3) ''recipient'' ''protocol''
                          @ [shard_account demo_pool 1],
              ix_data = withdraw_payload demo_web3 (replicate 32 3) (replicate 256 2) demo_root 1000000\<rparr>"
    using t[where rootResult = "Some (result_sharded_ring 1)" and r = "result_sharded_ring 1" and k = 1
        and recipient = "''recipient''" and protocol = "''protocol''"] s p by simp
  have b: "buildWithdrawInstruction demo_web3 demo_note ''recipient'' ''protocol'' 1000000
         (replicate 256 2) (replicate 32 3) demo_root (Some result_state_history)
       = Inr \<lparr>ix_programId = ''program'',
              ix_keys = fixed_accounts demo_web3 demo_pool (replicate 32 3) ''recipient'' ''protocol'',
              ix_data = withdraw_payload demo_web3 (replicate 32 3) (replicate 256 2) demo_root 1000000\<rparr>"
    using t[where rootResult = "Some result_state_history" and r = result_state_history
        and recipient = "''recipient''" and protocol = "''protocol''"] s p by simp
  have c: "buildWithdrawInstruction demo_web3 demo_note ''recipient'' ''protocol'' 1000000
         (replicate 256 2) (replicate 32 3) demo_root None
       = Inr \<lparr>ix_programId = ''program'',
              ix_keys = fixed_accounts demo_web3 demo_pool (replicate 32 3) ''recipient'' ''protocol''
                          @ [shard_account demo_pool 1],
              ix_data = withdraw_payload demo_web3 (replicate 32 3) (replicate 256 2) demo_root 1000000\<rparr>"
    using t[where rootResult = None and j = 1
        and recipient = "''recipient''" and protocol = "''protocol''"] s(4,5) f p by simp
  show ?thesis using g ok a b c by blast
qed

subsection \<open>The withdrawal witness\<close>

lemma unat_byte_lt: "unat (b :: byte) < 256"
  using unsigned_less[of b, where 'a = nat] by simp

lemma byte_hex_digits: "byte_hex b = [digit_char (unat b div 16), digit_char (unat b mod 16)]"
proof -
  have h: "unat b div 16 < 16" using unat_byte_lt[of b] by simp
  have "padStart (Suc 1) (CHR ''0'') (toStringRadix 16 (unat b)) = hex_digits (Suc 1) (unat b)"
    by (rule padStart_toStringRadix16) (use unat_byte_lt[of b] in simp)
  moreover have "hex_digits (Suc 1) (unat b) = [digit_char (unat b div 16), digit_char (unat b mod 16)]"
    using h by simp
  moreover have "(2::nat) = Suc 1" by simp
  ultimately show ?thesis by (simp only: byte_hex_def)
qed

lemma digit_val_digit_char: "d < 16 \<Longrightarrow> digit_val 16 (digit_char d) = Some d"
  by (simp add: digit_val_def hex_val_digit_char)

lemma digits_acc_byte:
  "digits_acc 16 a (byte_hex b @ rest) = digits_acc 16 (256 * a + unat b) rest"
proof -
  have h: "unat b div 16 < 16" and l: "unat b mod 16 < 16" using unat_byte_lt[of b] by simp_all
  show ?thesis
    by (simp add: byte_hex_digits digit_val_digit_char[OF h] digit_val_digit_char[OF l] add.commute)
qed

lemma digits_acc_bytes:
  "digits_acc 16 a (bytes_hex bs) = Some (foldl (\<lambda>acc b. 256 * acc + unat b) a bs)"
  by (induction bs arbitrary: a) (simp_all add: bytes_hex_def digits_acc_byte)

lemma bytes_hex_plain: "c \<in> set (bytes_hex bs) \<Longrightarrow> \<not> is_space c"
proof (induction bs)
  case Nil
  then show ?case by (simp add: bytes_hex_def)
next
  case (Cons b bs)
  have h: "unat b div 16 < 16" and l: "unat b mod 16 < 16" using unat_byte_lt[of b] by simp_all
  from Cons show ?case
    using digit_char_plain[OF h] digit_char_plain[OF l]
    by (auto simp: bytes_hex_def byte_hex_digits)
qed

lemma js_trim_plain:
  assumes "\<forall>c \<in> set s. \<not> is_space c"
  shows "js_trim s = s"
proof -
  have "dropWhile is_space s = s" using assms by (cases s) simp_all
  moreover have "dropWhile is_space (rev s) = rev s"
  proof (cases "rev s")
    case Nil
    then show ?thesis by simp
  next
    case (Cons c cs)
    then have "c \<in> set s" by (metis list.set_intros(1) set_rev)
    with assms have "\<not> is_space c" by simp
    with Cons show ?thesis by simp
  qed
  ultimately show ?thesis by (simp add: js_trim_def)
qed

lemma BigInt_bytes_hex:
  assumes "bs \<noteq> []"
  shows "BigInt (''0x'' @ bytes_hex bs) = Inr (int (foldl (\<lambda>acc b. 256 * acc + unat b) 0 bs))"
proof -
  have plain: "\<forall>c \<in> set (''0x'' @ bytes_hex bs). \<not> is_space c"
    using bytes_hex_plain[of _ bs] by (auto simp: is_space_def)
  have ne: "bytes_hex bs \<noteq> []"
    using assms by (cases bs) (simp_all add: bytes_hex_def byte_hex_digits)
  from js_trim_plain[OF plain] ne show ?thesis
    by (simp add: BigInt_def BigInt_digits_def digits_value_def digits_acc_bytes)
qed

lemma BigInt_bytes: "bs \<noteq> [] \<Longrightarrow> BigInt (''0x'' @ bytes_hex bs) = Inr (int (be_value bs))"
  using BigInt_bytes_hex[of bs] by (simp add: be_value_def)

lemma length_fieldToBytesBE [simp]: "length (fieldToBytesBE x) = 32"
  by (simp add: fieldToBytesBE_def Let_def)

lemma bytesToFieldBE_ok:
  assumes "length bs = 32"
  shows "bytesToFieldBE bs = Inr (int (be_value bs))"
proof -
  from assms have "bs \<noteq> []" by (cases bs) simp_all
  from BigInt_bytes[OF this] assms show ?thesis by (simp add: bytesToFieldBE_def)
qed

lemma poseidonHashSingle_ok:
  "length input = 32 \<Longrightarrow>
   poseidonHashSingle env input = Inr (fieldToBytesBE (poseidon1 env (int (be_value input))))"
  by (simp add: poseidonHashSingle_def bytesToFieldBE_ok bind_err_def)

lemma addressToBE32Parts_ok:
  assumes "length address = 32"
  shows "addressToBE32Parts address =
           Inr (int (be_value (replicate 16 0 @ take 16 address)),
                int (be_value (replicate 16 0 @ drop 16 address)))"
proof -
  have h: "set_at (replicate 32 0) (buf_slice address 0 16) 16 = Inr (replicate 16 0 @ take 16 address)"
    using assms by (simp add: set_at_def buf_slice_def)
  have l: "set_at (replicate 32 0) (buf_slice address 16 32) 16 = Inr (replicate 16 0 @ drop 16 address)"
    using assms by (simp add: set_at_def buf_slice_def)
  have bh: "BigInt (''0x'' @ bytes_hex (replicate 16 0 @ take 16 address))
              = Inr (int (be_value (replicate 16 0 @ take 16 address)))"
    by (rule BigInt_bytes) simp
  have bl: "BigInt (''0x'' @ bytes_hex (replicate 16 0 @ drop 16 address))
              = Inr (int (be_value (replicate 16 0 @ drop 16 address)))"
    by (rule BigInt_bytes) simp
  from assms bh bl show ?thesis
    by (simp add: addressToBE32Parts_def h l bind_err_def)
qed

lemma map_err_ok:
  "list_all (\<lambda>x. case f x of Inl e \<Rightarrow> False | Inr v \<Rightarrow> True) xs \<Longrightarrow> \<exists>ys. map_err f xs = Inr ys"
  by (induction xs) (auto simp: bind_err_def split: sum.splits)

lemma pathElement_ok:
  "parses (''0x'' @ replace_first s ''0x'' '''') \<Longrightarrow>
   (case pathElement s of Inl e \<Rightarrow> False | Inr v \<Rightarrow> True)"
  by (auto simp: parses_def pathElement_def Let_def bind_err_def split: sum.splits)

lemma pathElements_ok:
  assumes "list_all (\<lambda>s. parses (''0x'' @ replace_first s ''0x'' '''')) ss"
  shows "\<exists>ys. map_err pathElement ss = Inr ys"
proof (rule map_err_ok)
  show "list_all (\<lambda>x. case pathElement x of Inl e \<Rightarrow> False | Inr v \<Rightarrow> True) ss"
    using assms pathElement_ok by (simp add: list_all_iff)
qed

lemma root_ok:
  assumes "replace_first r ''0x'' '''' = [] \<or> parses (''0x'' @ replace_first r ''0x'' '''')"
  shows "\<exists>v. (if replace_first r ''0x'' '''' \<noteq> [] then BigInt (''0x'' @ replace_first r ''0x'' '''') else Inr 0)
              = Inr v"
  using assms by (auto simp: parses_def split: sum.splits)

lemma length_PublicKey_default [simp]: "length PublicKey_default = 32"
  by (simp add: PublicKey_default_def)

lemma build_returns:
  assumes n: "BigInt (note_nullifierSecret note) = Inr n"
      and s: "BigInt (note_noteSecret note) = Inr s"
      and p: "paths_parse note"
      and r: "length recipient = 32" and q: "length protocol = 32"
  shows "\<exists>w. fst (buildWithdrawWitness env note recipient protocol fee refund) = Inr w"
proof -
  from p obtain v where v:
    "(if replace_first (note_rootAfter note) ''0x'' '''' \<noteq> []
      then BigInt (''0x'' @ replace_first (note_rootAfter note) ''0x'' '''') else Inr 0) = Inr v"
    using root_ok[of "note_rootAfter note"] by (auto simp: paths_parse_def)
  from p obtain ys where ys: "map_err pathElement (note_siblings note) = Inr ys"
    using pathElements_ok[of "note_siblings note"] by (auto simp: paths_parse_def)
  have pl: "length (if fee = 0 then PublicKey_default else protocol) = 32"
    using q by simp
  show ?thesis
    unfolding buildWithdrawWitness_def Let_def n s
    by (simp only: sum.case fst_conv poseidonHashSingle_ok length_fieldToBytesBE bytesToFieldBE_ok
          bind_Inr v ys addressToBE32Parts_ok[OF r] addressToBE32Parts_ok[OF pl] prod.case) blast
qed

lemma build_ignores_commitment:
  "fst (buildWithdrawWitness env (note\<lparr>note_commitment := c\<rparr>) recipient protocol fee refund)
   = fst (buildWithdrawWitness env note recipient protocol fee refund)"
  by (simp add: buildWithdrawWitness_def Let_def split: sum.split)

lemma build_errors:
  assumes n: "BigInt (note_nullifierSecret note) = Inr n"
      and s: "BigInt (note_noteSecret note) = Inr s"
  shows "(console_errors (snd (buildWithdrawWitness env note recipient protocol fee refund)) = [])
         = commitment_matches env n s (note_commitment note)"
  unfolding buildWithdrawWitness_def Let_def n s
  by (simp add: console_errors_def commitment_matches_def computed_commitment_hex_def
        computeCommitmentFromBigInts_def)

lemma be_bytes_zero: "be_bytes k 0 = replicate k 0"
  by (induction k) (simp_all add: replicate_append_same)

lemma be_bytes_byte: "n < 256 \<Longrightarrow> be_bytes (Suc k) n = replicate k 0 @ [of_nat n]"
  by (simp add: be_bytes_zero)

lemma be32_byte:
  assumes "0 \<le> x" "x < 256"
  shows "be32 x = replicate 31 0 @ [of_int x]"
proof -
  have "be_bytes 32 (nat x) = be_bytes (Suc 31) (nat x)"
    by (rule arg_cong[where f = "\<lambda>k. be_bytes k (nat x)"]) simp
  also have "\<dots> = replicate 31 0 @ [of_nat (nat x)]"
    by (rule be_bytes_byte) (use assms in simp)
  finally show ?thesis using assms by (simp add: be32_def del: be_bytes.simps)
qed

lemma be_value_zeros: "foldl (\<lambda>acc b. 256 * acc + unat b) 0 (replicate k (0::byte)) = 0"
  by (induction k) simp_all

lemma be_value_pad: "be_value (replicate k 0 @ bs) = be_value bs"
  by (simp add: be_value_def be_value_zeros)

lemma bytes_hex_zeros: "bytes_hex (replicate k 0) = replicate (2 * k) (CHR ''0'')"
  by (induction k) (simp_all add: bytes_hex_def byte_hex_digits digit_char_def)

lemma bytes_hex_append: "bytes_hex (xs @ ys) = bytes_hex xs @ bytes_hex ys"
  by (simp add: bytes_hex_def)

lemma pathIndices_loop_numeral:
  "pathIndices_loop (numeral k) idx = (idx AND 1) # pathIndices_loop (pred_numeral k) (drop_bit 1 idx)"
  by (simp add: numeral_eq_Suc)

lemma toy_indices:
  "pathIndices_loop 20 5 = [1, 0, 1, 0, 0, 0, 0, 0, 0, 0, 0, 0, 0, 0, 0, 0, 0, 0, 0, 0]"
  by (simp add: pathIndices_loop_numeral)

lemma toy_lower:
  "toLowerCase (''0x'' @ replicate 62 (CHR ''0'') @ ''0C'') = ''0x'' @ replicate 62 (CHR ''0'') @ ''0c''"
  by code_simp

lemma fieldToBytesBE_be32:
  assumes "0 \<le> x" "x < 16 ^ 64"
  shows "fieldToBytesBE x = be32 x"
proof -
  from assms have n: "nat x < 16 ^ Suc 63" by (simp add: nat_less_iff)
  have ts: "toString16 x = toStringRadix 16 (nat x)" using assms by (simp add: toString16_def)
  have "padStart (Suc 63) (CHR ''0'') (toStringRadix 16 (nat x)) = hex_digits (Suc 63) (nat x)"
    by (rule padStart_toStringRadix16[OF n])
  then have pad: "padStart 64 (CHR ''0'') (toString16 x) = hex_digits (2 * 32) (nat x)"
    by (simp add: ts del: hex_digits.simps)
  have bytes: "map (\<lambda>i. to_uint8 (parseInt16 (take 2 (drop (i * 2) (hex_digits (2 * 32) (nat x)))))) [0..<32]
               = be_bytes 32 (nat x)"
    by (rule hex_digits_pairs)
  show ?thesis
    unfolding fieldToBytesBE_def Let_def pad be32_def by (rule bytes)
qed

lemma fieldToBytesBE_byte:
  assumes "0 \<le> x" "x < 256"
  shows "fieldToBytesBE x = replicate 31 0 @ [of_int x]"
proof -
  have "x < 16 ^ 64" using assms by simp
  from fieldToBytesBE_be32[OF assms(1) this] be32_byte[OF assms] show ?thesis by simp
qed

lemma be_value_byte: "be_value (replicate k 0 @ [b]) = unat b"
  by (simp add: be_value_pad) (simp add: be_value_def)

lemma be_value_single: "be_value [b] = unat b"
  by (simp add: be_value_def)

lemma be_value_zero: "be_value (replicate k 0) = 0"
  by (simp add: be_value_def be_value_zeros)

lemma toy_BigInt:
  "BigInt ''5'' = Inr 5" "BigInt ''7'' = Inr 7"
  "BigInt ''0x10'' = Inr 16" "BigInt ''0x02'' = Inr 2" "BigInt ''0x0B'' = Inr 11"
  by (simp_all add: BigInt_def js_trim_def is_space_def BigInt_digits_def digits_value_def
      digit_val_def hex_val_def)

lemma toy_show_nat:
  "show_nat 0 = ''0''" "show_nat 1 = ''1''" "show_nat 2 = ''2''" "show_nat 4 = ''4''"
  "show_nat 5 = ''5''" "show_nat 6 = ''6''" "show_nat 7 = ''7''" "show_nat 9 = ''9''"
  "show_nat 11 = ''11''" "show_nat 16 = ''16''" "show_nat 1000 = ''1000''"
  by (simp_all add: show_nat_def digit_char_def toStringRadix.simps)

lemma toy_show:
  "show_int 0 = ''0''" "show_int 1 = ''1''" "show_int 2 = ''2''" "show_int 4 = ''4''"
  "show_int 5 = ''5''" "show_int 6 = ''6''" "show_int 7 = ''7''" "show_int 9 = ''9''"
  "show_int 11 = ''11''" "show_int 16 = ''16''" "show_int 1000 = ''1000''"
  by (simp_all add: toy_show_nat[simplified] toy_show_nat)

lemma toy_paths: "map_err pathElement [''0x02'', ''0x0B''] = Inr [''2'', ''11'']"
  by (simp add: pathElement_def bind_err_def toy_BigInt js_rem_def BN254_FIELD_MODULUS_def toy_show
      del: show_int.simps)

lemma toy_hash:
  "poseidonHashSingle toy_poseidon (fieldToBytesBE 5) = Inr (replicate 31 0 @ [6])"
proof -
  have "fieldToBytesBE 5 = replicate 31 0 @ [5]" by (simp add: fieldToBytesBE_byte)
  moreover have "fieldToBytesBE 6 = replicate 31 0 @ [6]" by (simp add: fieldToBytesBE_byte)
  moreover have "be_value (replicate 31 0 @ [5]) = 5" by (simp add: be_value_byte)
  ultimately show ?thesis
    by (simp add: poseidonHashSingle_ok toy_poseidon_def)
qed

lemma toy_hash_field: "bytesToFieldBE (replicate 31 0 @ [6]) = Inr 6"
  by (simp add: bytesToFieldBE_ok be_value_byte)

lemma toy_recipient: "addressToBE32Parts demo_recipient = Inr (0, 9)"
proof -
  have l: "length demo_recipient = 32" by (simp add: demo_recipient_def)
  have "take 16 demo_recipient = replicate 16 0" by (simp add: demo_recipient_def)
  moreover have "drop 16 demo_recipient = replicate 15 0 @ [9]" by (simp add: demo_recipient_def)
  ultimately show ?thesis
    by (simp add: addressToBE32Parts_ok[OF l] be_value_pad be_value_zero be_value_single)
qed

lemma toy_protocol: "addressToBE32Parts demo_protocol = Inr (1, 4)"
proof -
  have l: "length demo_protocol = 32" by (simp add: demo_protocol_def)
  have "take 16 demo_protocol = replicate 15 0 @ [1]" by (simp add: demo_protocol_def)
  moreover have "drop 16 demo_protocol = replicate 15 0 @ [4]" by (simp add: demo_protocol_def)
  ultimately show ?thesis
    by (simp add: addressToBE32Parts_ok[OF l] be_value_pad be_value_single)
qed

lemma toy_run:
  "fst (buildWithdrawWitness toy_poseidon corrupted_note demo_recipient demo_protocol 1000 0)
   = Inr toy_witness"
  by (simp add: buildWithdrawWitness_def Let_def corrupted_note_def toy_BigInt toy_hash
      toy_hash_field toy_paths toy_indices toy_recipient toy_protocol toy_show bind_err_def
      toy_witness_def del: show_int.simps map_err.simps)

lemma toy_commitment:
  "computed_commitment_hex toy_poseidon 5 7 = ''0x'' @ replicate 62 (CHR ''0'') @ ''0c''"
  by (simp add: computed_commitment_hex_def toy_poseidon_def fieldToBytesBE_byte
      bytes_hex_append bytes_hex_zeros)
     (simp add: bytes_hex_def byte_hex_digits digit_char_def)

lemma toy_lower_neq:
  "toLowerCase (''0x'' @ replicate 62 (CHR ''0'') @ ''0c'') \<noteq> toLowerCase (''0x'' @ replicate 64 (CHR ''0''))"
  by code_simp

lemma toy_lower_eq:
  "toLowerCase (''0x'' @ replicate 62 (CHR ''0'') @ ''0c'') = toLowerCase (''0x'' @ replicate 62 (CHR ''0'') @ ''0C'')"
  by code_simp

lemma toy_mismatch: "\<not> commitment_matches toy_poseidon 5 7 (note_commitment corrupted_note)"
  using toy_lower_neq
  by (simp add: commitment_matches_def toy_commitment corrupted_note_def)

lemma toy_match: "commitment_matches toy_poseidon 5 7 (note_commitment sound_note)"
  using toy_lower_eq
  by (simp add: commitment_matches_def toy_commitment sound_note_def corrupted_note_def)

lemma build_log:
  assumes n: "BigInt (note_nullifierSecret note) = Inr n"
      and s: "BigInt (note_noteSecret note) = Inr s"
  shows "snd (buildWithdrawWitness env note recipient protocol fee refund) =
           [console_log ''[buildWithdrawWitness] Processing note:'',
            console_log ''[buildWithdrawWitness] Commitment verification:'']
           @ (if commitment_matches env n s (note_commitment note) then []
              else [console_error ''[buildWithdrawWitness] COMMITMENT MISMATCH - This note was likely created before the encoding fix and is UNRECOVERABLE'' [],
                    console_error ''[buildWithdrawWitness] Stored commitment (on-chain):'' [note_commitment note],
                    console_error ''[buildWithdrawWitness] Computed commitment (circuit):''
                      [Some (computed_commitment_hex env n s)]])"
  unfolding buildWithdrawWitness_def Let_def n s
  by (simp add: commitment_matches_def computed_commitment_hex_def computeCommitmentFromBigInts_def)

lemma toy_secrets:
  "BigInt (note_nullifierSecret corrupted_note) = Inr 5"
  "BigInt (note_noteSecret corrupted_note) = Inr 7"
  "BigInt (note_nullifierSecret sound_note) = Inr 5"
  "BigInt (note_noteSecret sound_note) = Inr 7"
  by (simp_all add: sound_note_def corrupted_note_def toy_BigInt)

lemma toy_paths_parse: "paths_parse corrupted_note" "paths_parse sound_note"
  by (simp_all add: paths_parse_def parses_def sound_note_def corrupted_note_def toy_BigInt)

lemma toy_lengths: "length demo_recipient = 32" "length demo_protocol = 32"
  by (simp_all add: demo_recipient_def demo_protocol_def)

text \<open>
  C1, as the specification states it, fails on the code. The note \<open>corrupted_note\<close> stores
  the commitment 0 while its secrets 5 and 7 give 12 under \<open>toy_poseidon\<close>. The builder
  writes the three \<open>console.error\<close> lines and goes on: it returns the witness, and nothing
  is thrown.
\<close>

theorem C1_corrupted_commitment_counterexample:
  "\<not> commitment_matches toy_poseidon 5 7 (note_commitment corrupted_note)
   \<and> buildWithdrawWitness toy_poseidon corrupted_note demo_recipient demo_protocol 1000 0 =
       (Inr toy_witness,
        [console_log ''[buildWithdrawWitness] Processing note:'',
         console_log ''[buildWithdrawWitness] Commitment verification:'',
         console_error ''[buildWithdrawWitness] COMMITMENT MISMATCH - This note was likely created before the encoding fix and is UNRECOVERABLE'' [],
         console_error ''[buildWithdrawWitness] Stored commitment (on-chain):''
           [Some (''0x'' @ replicate 64 (CHR ''0''))],
         console_error ''[buildWithdrawWitness] Computed commitment (circuit):''
           [Some (''0x'' @ replicate 62 (CHR ''0'') @ ''0c'')]])"
proof -
  have "snd (buildWithdrawWitness toy_poseidon corrupted_note demo_recipient demo_protocol 1000 0) =
        [console_log ''[buildWithdrawWitness] Processing note:'',
         console_log ''[buildWithdrawWitness] Commitment verification:'',
         console_error ''[buildWithdrawWitness] COMMITMENT MISMATCH - This note was likely created before the encoding fix and is UNRECOVERABLE'' [],
         console_error ''[buildWithdrawWitness] Stored commitment (on-chain):''
           [Some (''0x'' @ replicate 64 (CHR ''0''))],
         console_error ''[buildWithdrawWitness] Computed commitment (circuit):''
           [Some (''0x'' @ replicate 62 (CHR ''0'') @ ''0c'')]]"
    using toy_mismatch
    by (simp add: build_log[OF toy_secrets(1,2)] toy_commitment) (simp add: corrupted_note_def)
  with toy_run toy_mismatch show ?thesis
    by (simp add: prod_eq_iff)
qed

text \<open>
  C1, amended. Witness building never fails with a commitment mismatch. When the secrets,
  the root and the siblings of the note convert with \<open>BigInt\<close> and the two keys have 32
  bytes, the builder returns a witness; what it returns (or throws) is the same for every
  stored commitment \<open>c\<close>; and the \<open>console.error\<close> lines are written exactly when the
  stored commitment, in lower case, differs from the recomputed one.
\<close>

theorem C1_commitment_mismatch_only_logged:
  assumes "BigInt (note_nullifierSecret note) = Inr n"
      and "BigInt (note_noteSecret note) = Inr s"
      and "paths_parse note"
      and "length recipient = 32" and "length protocol = 32"
  shows "(\<exists>w. fst (buildWithdrawWitness env note recipient protocol fee refund) = Inr w)
       \<and> fst (buildWithdrawWitness env (note\<lparr>note_commitment := c\<rparr>) recipient protocol fee refund)
           = fst (buildWithdrawWitness env note recipient protocol fee refund)
       \<and> (console_errors (snd (buildWithdrawWitness env note recipient protocol fee refund)) = [])
           = commitment_matches env n s (note_commitment note)"
  using build_returns[OF assms] build_ignores_commitment build_errors[OF assms(1,2)]
  by blast

theorem C1_commitment_mismatch_only_logged_witness:
  "BigInt (note_nullifierSecret corrupted_note) = Inr 5
   \<and> BigInt (note_noteSecret corrupted_note) = Inr 7
   \<and> paths_parse corrupted_note
   \<and> length demo_recipient = 32 \<and> length demo_protocol = 32
   \<and> (\<exists>w. fst (buildWithdrawWitness toy_poseidon corrupted_note demo_recipient demo_protocol 1000 0) = Inr w)
   \<and> fst (buildWithdrawWitness toy_poseidon sound_note demo_recipient demo_protocol 1000 0)
       = fst (buildWithdrawWitness toy_poseidon corrupted_note demo_recipient demo_protocol 1000 0)
   \<and> console_errors (snd (buildWithdrawWitness toy_poseidon corrupted_note demo_recipient demo_protocol 1000 0)) \<noteq> []
   \<and> console_errors (snd (buildWithdrawWitness toy_poseidon sound_note demo_recipient demo_protocol 1000 0)) = []"
proof -
  note a = C1_commitment_mismatch_only_logged[OF toy_secrets(1,2) toy_paths_parse(1) toy_lengths,
      where env = toy_poseidon and fee = 1000 and refund = 0
        and c = "Some (''0x'' @ replicate 62 (CHR ''0'') @ ''0C'')"]
  note b = C1_commitment_mismatch_only_logged[OF toy_secrets(3,4) toy_paths_parse(2) toy_lengths,
      where env = toy_poseidon and fee = 1000 and refund = 0 and c = None]
  from a b toy_mismatch toy_match toy_secrets toy_paths_parse toy_lengths show ?thesis
    by (simp add: sound_note_def)
qed

section \<open>Properties of the batch withdrawal\<close>

lemma map_err_length: "map_err f xs = Inr ys \<Longrightarrow> length ys = length xs"
  by (induction xs arbitrary: ys) (auto simp: bind_err_def split: sum.splits)

lemma phase2_all:
  "map_err (\<lambda>n. prepareWithdrawalForProtocol env n recipient protocol) ns = Inr subs \<Longrightarrow>
   phase2 env recipient protocol i ns acc ui = (Inr (acc @ subs), ui)"
  by (induction ns arbitrary: i acc subs) (auto simp: bind_err_def split: sum.splits)

lemma phase3_signatures:
  "fst (phase3 env i subs txs ui) = txs @ concat (map signature_of (submit_outcomes env subs))"
  by (induction subs arbitrary: i txs ui)
     (auto simp: submit_outcomes_def Let_def split: sum.splits)

lemma phase3_submitted:
  "ui_submitted (snd (phase3 env i subs txs ui)) = ui_submitted ui @ map submission_call subs"
  by (induction subs arbitrary: i txs ui)
     (auto simp: submission_call_def log_error_def Let_def split: sum.splits)

lemma phase3_errors:
  "length (console_errors (ui_console (snd (phase3 env i subs txs ui)))) =
   length (console_errors (ui_console ui))
   + length (filter (\<lambda>out. \<not> withdrawn out) (submit_outcomes env subs))"
  by (induction subs arbitrary: i txs ui)
     (auto simp: submit_outcomes_def log_error_def console_errors_def Let_def split: sum.splits)

lemma phase3_successTxs:
  "ui_successTxs (snd (phase3 env i subs txs ui)) = ui_successTxs ui"
  by (induction subs arbitrary: i txs ui)
     (auto simp: log_error_def Let_def split: sum.splits)

lemma phase3_error:
  "ui_error (snd (phase3 env i subs txs ui)) =
     (case failure_messages i (submit_outcomes env subs) of
        [] \<Rightarrow> ui_error ui
      | m # ms \<Rightarrow> Some (last (m # ms)))"
proof (induction subs arbitrary: i txs ui)
  case Nil
  then show ?case by (simp add: submit_outcomes_def)
next
  case (Cons sub subs)
  have so: "submit_outcomes env (sub # subs) =
            submitWithdrawalToProtocol env (sub_poolId sub) (sub_instruction sub) # submit_outcomes env subs"
    by (simp add: submit_outcomes_def)
  show ?case
    unfolding so
    by (cases "submitWithdrawalToProtocol env (sub_poolId sub) (sub_instruction sub)")
       (auto simp: Cons.IH log_error_def Let_def split: list.splits)
qed

lemma phase2_fail:
  "map_err (\<lambda>n. prepareWithdrawalForProtocol env n recipient protocol) ns = Inl e \<Longrightarrow>
   \<exists>k m c. phase2 env recipient protocol i ns acc ui =
         (Inl (Error (''Failed to generate proof for note '' @ show_nat k @ '': '' @ m)),
          log_error c [] ui)"
  by (induction ns arbitrary: i acc) (auto simp: bind_err_def split: sum.splits)

lemma phase1_ok:
  assumes "checkProtocolHealth env = Inr h" "h_status h = ''ok''" "key_ok env (h_protocol h)"
  shows "phase1 env ui = (Inr (h_protocol h), ui)"
  using assms by (simp add: phase1_def)

lemma no_missing_data:
  "list_all has_merkle_data ns \<Longrightarrow>
   filter (\<lambda>n. note_rootAfter n = [] \<or> note_siblings n = [] \<or> note_leafIndex n < 0) ns = []"
  by (induction ns) (auto simp: has_merkle_data_def)

lemma handleWithdraw_prepared:
  assumes "key_ok env recipient" "list_all has_merkle_data ns"
      and "checkProtocolHealth env = Inr h" "h_status h = ''ok''" "key_ok env (h_protocol h)"
      and "map_err (\<lambda>n. prepareWithdrawalForProtocol env n recipient (h_protocol h)) ns = Inr subs"
  shows "handleWithdraw env recipient ns ui =
           (let ui0 = ui\<lparr>ui_error := None, ui_isWithdrawing := True, ui_showProofOverlay := True,
                         ui_successTxs := []\<rparr>;
                r = phase3 env 0 subs [] ui0
            in (if length (fst r) > 0
                then (snd r)\<lparr>ui_successTxs := fst r, ui_cleared := True\<rparr>
                else (snd r)\<lparr>ui_error := Some ''All withdrawals failed. Please try again.''\<rparr>)
               \<lparr>ui_showProofOverlay := False, ui_isWithdrawing := False\<rparr>)"
  using assms(1)
  by (simp add: handleWithdraw_def no_missing_data[OF assms(2)] withdraw_body_def
      phase1_ok[OF assms(3,4,5)] phase2_all[OF assms(6)] Let_def split: prod.splits)

lemma handleWithdraw_aborted:
  assumes "key_ok env recipient" "list_all has_merkle_data ns"
      and "checkProtocolHealth env = Inr h" "h_status h = ''ok''" "key_ok env (h_protocol h)"
      and "map_err (\<lambda>n. prepareWithdrawalForProtocol env n recipient (h_protocol h)) ns = Inl e"
  shows "ui_submitted (handleWithdraw env recipient ns ui) = ui_submitted ui
       \<and> ui_successTxs (handleWithdraw env recipient ns ui) = []
       \<and> (\<exists>k m. ui_error (handleWithdraw env recipient ns ui)
                  = Some (''Failed to generate proof for note '' @ show_nat k @ '': '' @ m))"
proof -
  let ?ui0 = "ui\<lparr>ui_error := None, ui_isWithdrawing := True, ui_showProofOverlay := True,
                 ui_successTxs := []\<rparr>"
  from phase2_fail[OF assms(6), of 0 "[]" ?ui0] obtain k m c where
    p2: "phase2 env recipient (h_protocol h) 0 ns [] ?ui0 =
         (Inl (Error (''Failed to generate proof for note '' @ show_nat k @ '': '' @ m)),
          log_error c [] ?ui0)"
    by blast
  have "handleWithdraw env recipient ns ui =
        (log_error ''Withdrawal batch error:'' [] (log_error c [] ?ui0))
        \<lparr>ui_error := Some (''Failed to generate proof for note '' @ show_nat k @ '': '' @ m),
         ui_showProofOverlay := False, ui_isWithdrawing := False\<rparr>"
    using assms(1)
    by (simp add: handleWithdraw_def no_missing_data[OF assms(2)] withdraw_body_def
        phase1_ok[OF assms(3,4,5)] p2 Let_def)
  then show ?thesis by (auto simp: log_error_def)
qed

lemma handleWithdraw_isolated:
  assumes "key_ok env recipient" "list_all has_merkle_data ns"
      and "checkProtocolHealth env = Inr h" "h_status h = ''ok''" "key_ok env (h_protocol h)"
      and "map_err (\<lambda>n. prepareWithdrawalForProtocol env n recipient (h_protocol h)) ns = Inr subs"
  shows "length subs = length ns
       \<and> ui_submitted (handleWithdraw env recipient ns ui) = ui_submitted ui @ map submission_call subs
       \<and> ui_successTxs (handleWithdraw env recipient ns ui)
           = concat (map signature_of (submit_outcomes env subs))
       \<and> length (console_errors (ui_console (handleWithdraw env recipient ns ui)))
           = length (console_errors (ui_console ui))
             + length (filter (\<lambda>out. \<not> withdrawn out) (submit_outcomes env subs))
       \<and> ui_error (handleWithdraw env recipient ns ui)
           = (if concat (map signature_of (submit_outcomes env subs)) = []
              then Some ''All withdrawals failed. Please try again.''
              else (case failure_messages 0 (submit_outcomes env subs) of
                      [] \<Rightarrow> None
                    | m # ms \<Rightarrow> Some (last (m # ms))))"
proof -
  let ?ui0 = "ui\<lparr>ui_error := None, ui_isWithdrawing := True, ui_showProofOverlay := True,
                 ui_successTxs := []\<rparr>"
  have sg: "fst (phase3 env 0 subs [] ?ui0) = concat (map signature_of (submit_outcomes env subs))"
    by (simp add: phase3_signatures)
  have sb: "ui_submitted (snd (phase3 env 0 subs [] ?ui0)) = ui_submitted ui @ map submission_call subs"
    by (simp add: phase3_submitted)
  have er: "length (console_errors (ui_console (snd (phase3 env 0 subs [] ?ui0)))) =
            length (console_errors (ui_console ui))
            + length (filter (\<lambda>out. \<not> withdrawn out) (submit_outcomes env subs))"
    by (simp add: phase3_errors)
  have st: "ui_successTxs (snd (phase3 env 0 subs [] ?ui0)) = []"
    by (simp add: phase3_successTxs)
  have ue: "ui_error (snd (phase3 env 0 subs [] ?ui0)) =
            (case failure_messages 0 (submit_outcomes env subs) of
               [] \<Rightarrow> None
             | m # ms \<Rightarrow> Some (last (m # ms)))"
    by (simp add: phase3_error split: list.splits)
  show ?thesis
    using sg sb er st ue map_err_length[OF assms(6)]
    by (simp add: handleWithdraw_prepared[OF assms] Let_def)
qed


lemma show_nat_small:
  "show_nat (Suc 0) = ''1''" "show_nat (Suc (Suc 0)) = ''2''" "show_nat (Suc (Suc (Suc 0))) = ''3''"
  by (simp_all add: show_nat_def digit_char_def toStringRadix.simps)

lemma batch_has_data: "list_all has_merkle_data batch_notes"
  by (simp add: batch_notes_def batch_note_def corrupted_note_def has_merkle_data_def)


lemma demo_prepared:
  "map_err (\<lambda>n. prepareWithdrawalForProtocol demo_submit_fails n ''recipient-key'' ''protocol-key'')
     batch_notes
   = Inr [batch_submission ''pool-1'', batch_submission ''pool-2'', batch_submission ''pool-3'']"
  by (simp add: demo_submit_fails_def batch_notes_def batch_note_def bind_err_def)

lemma demo_submit_run:
  "handleWithdraw demo_submit_fails ''recipient-key'' batch_notes idle_ui =
     idle_ui\<lparr>ui_error := Some ''Withdrawal 2 submit failed: Transaction simulation failed: custom program error: 0x1771'',
            ui_successTxs := [''sig-pool-1'', ''sig-pool-3''],
            ui_cleared := True,
            ui_submitted := map submission_call
              [batch_submission ''pool-1'', batch_submission ''pool-2'', batch_submission ''pool-3''],
            ui_console := [console_error ''[Phase 3] Submit error for withdrawal 2:'' []]\<rparr>"
  by (simp add: handleWithdraw_def withdraw_body_def phase1_def demo_submit_fails_def
      batch_notes_def batch_note_def corrupted_note_def log_error_def batch_submission_def
      submission_call_def idle_ui_def show_nat_small)

lemma demo_not_prepared:
  "map_err (\<lambda>n. prepareWithdrawalForProtocol demo_prepare_fails n ''recipient-key'' ''protocol-key'')
     batch_notes
   = Inl (Error ''Proof generation failed'')"
  by (simp add: demo_prepare_fails_def demo_submit_fails_def batch_notes_def batch_note_def bind_err_def)


text \<open>
  C5, as the specification states it, fails on the code. With \<open>demo_prepare_fails\<close> the
  proof of the second of three notes cannot be generated. Phase 2 throws the error again,
  which ends the whole batch before Phase 3: nothing is submitted and nothing succeeds,
  although the first note was prepared and the third would have been.
\<close>

theorem C5_proof_failure_aborts_batch_counterexample:
  "handleWithdraw demo_prepare_fails ''recipient-key'' batch_notes idle_ui =
     idle_ui\<lparr>ui_error := Some ''Failed to generate proof for note 2: Proof generation failed'',
            ui_console := [console_error ''[Phase 2] Failed to generate proof 2:'' [],
                           console_error ''Withdrawal batch error:'' []]\<rparr>
   \<and> ui_submitted (handleWithdraw demo_prepare_fails ''recipient-key'' batch_notes idle_ui) = []
   \<and> ui_successTxs (handleWithdraw demo_prepare_fails ''recipient-key'' batch_notes idle_ui) = []"
proof -
  have "handleWithdraw demo_prepare_fails ''recipient-key'' batch_notes idle_ui =
     idle_ui\<lparr>ui_error := Some ''Failed to generate proof for note 2: Proof generation failed'',
            ui_console := [console_error ''[Phase 2] Failed to generate proof 2:'' [],
                           console_error ''Withdrawal batch error:'' []]\<rparr>"
    by (simp add: handleWithdraw_def withdraw_body_def phase1_def demo_prepare_fails_def
        demo_submit_fails_def batch_notes_def batch_note_def corrupted_note_def log_error_def
        idle_ui_def show_nat_small)
  then show ?thesis by (simp add: idle_ui_def)
qed


text \<open>
  C5, amended. Take a batch that passes the checks of the recipient, of the Merkle data and
  of the service. If every note can be prepared, every prepared item is submitted, in
  order, whatever happens to the other items: the signatures stored are those of the
  submissions answered with \<open>success\<close> or \<open>duplicate\<close>, every other outcome (a response
  \<open>failed\<close>, or an error thrown by the call) writes one \<open>console.error\<close> line, and the
  error kept is that of the last failing item, or "All withdrawals failed" when no item
  succeeded. If the preparation of some note fails, nothing is submitted, nothing succeeds,
  and the error kept is "Failed to generate proof for note k".
\<close>

theorem C5_submission_failures_isolated:
  assumes "key_ok env recipient" "list_all has_merkle_data ns"
      and "checkProtocolHealth env = Inr h" "h_status h = ''ok''" "key_ok env (h_protocol h)"
  shows "(map_err (\<lambda>n. prepareWithdrawalForProtocol env n recipient (h_protocol h)) ns = Inr subs \<longrightarrow>
           length subs = length ns
         \<and> ui_submitted (handleWithdraw env recipient ns ui) = ui_submitted ui @ map submission_call subs
         \<and> ui_successTxs (handleWithdraw env recipient ns ui)
             = concat (map signature_of (submit_outcomes env subs))
         \<and> length (console_errors (ui_console (handleWithdraw env recipient ns ui)))
             = length (console_errors (ui_console ui))
               + length (filter (\<lambda>out. \<not> withdrawn out) (submit_outcomes env subs))
         \<and> ui_error (handleWithdraw env recipient ns ui)
             = (if concat (map signature_of (submit_outcomes env subs)) = []
                then Some ''All withdrawals failed. Please try again.''
                else (case failure_messages 0 (submit_outcomes env subs) of
                        [] \<Rightarrow> None
                      | m # ms \<Rightarrow> Some (last (m # ms)))))
       \<and> (map_err (\<lambda>n. prepareWithdrawalForProtocol env n recipient (h_protocol h)) ns = Inl e \<longrightarrow>
           ui_submitted (handleWithdraw env recipient ns ui) = ui_submitted ui
         \<and> ui_successTxs (handleWithdraw env recipient ns ui) = []
         \<and> (\<exists>k m. ui_error (handleWithdraw env recipient ns ui)
                    = Some (''Failed to generate proof for note '' @ show_nat k @ '': '' @ m)))"
  using handleWithdraw_isolated[OF assms, of subs ui] handleWithdraw_aborted[OF assms, of e ui]
  by blast

theorem C5_submission_failures_isolated_witness:
  "key_ok demo_submit_fails ''recipient-key''
   \<and> list_all has_merkle_data batch_notes
   \<and> checkProtocolHealth demo_submit_fails = Inr \<lparr>h_status = ''ok'', h_protocol = ''protocol-key''\<rparr>
   \<and> map_err (\<lambda>n. prepareWithdrawalForProtocol demo_submit_fails n ''recipient-key'' ''protocol-key'')
         batch_notes
       = Inr [batch_submission ''pool-1'', batch_submission ''pool-2'', batch_submission ''pool-3'']
   \<and> ui_submitted (handleWithdraw demo_submit_fails ''recipient-key'' batch_notes idle_ui)
       = map submission_call
           [batch_submission ''pool-1'', batch_submission ''pool-2'', batch_submission ''pool-3'']
   \<and> ui_successTxs (handleWithdraw demo_submit_fails ''recipient-key'' batch_notes idle_ui)
       = [''sig-pool-1'', ''sig-pool-3'']
   \<and> length (console_errors (ui_console
               (handleWithdraw demo_submit_fails ''recipient-key'' batch_notes idle_ui))) = 1
   \<and> ui_error (handleWithdraw demo_submit_fails ''recipient-key'' batch_notes idle_ui)
       = Some ''Withdrawal 2 submit failed: Transaction simulation failed: custom program error: 0x1771''
   \<and> key_ok demo_prepare_fails ''recipient-key''
   \<and> checkProtocolHealth demo_prepare_fails = Inr \<lparr>h_status = ''ok'', h_protocol = ''protocol-key''\<rparr>
   \<and> map_err (\<lambda>n. prepareWithdrawalForProtocol demo_prepare_fails n ''recipient-key'' ''protocol-key'')
         batch_notes
       = Inl (Error ''Proof generation failed'')
   \<and> ui_submitted (handleWithdraw demo_prepare_fails ''recipient-key'' batch_notes idle_ui) = []
   \<and> ui_successTxs (handleWithdraw demo_prepare_fails ''recipient-key'' batch_notes idle_ui) = []"
proof -
  let ?h = "\<lparr>h_status = ''ok'', h_protocol = ''protocol-key''\<rparr>"
  have k: "key_ok demo_submit_fails ''recipient-key''"
    by (simp add: demo_submit_fails_def)
  have c: "checkProtocolHealth demo_submit_fails = Inr ?h"
    by (simp add: demo_submit_fails_def)
  have o: "h_status ?h = ''ok''"
    by simp
  have p: "key_ok demo_submit_fails (h_protocol ?h)"
    by (simp add: demo_submit_fails_def)
  have m: "map_err (\<lambda>n. prepareWithdrawalForProtocol demo_submit_fails n ''recipient-key''
                     (h_protocol ?h)) batch_notes
           = Inr [batch_submission ''pool-1'', batch_submission ''pool-2'', batch_submission ''pool-3'']"
    using demo_prepared by simp
  have k2: "key_ok demo_prepare_fails ''recipient-key''"
    by (simp add: demo_prepare_fails_def demo_submit_fails_def)
  have c2: "checkProtocolHealth demo_prepare_fails = Inr ?h"
    by (simp add: demo_prepare_fails_def demo_submit_fails_def)
  have p2: "key_ok demo_prepare_fails (h_protocol ?h)"
    by (simp add: demo_prepare_fails_def demo_submit_fails_def)
  have m2: "map_err (\<lambda>n. prepareWithdrawalForProtocol demo_prepare_fails n ''recipient-key''
                     (h_protocol ?h)) batch_notes
           = Inl (Error ''Proof generation failed'')"
    using demo_not_prepared by simp
  have outs: "submit_outcomes demo_submit_fails
                [batch_submission ''pool-1'', batch_submission ''pool-2'', batch_submission ''pool-3''] =
              [Inr \<lparr>r_signature = ''sig-pool-1'', r_status = status_success, r_error = None\<rparr>,
               Inl (Error ''Transaction simulation failed: custom program error: 0x1771''),
               Inr \<lparr>r_signature = ''sig-pool-3'', r_status = status_success, r_error = None\<rparr>]"
    by (simp add: submit_outcomes_def demo_submit_fails_def batch_submission_def)
  from C5_submission_failures_isolated[OF k batch_has_data c o p, where ui = idle_ui
      and subs = "[batch_submission ''pool-1'', batch_submission ''pool-2'', batch_submission ''pool-3'']"]
    m
  have a: "ui_submitted (handleWithdraw demo_submit_fails ''recipient-key'' batch_notes idle_ui)
          = map submission_call
              [batch_submission ''pool-1'', batch_submission ''pool-2'', batch_submission ''pool-3'']"
    "ui_successTxs (handleWithdraw demo_submit_fails ''recipient-key'' batch_notes idle_ui)
          = [''sig-pool-1'', ''sig-pool-3'']"
    "length (console_errors (ui_console
               (handleWithdraw demo_submit_fails ''recipient-key'' batch_notes idle_ui))) = 1"
    by (simp_all add: outs idle_ui_def console_errors_def)
  from C5_submission_failures_isolated[OF k2 batch_has_data c2 o p2, where ui = idle_ui
      and e = "Error ''Proof generation failed''"]
    m2
  have b: "ui_submitted (handleWithdraw demo_prepare_fails ''recipient-key'' batch_notes idle_ui) = []"
    "ui_successTxs (handleWithdraw demo_prepare_fails ''recipient-key'' batch_notes idle_ui) = []"
    by (simp_all add: idle_ui_def)
  from a b k batch_has_data c demo_prepared demo_submit_run k2 c2 demo_not_prepared show ?thesis
    by simp
qed

end
